(* ===== verification/Pw_Prelude.thy ===== *)
theory Pw_Prelude
  imports Main "HOL-Library.Char_ord" "HOL-Library.List_Lexorder"
begin

text \<open>
  The vocabulary the components of the development share:
  \<^item> decimal numerals and the string helpers of Go's \<open>strconv\<close> and \<open>strings\<close> packages the
    modelled code calls (\<open>Itoa\<close>, \<open>Atoi\<close>, \<open>Cut\<close>, \<open>HasPrefix\<close>, \<open>HasSuffix\<close>, \<open>Join\<close>);
  \<^item> Go's 64-bit \<open>int\<close> addition;
  \<^item> keyed tables: a table is the list of its rows in row-id order, a unique index is a key
    function, and the SQL statements the code issues are the functions below;
  \<^item> effectful code as functions from a world to a result and a world, with a predicate
    transformer \<open>wp\<close> for what a successful run establishes;
  \<^item> transition systems and their invariants, as a locale.
  Strings are byte strings (\<open>char list\<close>), as Go's are, and they are ordered bytewise, as Go's
  \<open><\<close> and SQL's binary collation order them.
\<close>

named_theorems wp_rules \<open>computation of the weakest precondition of an action\<close>
named_theorems tbl_rules \<open>facts on keyed tables\<close>


section \<open>Numerals\<close>

definition digit :: "nat \<Rightarrow> char" where
  "digit n = char_of (48 + n)"

definition is_digit :: "char \<Rightarrow> bool" where
  "is_digit c \<longleftrightarrow> 48 \<le> (of_char c :: nat) \<and> (of_char c :: nat) \<le> 57"

definition digit_val :: "char \<Rightarrow> nat" where
  "digit_val c = of_char c - 48"

text \<open>The last \<open>w\<close> decimal digits of a number, zero padded.\<close>

fun fixed :: "nat \<Rightarrow> nat \<Rightarrow> string" where
  "fixed 0 n = []"
| "fixed (Suc w) n = fixed w (n div 10) @ [digit (n mod 10)]"

fun decimal :: "nat \<Rightarrow> string" where
  "decimal n = (if n < 10 then [digit n] else decimal (n div 10) @ [digit (n mod 10)])"

declare decimal.simps [simp del]

definition digits_val :: "string \<Rightarrow> nat" where
  "digits_val s = foldl (\<lambda>n c. n * 10 + digit_val c) 0 s"

lemma of_char_digit [simp]: "n < 10 \<Longrightarrow> (of_char (digit n) :: nat) = 48 + n"
  by (simp add: digit_def of_char_of)

lemma is_digit_digit [simp]: "n < 10 \<Longrightarrow> is_digit (digit n)"
  by (simp add: is_digit_def)

lemma digit_val_digit [simp]: "n < 10 \<Longrightarrow> digit_val (digit n) = n"
  by (simp add: digit_val_def)

lemma digits_val_snoc [simp]: "digits_val (s @ [c]) = digits_val s * 10 + digit_val c"
  by (simp add: digits_val_def)

lemma digits_val_Nil [simp]: "digits_val [] = 0"
  by (simp add: digits_val_def)

lemma length_fixed [simp]: "length (fixed w n) = w"
  by (induction w arbitrary: n) auto

lemma set_fixed_digits: "c \<in> set (fixed w n) \<Longrightarrow> is_digit c"
  by (induction w arbitrary: n) auto

lemma digits_val_fixed [simp]: "n < 10 ^ w \<Longrightarrow> digits_val (fixed w n) = n"
proof (induction w arbitrary: n)
  case 0
  then show ?case by simp
next
  case (Suc w)
  then have "n div 10 < 10 ^ w" by (simp add: less_mult_imp_div_less mult.commute)
  then show ?case by (simp add: Suc.IH)
qed

lemma digits_val_decimal [simp]: "digits_val (decimal n) = n"
proof (induction n rule: decimal.induct)
  case (1 n)
  show ?case
  proof (cases "n < 10")
    case True
    then show ?thesis by (subst decimal.simps) (simp add: digits_val_def)
  next
    case False
    with 1 show ?thesis by (subst decimal.simps) simp
  qed
qed

lemma set_decimal_digits: "c \<in> set (decimal n) \<Longrightarrow> is_digit c"
proof (induction n rule: decimal.induct)
  case (1 n)
  show ?case
  proof (cases "n < 10")
    case True
    with "1.prems" show ?thesis by (simp add: decimal.simps [of n])
  next
    case False
    with 1 show ?thesis by (auto simp: decimal.simps [of n])
  qed
qed

lemma decimal_not_Nil [simp]: "decimal n \<noteq> []"
  by (subst decimal.simps) simp

lemma decimal_inj: "decimal m = decimal n \<Longrightarrow> m = n"
  by (metis digits_val_decimal)

lemma digits_val_zeros [simp]: "digits_val (replicate k (CHR ''0'') @ s) = digits_val s"
proof (induction s rule: rev_induct)
  case Nil
  have "digits_val (replicate k (CHR ''0'')) = 0"
    by (induction k) (simp_all add: digits_val_def digit_val_def)
  then show ?case by simp
next
  case (snoc c s)
  then show ?case by (simp flip: append_assoc)
qed


section \<open>Strings\<close>

text \<open>
  Go's \<open>int\<close> is 64 bits wide: \<open>wrap64\<close> is the value a computation leaves in it,
  \<open>strconv.Itoa\<close> prints it and \<open>strconv.Atoi\<close> reads an optional sign and decimal digits,
  refusing a value outside the type.
\<close>

definition max_int64 :: int where "max_int64 = 2 ^ 63 - 1"
definition min_int64 :: int where "min_int64 = - (2 ^ 63)"

definition wrap64 :: "int \<Rightarrow> int" where
  "wrap64 n = (n + 2 ^ 63) mod 2 ^ 64 - 2 ^ 63"

lemma wrap64_id: "min_int64 \<le> n \<Longrightarrow> n \<le> max_int64 \<Longrightarrow> wrap64 n = n"
  by (simp add: wrap64_def min_int64_def max_int64_def)

lemma wrap64_range: "min_int64 \<le> wrap64 n \<and> wrap64 n \<le> max_int64"
proof -
  have "0 \<le> (n + 2 ^ 63) mod (2 ^ 64 :: int)" "(n + 2 ^ 63) mod (2 ^ 64 :: int) < 2 ^ 64"
    by (rule pos_mod_sign, simp, rule pos_mod_bound, simp)
  then show ?thesis by (simp add: wrap64_def min_int64_def max_int64_def)
qed

definition itoa :: "int \<Rightarrow> string" where
  "itoa i = (if i < 0 then CHR ''-'' # decimal (nat (- i)) else decimal (nat i))"

definition in_int64 :: "int \<Rightarrow> int option" where
  "in_int64 i = (if min_int64 \<le> i \<and> i \<le> max_int64 then Some i else None)"

definition atoi :: "string \<Rightarrow> int option" where
  "atoi s =
     (let neg = (s \<noteq> [] \<and> hd s = CHR ''-'');
          body = (if s \<noteq> [] \<and> (hd s = CHR ''-'' \<or> hd s = CHR ''+'') then tl s else s)
      in if body = [] \<or> \<not> list_all is_digit body then None
         else in_int64 (if neg then - int (digits_val body) else int (digits_val body)))"

lemma is_digit_not_sign: "is_digit c \<Longrightarrow> c \<noteq> CHR ''-'' \<and> c \<noteq> CHR ''+''"
  by (auto simp: is_digit_def)

lemma atoi_digits:
  assumes "s \<noteq> []" "list_all is_digit s" "int (digits_val s) \<le> max_int64"
  shows "atoi s = Some (int (digits_val s))"
proof -
  from assms(1,2) have "is_digit (hd s)" by (cases s) auto
  then have "hd s \<noteq> CHR ''-''" "hd s \<noteq> CHR ''+''" by (auto simp: is_digit_not_sign)
  moreover have "min_int64 \<le> int (digits_val s)" by (simp add: min_int64_def)
  ultimately show ?thesis using assms by (simp add: atoi_def Let_def in_int64_def)
qed

text \<open>\<open>strings.Cut\<close> at a one-byte separator: the text before it, all of it when there is none.\<close>

definition cut_head :: "char \<Rightarrow> string \<Rightarrow> string" where
  "cut_head sep s = takeWhile (\<lambda>c. c \<noteq> sep) s"

lemma cut_head_append: "sep \<notin> set h \<Longrightarrow> cut_head sep (h @ sep # t) = h"
  by (simp add: cut_head_def takeWhile_append)

definition has_prefix :: "string \<Rightarrow> string \<Rightarrow> bool" where
  "has_prefix s p \<longleftrightarrow> take (length p) s = p"

definition has_suffix :: "string \<Rightarrow> string \<Rightarrow> bool" where
  "has_suffix s p \<longleftrightarrow> drop (length s - length p) s = p"

fun join :: "string \<Rightarrow> string list \<Rightarrow> string" where
  "join sep [] = []"
| "join sep [s] = s"
| "join sep (s # t # ss) = s @ sep @ join sep (t # ss)"

text \<open>Bytewise order on strings of the same length compares the heads first.\<close>

lemma less_append_same_length:
  fixes xs ys :: string
  assumes "length xs = length ys"
  shows "xs @ us < ys @ vs \<longleftrightarrow> xs < ys \<or> (xs = ys \<and> us < vs)"
  using assms
proof (induction xs ys rule: list_induct2)
  case Nil
  then show ?case by simp
next
  case (Cons x xs y ys)
  then show ?case by auto
qed

lemma less_div_mod:
  "(m :: nat) < n \<longleftrightarrow> m div 10 < n div 10 \<or> (m div 10 = n div 10 \<and> m mod 10 < n mod 10)"
proof -
  have "m = 10 * (m div 10) + m mod 10" "n = 10 * (n div 10) + n mod 10"
    "m mod 10 < 10" "n mod 10 < 10" by simp_all
  then show ?thesis by linarith
qed

lemma digit_less: "a < 10 \<Longrightarrow> b < 10 \<Longrightarrow> digit a < digit b \<longleftrightarrow> a < b"
  by (simp add: less_char_def)

lemma fixed_less:
  "m < 10 ^ w \<Longrightarrow> n < 10 ^ w \<Longrightarrow> fixed w m < fixed w n \<longleftrightarrow> m < n"
proof (induction w arbitrary: m n)
  case 0
  then show ?case by simp
next
  case (Suc w)
  have d: "m div 10 < 10 ^ w" "n div 10 < 10 ^ w"
    using Suc.prems by (simp_all add: less_mult_imp_div_less mult.commute)
  have eq: "fixed w (m div 10) = fixed w (n div 10) \<longleftrightarrow> m div 10 = n div 10"
    using d by (metis digits_val_fixed)
  have "fixed (Suc w) m < fixed (Suc w) n \<longleftrightarrow>
      m div 10 < n div 10 \<or> (m div 10 = n div 10 \<and> m mod 10 < n mod 10)"
    by (simp add: less_append_same_length Suc.IH [OF d] eq digit_less)
  then show ?case by (simp only: less_div_mod [of m n])
qed

lemma fixed_inj: "m < 10 ^ w \<Longrightarrow> n < 10 ^ w \<Longrightarrow> fixed w m = fixed w n \<longleftrightarrow> m = n"
  by (metis digits_val_fixed)


section \<open>Keyed tables\<close>

text \<open>
  A table is the list of its rows in insertion order. \<open>key\<close> reads the columns of a unique
  index. \<open>sel\<close> is \<^verbatim>\<open>SELECT ... WHERE key = k\<close>, \<open>del\<close> the \<^verbatim>\<open>DELETE\<close>, \<open>upd\<close> the
  \<^verbatim>\<open>UPDATE ... WHERE\<close> of a predicate, \<open>ins\<close> a plain \<^verbatim>\<open>INSERT\<close> (None when the unique index
  refuses it) and \<open>ins_ignore\<close> an \<^verbatim>\<open>INSERT OR IGNORE\<close>.
\<close>

definition has_key :: "('r \<Rightarrow> 'k) \<Rightarrow> 'k \<Rightarrow> 'r list \<Rightarrow> bool" where
  "has_key key k t = list_ex (\<lambda>r. key r = k) t"

definition sel :: "('r \<Rightarrow> 'k) \<Rightarrow> 'k \<Rightarrow> 'r list \<Rightarrow> 'r option" where
  "sel key k t = find (\<lambda>r. key r = k) t"

definition del :: "('r \<Rightarrow> 'k) \<Rightarrow> 'k \<Rightarrow> 'r list \<Rightarrow> 'r list" where
  "del key k t = filter (\<lambda>r. key r \<noteq> k) t"

definition upd :: "('r \<Rightarrow> bool) \<Rightarrow> ('r \<Rightarrow> 'r) \<Rightarrow> 'r list \<Rightarrow> 'r list" where
  "upd P f t = map (\<lambda>r. if P r then f r else r) t"

definition ins :: "('r \<Rightarrow> 'k) \<Rightarrow> 'r \<Rightarrow> 'r list \<Rightarrow> 'r list option" where
  "ins key r t = (if has_key key (key r) t then None else Some (t @ [r]))"

definition ins_ignore :: "('r \<Rightarrow> 'k) \<Rightarrow> 'r \<Rightarrow> 'r list \<Rightarrow> 'r list" where
  "ins_ignore key r t = (if has_key key (key r) t then t else t @ [r])"

definition unique :: "('r \<Rightarrow> 'k) \<Rightarrow> 'r list \<Rightarrow> bool" where
  "unique key t = distinct (map key t)"

lemma has_key_iff: "has_key key k t \<longleftrightarrow> (\<exists>r\<in>set t. key r = k)"
  by (auto simp: has_key_def list_ex_iff)

lemma has_key_simps [simp]:
  "\<not> has_key key k []"
  "has_key key k (r # t) \<longleftrightarrow> key r = k \<or> has_key key k t"
  "has_key key k (t @ u) \<longleftrightarrow> has_key key k t \<or> has_key key k u"
  by (auto simp: has_key_def)

lemma sel_simps [simp]:
  "sel key k [] = None"
  "sel key k (r # t) = (if key r = k then Some r else sel key k t)"
  by (simp_all add: sel_def)

lemma sel_Some: "sel key k t = Some r \<Longrightarrow> r \<in> set t \<and> key r = k"
  by (auto simp: sel_def find_Some_iff)

lemma sel_None: "sel key k t = None \<longleftrightarrow> \<not> has_key key k t"
  by (auto simp: sel_def find_None_iff has_key_iff)

lemma sel_append: "sel key k (t @ u) = (case sel key k t of None \<Rightarrow> sel key k u | Some r \<Rightarrow> Some r)"
  by (induction t) auto

lemma sel_del: "sel key k (del key j t) = (if k = j then None else sel key k t)"
  by (induction t) (auto simp: del_def)

lemma has_key_del [simp]: "has_key key k (del key j t) \<longleftrightarrow> k \<noteq> j \<and> has_key key k t"
  by (auto simp: has_key_iff del_def)

lemma set_del [simp]: "set (del key k t) = {r \<in> set t. key r \<noteq> k}"
  by (auto simp: del_def)

lemma set_upd [simp]: "set (upd P f t) = (\<lambda>r. if P r then f r else r) ` set t"
  by (simp add: upd_def)

lemma upd_simps [simp]:
  "upd P f [] = []"
  "upd P f (r # t) = (if P r then f r else r) # upd P f t"
  by (simp_all add: upd_def)

lemma sel_upd:
  assumes "\<And>r. key (f r) = key r"
  shows "sel key k (upd P f t) = map_option (\<lambda>r. if P r then f r else r) (sel key k t)"
  by (induction t) (auto simp: assms)

lemma has_key_upd:
  assumes "\<And>r. key (f r) = key r"
  shows "has_key key k (upd P f t) \<longleftrightarrow> has_key key k t"
  by (induction t) (auto simp: assms)

lemma map_key_upd:
  assumes "\<And>r. key (f r) = key r"
  shows "map key (upd P f t) = map key t"
  by (induction t) (auto simp: assms)

lemma unique_Nil [simp]: "unique key []"
  by (simp add: unique_def)

lemma unique_del: "unique key t \<Longrightarrow> unique key (del k j t)"
  by (simp add: unique_def del_def distinct_map_filter)

lemma unique_upd: "(\<And>r. key (f r) = key r) \<Longrightarrow> unique key t \<Longrightarrow> unique key (upd P f t)"
  by (simp add: unique_def map_key_upd)

lemma unique_snoc: "unique key t \<Longrightarrow> \<not> has_key key (key r) t \<Longrightarrow> unique key (t @ [r])"
  by (auto simp: unique_def has_key_iff)

lemma unique_ins_ignore: "unique key t \<Longrightarrow> unique key (ins_ignore key r t)"
  by (simp add: ins_ignore_def unique_snoc)

lemma unique_ins: "unique key t \<Longrightarrow> ins key r t = Some u \<Longrightarrow> unique key u"
  by (auto simp: ins_def unique_snoc split: if_splits)

lemma unique_eq: "unique key t \<Longrightarrow> r \<in> set t \<Longrightarrow> s \<in> set t \<Longrightarrow> key r = key s \<Longrightarrow> r = s"
  unfolding unique_def distinct_map by (auto dest: inj_onD)

lemma unique_sel: "unique key t \<Longrightarrow> r \<in> set t \<Longrightarrow> sel key (key r) t = Some r"
proof (cases "sel key (key r) t")
  case None
  then show "r \<in> set t \<Longrightarrow> ?thesis" by (auto simp: sel_None has_key_iff)
next
  case (Some s)
  then have "s \<in> set t" "key s = key r" by (auto dest: sel_Some)
  then show "unique key t \<Longrightarrow> r \<in> set t \<Longrightarrow> ?thesis" using Some unique_eq [of key t s r] by simp
qed

lemmas unique_rules = unique_Nil unique_del unique_upd unique_snoc unique_ins_ignore unique_ins
declare unique_rules [tbl_rules] has_key_upd [tbl_rules] sel_upd [tbl_rules] sel_del [tbl_rules]


section \<open>Actions\<close>

text \<open>
  Code with effects is an action: from a world, a result (\<open>Inl\<close> an error, as Go's second return
  value, or \<open>Inr\<close> a value) and the world it leaves, also when it fails. \<open>bindA\<close> is the
  \<^verbatim>\<open>if err != nil { return err }\<close> of the source, \<open>foldA\<close> a loop that stops at the first
  error and threads a value. \<open>wp m Q w\<close>: if the action succeeds from \<open>w\<close>, its value and
  the world it leaves satisfy \<open>Q\<close>.
\<close>

type_synonym ('w, 'e, 'a) act = "'w \<Rightarrow> ('e + 'a) \<times> 'w"

definition ret :: "'a \<Rightarrow> ('w, 'e, 'a) act" where
  "ret x = (\<lambda>w. (Inr x, w))"

definition throw :: "'e \<Rightarrow> ('w, 'e, 'a) act" where
  "throw e = (\<lambda>w. (Inl e, w))"

definition bindA :: "('w, 'e, 'a) act \<Rightarrow> ('a \<Rightarrow> ('w, 'e, 'b) act) \<Rightarrow> ('w, 'e, 'b) act" where
  "bindA m k = (\<lambda>w. case m w of (Inl e, v) \<Rightarrow> (Inl e, v) | (Inr x, v) \<Rightarrow> k x v)"

definition thenA :: "('w, 'e, 'a) act \<Rightarrow> ('w, 'e, 'b) act \<Rightarrow> ('w, 'e, 'b) act" where
  "thenA m k = bindA m (\<lambda>_. k)"

definition getA :: "('w \<Rightarrow> 'a) \<Rightarrow> ('w, 'e, 'a) act" where
  "getA f = (\<lambda>w. (Inr (f w), w))"

definition modifyA :: "('w \<Rightarrow> 'w) \<Rightarrow> ('w, 'e, unit) act" where
  "modifyA f = (\<lambda>w. (Inr (), f w))"

definition liftE :: "'e + 'a \<Rightarrow> ('w, 'e, 'a) act" where
  "liftE r = (\<lambda>w. (r, w))"

fun foldA :: "('s \<Rightarrow> 'x \<Rightarrow> ('w, 'e, 's) act) \<Rightarrow> 's \<Rightarrow> 'x list \<Rightarrow> ('w, 'e, 's) act" where
  "foldA f s [] = ret s"
| "foldA f s (x # xs) = bindA (f s x) (\<lambda>s'. foldA f s' xs)"

definition wp :: "('w, 'e, 'a) act \<Rightarrow> ('a \<Rightarrow> 'w \<Rightarrow> bool) \<Rightarrow> 'w \<Rightarrow> bool" where
  "wp m Q w \<longleftrightarrow> (\<forall>x v. m w = (Inr x, v) \<longrightarrow> Q x v)"

lemma wp_ret [wp_rules]: "wp (ret x) Q w = Q x w"
  by (simp add: wp_def ret_def)

lemma wp_throw [wp_rules]: "wp (throw e) Q w = True"
  by (simp add: wp_def throw_def)

lemma wp_bindA [wp_rules]: "wp (bindA m k) Q w = wp m (\<lambda>x. wp (k x) Q) w"
proof (cases "m w")
  case (Pair r v)
  then show ?thesis by (cases r) (simp_all add: wp_def bindA_def)
qed

lemma wp_thenA [wp_rules]: "wp (thenA m k) Q w = wp m (\<lambda>x. wp k Q) w"
  by (simp add: thenA_def wp_bindA)

lemma wp_getA [wp_rules]: "wp (getA f) Q w = Q (f w) w"
  by (simp add: wp_def getA_def)

lemma wp_modifyA [wp_rules]: "wp (modifyA f) Q w = Q () (f w)"
  by (simp add: wp_def modifyA_def)

lemma wp_liftE [wp_rules]: "wp (liftE r) Q w = (case r of Inl e \<Rightarrow> True | Inr x \<Rightarrow> Q x w)"
  by (auto simp: wp_def liftE_def split: sum.splits)

lemma wp_if [wp_rules]: "wp (if b then m else n) Q w = (if b then wp m Q w else wp n Q w)"
  by simp

lemma wp_mono: "wp m Q w \<Longrightarrow> (\<And>x v. Q x v \<Longrightarrow> R x v) \<Longrightarrow> wp m R w"
  by (auto simp: wp_def)

lemma wp_conj: "wp m Q w \<Longrightarrow> wp m R w \<Longrightarrow> wp m (\<lambda>x v. Q x v \<and> R x v) w"
  by (auto simp: wp_def)

lemma wpD: "wp m Q w \<Longrightarrow> m w = (Inr x, v) \<Longrightarrow> Q x v"
  by (auto simp: wp_def)

lemma wpI: "(\<And>x v. m w = (Inr x, v) \<Longrightarrow> Q x v) \<Longrightarrow> wp m Q w"
  by (auto simp: wp_def)

text \<open>A loop keeps an invariant of the threaded value and the world that its body keeps.\<close>

lemma wp_foldA:
  assumes "I s w"
    and "\<And>s x v. x \<in> set xs \<Longrightarrow> I s v \<Longrightarrow> wp (f s x) I v"
  shows "wp (foldA f s xs) I w"
  using assms
proof (induction xs arbitrary: s w)
  case Nil
  then show ?case by (simp add: wp_ret)
next
  case (Cons x xs)
  have "wp (f s x) (\<lambda>s'. wp (foldA f s' xs) I) w"
  proof (rule wp_mono)
    show "wp (f s x) I w" by (rule Cons.prems(2)) (simp_all add: Cons.prems(1))
    show "wp (foldA f s' xs) I v" if "I s' v" for s' v
      by (rule Cons.IH [OF that]) (simp add: Cons.prems(2))
  qed
  then show ?case by (simp add: wp_bindA)
qed

text \<open>The same with the elements already consumed in the invariant.\<close>

lemma wp_foldA_upto:
  assumes "I [] s w"
    and "\<And>ys x zs s v. xs = ys @ x # zs \<Longrightarrow> I ys s v \<Longrightarrow> wp (f s x) (I (ys @ [x])) v"
  shows "wp (foldA f s xs) (I xs) w"
proof -
  have "wp (foldA f s zs) (I xs) v" if "xs = ys @ zs" "I ys s v" for ys zs s v
    using that
  proof (induction zs arbitrary: ys s v)
    case Nil
    then show ?case by (simp add: wp_ret)
  next
    case (Cons x zs)
    have "wp (f s x) (\<lambda>s'. wp (foldA f s' zs) (I xs)) v"
      by (rule wp_mono [OF assms(2) [OF Cons.prems]], rule Cons.IH) (simp_all add: Cons.prems(1))
    then show ?case by (simp add: wp_bindA)
  qed
  from this [of "[]" xs s w] show ?thesis using assms(1) by simp
qed

text \<open>What an action does to the part of the world \<open>g\<close> reads, on every outcome.\<close>

definition keeps :: "('w \<Rightarrow> 'b) \<Rightarrow> ('w, 'e, 'a) act \<Rightarrow> bool" where
  "keeps g m \<longleftrightarrow> (\<forall>w. g (snd (m w)) = g w)"

lemma keepsD: "keeps g m \<Longrightarrow> g (snd (m w)) = g w"
  by (simp add: keeps_def)

lemma keeps_ret [intro]: "keeps g (ret x)"
  by (simp add: keeps_def ret_def)

lemma keeps_throw [intro]: "keeps g (throw e)"
  by (simp add: keeps_def throw_def)

lemma keeps_getA [intro]: "keeps g (getA f)"
  by (simp add: keeps_def getA_def)

lemma keeps_liftE [intro]: "keeps g (liftE r)"
  by (simp add: keeps_def liftE_def)

lemma keeps_bindA [intro]: "keeps g m \<Longrightarrow> (\<And>x. keeps g (k x)) \<Longrightarrow> keeps g (bindA m k)"
proof -
  assume m: "keeps g m" and k: "\<And>x. keeps g (k x)"
  have "g (snd (bindA m k w)) = g w" for w
  proof (cases "m w")
    case (Pair r v)
    then show ?thesis using keepsD [OF m, of w] keepsD [OF k]
      by (cases r) (simp_all add: bindA_def)
  qed
  then show ?thesis by (simp add: keeps_def)
qed

lemma keeps_thenA [intro]: "keeps g m \<Longrightarrow> keeps g k \<Longrightarrow> keeps g (thenA m k)"
  by (auto simp: thenA_def)

lemma keeps_foldA: "(\<And>s x. keeps g (f s x)) \<Longrightarrow> keeps g (foldA f s xs)"
  by (induction xs arbitrary: s) auto

lemmas act_defs = ret_def throw_def bindA_def thenA_def getA_def modifyA_def liftE_def


section \<open>Relations every outcome satisfies\<close>

text \<open>
  \<open>always R m\<close>: whatever the outcome, the world the action leaves is related to the one it started
  from. For a preorder the property composes along the source's control flow.
\<close>

definition always :: "('w \<Rightarrow> 'w \<Rightarrow> bool) \<Rightarrow> ('w, 'e, 'a) act \<Rightarrow> bool" where
  "always R m \<longleftrightarrow> (\<forall>w. R w (snd (m w)))"

lemma alwaysD: "always R m \<Longrightarrow> m w = (r, v) \<Longrightarrow> R w v"
  unfolding always_def by (metis snd_conv)

lemma alwaysI: "(\<And>w r v. m w = (r, v) \<Longrightarrow> R w v) \<Longrightarrow> always R m"
  unfolding always_def by (metis prod.collapse)

lemma always_modifyA: "(\<And>w. R w (f w)) \<Longrightarrow> always R (modifyA f)"
  by (simp add: always_def modifyA_def)

locale world_relation =
  fixes R :: "'w \<Rightarrow> 'w \<Rightarrow> bool"
  assumes related_refl: "R w w"
    and related_trans: "R w v \<Longrightarrow> R v u \<Longrightarrow> R w u"
begin

lemma always_ret: "always R (ret x)"
  by (simp add: always_def ret_def related_refl)

lemma always_throw: "always R (throw e)"
  by (simp add: always_def throw_def related_refl)

lemma always_getA: "always R (getA f)"
  by (simp add: always_def getA_def related_refl)

lemma always_liftE: "always R (liftE r)"
  by (simp add: always_def liftE_def related_refl)

lemma always_bindA: "always R m \<Longrightarrow> (\<And>x. always R (k x)) \<Longrightarrow> always R (bindA m k)"
proof (rule alwaysI)
  fix w r v assume m: "always R m" and k: "\<And>x. always R (k x)" and r: "bindA m k w = (r, v)"
  obtain s u where s: "m w = (s, u)" by (cases "m w") auto
  show "R w v"
  proof (cases s)
    case (Inl e)
    then show ?thesis using alwaysD [OF m s] r s by (simp add: bindA_def)
  next
    case (Inr x)
    then have "k x u = (r, v)" using r s by (simp add: bindA_def)
    then show ?thesis using alwaysD [OF m s] alwaysD [OF k] related_trans by blast
  qed
qed

lemma always_thenA: "always R m \<Longrightarrow> always R k \<Longrightarrow> always R (thenA m k)"
  by (simp add: thenA_def always_bindA)

lemma always_foldA: "(\<And>s x. always R (f s x)) \<Longrightarrow> always R (foldA f s xs)"
  by (induction xs arbitrary: s) (simp_all add: always_ret always_bindA)

lemmas always_rules = always_ret always_throw always_getA always_liftE always_bindA always_thenA always_foldA

end


section \<open>Transition systems\<close>

text \<open>
  A component that runs forever is a transition system: an initial state and a step relation. What
  the initial state has and every step keeps, every reachable state has.
\<close>

locale transition_system =
  fixes init :: "'s \<Rightarrow> bool"
    and step :: "'s \<Rightarrow> 's \<Rightarrow> bool"
    and inv :: "'s \<Rightarrow> bool"
  assumes inv_init: "init s \<Longrightarrow> inv s"
    and inv_step: "inv s \<Longrightarrow> step s t \<Longrightarrow> inv t"
begin

lemma inv_steps: "step\<^sup>*\<^sup>* s t \<Longrightarrow> inv s \<Longrightarrow> inv t"
  by (induction rule: rtranclp_induct) (auto intro: inv_step)

lemma inv_reachable: "init s \<Longrightarrow> step\<^sup>*\<^sup>* s t \<Longrightarrow> inv t"
  by (rule inv_steps) (auto intro: inv_init)

end

end
