(* ===== verification/Utf8.thy ===== *)
theory Utf8
  imports Pw_Prelude
begin

text \<open>
  UTF-8 as Go's \<open>unicode/utf8\<close> package decodes it, on byte strings. \<open>rune_len s\<close> is the width
  of the well-formed sequence at the head of \<open>s\<close>, zero when there is none (Go then decodes one
  byte as \<open>RuneError\<close>). \<open>valid_utf8\<close> is \<open>utf8.ValidString\<close>, \<open>runes\<close> the conversion to
  \<open>[]rune\<close> with each rune kept as its encoding, \<open>rune_count\<close> \<open>utf8.RuneCountInString\<close>,
  \<open>to_valid\<close> \<open>strings.ToValidUTF8(s, "")\<close>.
\<close>

definition byte :: "char \<Rightarrow> nat" where
  "byte c = of_char c"

definition between :: "nat \<Rightarrow> nat \<Rightarrow> char \<Rightarrow> bool" where
  "between lo hi c \<longleftrightarrow> lo \<le> byte c \<and> byte c \<le> hi"

abbreviation cont :: "char \<Rightarrow> bool" where
  "cont \<equiv> between 128 191"

definition rune_len :: "string \<Rightarrow> nat" where
  "rune_len s =
     (case s of
        [] \<Rightarrow> 0
      | c # r \<Rightarrow>
          if byte c < 128 then 1
          else if between 194 223 c then (case r of d # _ \<Rightarrow> if cont d then 2 else 0 | _ \<Rightarrow> 0)
          else if between 224 239 c then
            (case r of
               d # e # _ \<Rightarrow>
                 if between (if byte c = 224 then 160 else 128) (if byte c = 237 then 159 else 191) d \<and> cont e
                 then 3 else 0
             | _ \<Rightarrow> 0)
          else if between 240 244 c then
            (case r of
               d # e # f # _ \<Rightarrow>
                 if between (if byte c = 240 then 144 else 128) (if byte c = 244 then 143 else 191) d
                    \<and> cont e \<and> cont f
                 then 4 else 0
             | _ \<Rightarrow> 0)
          else 0)"

text \<open>\<open>utf8.RuneStart\<close>: not a continuation byte.\<close>

definition rune_start :: "char \<Rightarrow> bool" where
  "rune_start c \<longleftrightarrow> \<not> cont c"

definition rune_error :: string where
  "rune_error = [char_of (239 :: nat), char_of (191 :: nat), char_of (189 :: nat)]"

lemma rune_len_le: "rune_len s \<le> length s"
  by (auto simp: rune_len_def split: list.splits)

lemma rune_len_0_or: "rune_len s \<in> {0, 1, 2, 3, 4}"
  by (auto simp: rune_len_def split: list.splits)

function valid_utf8 :: "string \<Rightarrow> bool" where
  "valid_utf8 s = (if s = [] then True else if rune_len s = 0 then False else valid_utf8 (drop (rune_len s) s))"
  by pat_completeness auto
termination by (relation "measure length") auto

function runes :: "string \<Rightarrow> string list" where
  "runes s =
     (if s = [] then []
      else if rune_len s = 0 then rune_error # runes (tl s)
      else take (rune_len s) s # runes (drop (rune_len s) s))"
  by pat_completeness auto
termination by (relation "measure length") auto

function rune_count :: "string \<Rightarrow> nat" where
  "rune_count s = (if s = [] then 0 else Suc (rune_count (drop (max 1 (rune_len s)) s)))"
  by pat_completeness auto
termination by (relation "measure length") auto

function to_valid :: "string \<Rightarrow> string" where
  "to_valid s =
     (if s = [] then []
      else if rune_len s = 0 then to_valid (tl s)
      else take (rune_len s) s @ to_valid (drop (rune_len s) s))"
  by pat_completeness auto
termination by (relation "measure length") auto

declare valid_utf8.simps [simp del] runes.simps [simp del] rune_count.simps [simp del] to_valid.simps [simp del]

lemma valid_utf8_Nil [simp]: "valid_utf8 []"
  by (subst valid_utf8.simps) simp

text \<open>At most four bytes decide the width.\<close>

lemma up_to_four:
  obtains "s = []" | a where "s = [a]" | a b where "s = [a, b]" | a b c where "s = [a, b, c]"
    | a b c d r where "s = a # b # c # d # r"
  by (metis neq_Nil_conv)

lemma rune_len_append: "0 < rune_len s \<Longrightarrow> rune_len (s @ t) = rune_len s"
  by (cases s rule: up_to_four) (simp_all add: rune_len_def split: if_splits)

lemma rune_len_take: "rune_len (take (rune_len s) s) = rune_len s"
  by (cases s rule: up_to_four) (simp_all add: rune_len_def)

lemma valid_utf8_step: "0 < rune_len s \<Longrightarrow> valid_utf8 (drop (rune_len s) s) \<Longrightarrow> valid_utf8 s"
  by (subst valid_utf8.simps) simp

lemma valid_utf8_append: "valid_utf8 s \<Longrightarrow> valid_utf8 t \<Longrightarrow> valid_utf8 (s @ t)"
proof (induction s rule: valid_utf8.induct)
  case (1 s)
  show ?case
  proof (cases "s = []")
    case True
    then show ?thesis using 1 by simp
  next
    case False
    with "1.prems"(1) have n: "0 < rune_len s" "valid_utf8 (drop (rune_len s) s)"
      by (simp_all add: valid_utf8.simps [of s] split: if_splits)
    have "valid_utf8 (drop (rune_len s) s @ t)"
      by (rule "1.IH") (use False n "1.prems" in simp_all)
    then have "valid_utf8 (drop (rune_len (s @ t)) (s @ t))"
      using n rune_len_le [of s] by (simp add: rune_len_append)
    then show ?thesis using n by (simp add: valid_utf8_step rune_len_append)
  qed
qed

lemma valid_utf8_rune: "0 < rune_len s \<Longrightarrow> valid_utf8 (take (rune_len s) s)"
  by (rule valid_utf8_step) (simp_all add: rune_len_take)

lemma valid_rune_error: "valid_utf8 rune_error"
  by code_simp

lemma valid_to_valid: "valid_utf8 (to_valid s)"
proof (induction s rule: to_valid.induct)
  case (1 s)
  then show ?case by (subst to_valid.simps) (auto intro!: valid_utf8_append valid_utf8_rune)
qed

lemma to_valid_id: "valid_utf8 s \<Longrightarrow> to_valid s = s"
proof (induction s rule: to_valid.induct)
  case (1 s)
  then show ?case by (subst to_valid.simps) (auto simp: valid_utf8.simps [of s] split: if_splits)
qed

lemma length_to_valid: "length (to_valid s) \<le> length s"
proof (induction s rule: to_valid.induct)
  case (1 s)
  show ?case
  proof (cases "s = [] \<or> rune_len s = 0")
    case True
    then show ?thesis using 1 by (subst to_valid.simps) (cases s; auto)
  next
    case False
    then have "length (to_valid (drop (rune_len s) s)) \<le> length (drop (rune_len s) s)" using 1 by simp
    then show ?thesis using False rune_len_le [of s] by (subst to_valid.simps) simp
  qed
qed

lemma rune_count_runes: "rune_count s = length (runes s)"
proof (induction s rule: runes.induct)
  case (1 s)
  then show ?case
    by (subst rune_count.simps, subst runes.simps) (auto simp: drop_Suc max_def)
qed

text \<open>Every rune is one well-formed sequence of its own.\<close>

definition one_rune :: "string \<Rightarrow> bool" where
  "one_rune r \<longleftrightarrow> r \<noteq> [] \<and> rune_len r = length r"

lemma one_rune_error: "one_rune rune_error"
  by code_simp

lemma runes_one_rune: "r \<in> set (runes s) \<Longrightarrow> one_rune r"
proof (induction s rule: runes.induct)
  case (1 s)
  show ?case
  proof (cases "s = [] \<or> rune_len s = 0")
    case True
    then show ?thesis using 1 one_rune_error by (auto simp: runes.simps [of s] split: if_splits)
  next
    case False
    then have "one_rune (take (rune_len s) s)"
      using rune_len_le [of s] by (auto simp: one_rune_def rune_len_take)
    then show ?thesis using False 1 by (auto simp: runes.simps [of s])
  qed
qed

lemma runes_cons: "one_rune r \<Longrightarrow> runes (r @ s) = r # runes s"
  by (subst runes.simps) (auto simp: one_rune_def rune_len_append)

lemma runes_concat: "list_all one_rune rs \<Longrightarrow> runes (concat rs) = rs"
proof (induction rs)
  case Nil
  then show ?case by (simp add: runes.simps)
next
  case (Cons r rs)
  then show ?case by (simp add: runes_cons)
qed

lemma valid_concat_runes: "list_all one_rune rs \<Longrightarrow> valid_utf8 (concat rs)"
proof (induction rs)
  case (Cons r rs)
  then have "valid_utf8 r" by (simp add: one_rune_def valid_utf8.simps [of r])
  then show ?case using Cons by (simp add: valid_utf8_append)
qed simp

lemma rune_count_concat: "list_all one_rune rs \<Longrightarrow> rune_count (concat rs) = length rs"
  by (simp add: rune_count_runes runes_concat)

lemma runes_append: "list_all one_rune rs \<Longrightarrow> rune_count (concat rs @ t) = length rs + rune_count t"
proof (induction rs)
  case (Cons r rs)
  then show ?case by (simp add: rune_count_runes runes_cons)
qed simp

lemma list_all_runes: "list_all one_rune (runes s)"
  by (simp add: list_all_iff runes_one_rune)

end
