(* ===== verification/Text_Bounds.thy ===== *)
theory Text_Bounds
  imports Utf8
begin

text \<open>
  The bounded-text rules: \<open>src/internal/textbound/textbound.go\<close> and \<open>src/text_bounds.go\<close>. A cut
  whose slice expression would panic is \<open>None\<close>.
\<close>

section \<open>Package textbound\<close>

text \<open>The loop of \<open>PrefixWithin\<close>: the largest length up to a bound whose prefix is valid.\<close>

fun shrink :: "string \<Rightarrow> nat \<Rightarrow> nat" where
  "shrink v 0 = 0"
| "shrink v (Suc n) = (if valid_utf8 (take (Suc n) v) then Suc n else shrink v n)"

definition PrefixWithin :: "string \<Rightarrow> int \<Rightarrow> string option" where
  "PrefixWithin v limit =
     (if int (length v) \<le> limit then Some v
      else if limit < 0 then None
      else Some (take (shrink v (nat limit)) v))"

function runeStartFrom :: "string \<Rightarrow> nat \<Rightarrow> nat" where
  "runeStartFrom v start =
     (if start < length v \<and> \<not> rune_start (v ! start) then runeStartFrom v (Suc start) else start)"
  by pat_completeness auto
termination by (relation "measure (\<lambda>(v, s). length v - s)") auto

declare runeStartFrom.simps [simp del]

definition SuffixWithin :: "string \<Rightarrow> int \<Rightarrow> string" where
  "SuffixWithin v limit =
     (if limit \<le> 0 then []
      else to_valid
        (if int (length v) > limit
         then drop (runeStartFrom v (nat (int (length v) - limit))) v
         else v))"

definition RunePrefix :: "string \<Rightarrow> int \<Rightarrow> string" where
  "RunePrefix v limit =
     (if int (rune_count v) \<le> limit then v
      else concat (take (nat (max 0 limit)) (runes v)))"


section \<open>The root package's rules\<close>

definition laneEventTextLimit :: int where "laneEventTextLimit = 2048"
definition hubRelayPayloadTextLimit :: int where "hubRelayPayloadTextLimit = 240"
definition inboxSummaryTitleRunes :: int where "inboxSummaryTitleRunes = 60"
definition hubPaneIDLimit :: int where "hubPaneIDLimit = 128"

definition ellipsis :: string where
  "ellipsis = [char_of (226 :: nat), char_of (128 :: nat), char_of (166 :: nat)]"

definition utf8PrefixWithin :: "string \<Rightarrow> int \<Rightarrow> string option" where
  "utf8PrefixWithin v limit = PrefixWithin v limit"

definition utf8SuffixWithin :: "string \<Rightarrow> int \<Rightarrow> string" where
  "utf8SuffixWithin v limit = SuffixWithin v limit"

definition truncateRelayText :: "string \<Rightarrow> int \<Rightarrow> string option" where
  "truncateRelayText v limit = utf8PrefixWithin v limit"

definition truncateLaneEventTextAtLimit :: "string \<Rightarrow> int \<Rightarrow> (string \<times> bool) option" where
  "truncateLaneEventTextAtLimit v limit =
     (if int (length v) \<le> limit then Some (v, False)
      else map_option (\<lambda>p. (p @ ''[truncated]'', True))
             (utf8PrefixWithin v (limit - int (length ''[truncated]''))))"

definition truncateLaneEventText :: "string \<Rightarrow> (string \<times> bool) option" where
  "truncateLaneEventText v = truncateLaneEventTextAtLimit v laneEventTextLimit"

definition capLaneText :: "string \<Rightarrow> string option" where
  "capLaneText txt =
     (if int (length txt) \<le> laneEventTextLimit then Some txt
      else map_option (\<lambda>p. p @ ellipsis)
             (utf8PrefixWithin txt (laneEventTextLimit - int (length ellipsis))))"

text \<open>The replacer for CRLF, CR and LF, tried in this order at each position.\<close>

fun normalize_newlines :: "string \<Rightarrow> string" where
  "normalize_newlines [] = []"
| "normalize_newlines (c # s) =
     (if c = CHR 0x0D then
        (case s of
           d # r \<Rightarrow> if d = CHR 0x0A then CHR '' '' # normalize_newlines r else CHR '' '' # normalize_newlines s
         | [] \<Rightarrow> [CHR '' ''])
      else if c = CHR 0x0A then CHR '' '' # normalize_newlines s
      else c # normalize_newlines s)"

definition truncateHubRelayPayloadText :: "string \<Rightarrow> bool \<Rightarrow> string \<times> bool" where
  "truncateHubRelayPayloadText v normalizeNewlines =
     (let v = (if normalizeNewlines then normalize_newlines v else v)
      in if int (rune_count v) \<le> hubRelayPayloadTextLimit then (v, False)
         else (RunePrefix v hubRelayPayloadTextLimit, True))"

definition inboxSummaryTitle :: "string \<Rightarrow> string" where
  "inboxSummaryTitle txt = RunePrefix txt inboxSummaryTitleRunes"

definition capInboxSummaryContent :: "string \<Rightarrow> int \<Rightarrow> string" where
  "capInboxSummaryContent content budget =
     (if int (rune_count content) \<le> budget then content
      else RunePrefix content (max 0 (budget - 1)) @ ellipsis)"

definition boundLaneEventPaneID :: "string \<Rightarrow> string" where
  "boundLaneEventPaneID pane =
     (if utf8PrefixWithin pane hubPaneIDLimit \<noteq> Some pane
         \<or> list_ex (\<lambda>c. c \<in> {CHR 0x00, CHR 0x0D, CHR 0x0A, CHR 0x09}) pane
      then [] else pane)"


section \<open>The cuts\<close>

lemma shrink_le: "shrink v n \<le> n"
  by (induction n) auto

lemma shrink_valid: "valid_utf8 (take (shrink v n) v)"
  by (induction n) auto

lemma shrink_longest: "shrink v n < k \<Longrightarrow> k \<le> n \<Longrightarrow> \<not> valid_utf8 (take k v)"
  by (induction n) (auto simp: le_Suc_eq split: if_splits)

text \<open>
  A cut that fits below its limit is total for a limit that is not negative, and it keeps valid
  text valid.
\<close>

lemma PrefixWithin_total: "0 \<le> limit \<Longrightarrow> \<exists>r. PrefixWithin v limit = Some r"
  by (simp add: PrefixWithin_def)

lemma PrefixWithin_bounds:
  assumes "PrefixWithin v limit = Some r"
  shows "int (length r) \<le> limit" "r = take (length r) v" "valid_utf8 v \<Longrightarrow> valid_utf8 r"
    "limit < int (length v) \<Longrightarrow> valid_utf8 r"
proof -
  have "length (take (shrink v (nat limit)) v) \<le> nat limit"
    using shrink_le [of v "nat limit"] by simp
  then show "int (length r) \<le> limit" "r = take (length r) v" "valid_utf8 v \<Longrightarrow> valid_utf8 r"
    "limit < int (length v) \<Longrightarrow> valid_utf8 r"
    using assms by (auto simp: PrefixWithin_def shrink_valid split: if_splits)
qed

text \<open>
  C40: \<open>PrefixWithin\<close> returns the text unchanged when it fits, and otherwise the longest
  valid UTF-8 prefix within the limit.
\<close>

theorem PrefixWithin_longest:
  assumes "0 \<le> limit"
  shows "\<exists>r. PrefixWithin v limit = Some r \<and> int (length r) \<le> limit \<and> r = take (length r) v
    \<and> (int (length v) \<le> limit \<longrightarrow> r = v)
    \<and> (limit < int (length v) \<longrightarrow> valid_utf8 r
        \<and> (\<forall>k. length r < k \<and> int k \<le> limit \<longrightarrow> \<not> valid_utf8 (take k v)))"
proof -
  obtain r where r: "PrefixWithin v limit = Some r" using PrefixWithin_total [OF assms] by blast
  have "\<not> valid_utf8 (take k v)" if "limit < int (length v)" "length r < k" "int k \<le> limit" for k
  proof (rule shrink_longest)
    have "shrink v (nat limit) \<le> length v"
      using shrink_le [of v "nat limit"] that(1) by linarith
    then have "length r = shrink v (nat limit)"
      using r that(1) assms by (auto simp: PrefixWithin_def)
    then show "shrink v (nat limit) < k" using that(2) by simp
    show "k \<le> nat limit" using that(3) by linarith
  qed
  then show ?thesis using r PrefixWithin_bounds [OF r] by (auto simp: PrefixWithin_def)
qed

theorem PrefixWithin_longest_witness:
  "\<exists>r. PrefixWithin (ellipsis @ ''x'') 2 = Some r \<and> valid_utf8 r \<and> length r < 3"
proof -
  have len: "int (length (ellipsis @ ''x'')) = 4" by code_simp
  show ?thesis using PrefixWithin_longest [of 2 "ellipsis @ ''x''"] len by auto
qed

text \<open>The tail cut starts at the first rune start from where the limit allows.\<close>

lemma runeStartFrom_bounds:
  "start \<le> length v \<Longrightarrow> start \<le> runeStartFrom v start \<and> runeStartFrom v start \<le> length v
    \<and> (runeStartFrom v start < length v \<longrightarrow> rune_start (v ! runeStartFrom v start))
    \<and> (\<forall>i. start \<le> i \<and> i < runeStartFrom v start \<longrightarrow> \<not> rune_start (v ! i))"
proof (induction v start rule: runeStartFrom.induct)
  case (1 v start)
  show ?case
  proof (cases "start < length v \<and> \<not> rune_start (v ! start)")
    case True
    then have eq: "runeStartFrom v start = runeStartFrom v (Suc start)"
      by (subst runeStartFrom.simps) simp
    have "\<not> rune_start (v ! i)" if "start \<le> i" "i < runeStartFrom v (Suc start)" for i
      using that True "1.IH" by (cases "i = start") auto
    then show ?thesis using True "1.IH" by (simp add: eq)
  next
    case False
    then show ?thesis using "1.prems" by (auto simp: runeStartFrom.simps [of v start])
  qed
qed

text \<open>Inside a well-formed sequence only continuation bytes follow the first.\<close>

lemma rune_len_cont: "0 < i \<Longrightarrow> i < rune_len s \<Longrightarrow> \<not> rune_start (s ! i)"
proof (cases s rule: up_to_four)
  case (5 a b c d r)
  assume "0 < i" "i < rune_len s"
  moreover from this have "i = 1 \<or> i = 2 \<or> i = 3" using rune_len_0_or [of s] by auto
  ultimately show ?thesis using 5
    by (auto simp: rune_len_def rune_start_def between_def split: if_splits)
qed (auto simp: rune_len_def rune_start_def between_def less_Suc_eq numeral_3_eq_3 numeral_2_eq_2
      split: if_splits)

lemma rune_len_start: "s \<noteq> [] \<Longrightarrow> \<not> rune_start (hd s) \<Longrightarrow> rune_len s = 0"
  by (cases s) (auto simp: rune_len_def rune_start_def between_def)

lemma valid_utf8_drop:
  "valid_utf8 s \<Longrightarrow> k < length s \<Longrightarrow> rune_start (s ! k) \<Longrightarrow> valid_utf8 (drop k s)"
proof (induction s arbitrary: k rule: valid_utf8.induct)
  case (1 s)
  then have n: "0 < rune_len s" "valid_utf8 (drop (rune_len s) s)" "s \<noteq> []"
    by (auto simp: valid_utf8.simps [of s] split: if_splits)
  show ?case
  proof (cases "k < rune_len s")
    case True
    then have "k = 0" using rune_len_cont [of k s] "1.prems"(3) by (cases k) auto
    then show ?thesis using "1.prems"(1) by simp
  next
    case False
    have "valid_utf8 (drop (k - rune_len s) (drop (rune_len s) s))"
      by (rule "1.IH") (use False n "1.prems" in \<open>auto simp: nth_drop\<close>)
    then show ?thesis using False by simp
  qed
qed

text \<open>
  C40: \<open>SuffixWithin\<close> always returns valid UTF-8 of at most \<open>limit\<close> bytes; of a valid text it is a
  suffix, the whole text when it fits, and no longer suffix within the limit is valid.
\<close>

lemma SuffixWithin_longest:
  "valid_utf8 (SuffixWithin v limit) \<and> int (length (SuffixWithin v limit)) \<le> max 0 limit
    \<and> (valid_utf8 v \<and> 0 < limit \<longrightarrow>
        (\<exists>k. SuffixWithin v limit = drop k v \<and> (int (length v) \<le> limit \<longrightarrow> k = 0)
           \<and> (\<forall>j<k. int (length v - j) \<le> limit \<longrightarrow> \<not> valid_utf8 (drop j v))))"
proof -
  let ?k = "if int (length v) > limit then runeStartFrom v (nat (int (length v) - limit)) else 0"
  have eq: "0 < limit \<Longrightarrow> SuffixWithin v limit = to_valid (drop ?k v)"
    by (simp add: SuffixWithin_def)
  have start: "limit < int (length v) \<Longrightarrow> 0 < limit \<Longrightarrow> nat (int (length v) - limit) \<le> length v" by linarith
  note rs = runeStartFrom_bounds [OF start]
  have len: "0 < limit \<Longrightarrow> int (length (drop ?k v)) \<le> limit" using rs by auto
  have sfx: "\<exists>k. SuffixWithin v limit = drop k v \<and> (int (length v) \<le> limit \<longrightarrow> k = 0)
           \<and> (\<forall>j<k. int (length v - j) \<le> limit \<longrightarrow> \<not> valid_utf8 (drop j v))" if v: "valid_utf8 v" "0 < limit"
  proof (intro exI [of _ ?k] conjI allI impI)
    have "valid_utf8 (drop ?k v)"
    proof (cases "limit < int (length v) \<and> ?k < length v")
      case True
      then have "rune_start (v ! ?k)" using rs v by (auto split: if_splits)
      then show ?thesis using True v by (intro valid_utf8_drop) auto
    next
      case False
      then show ?thesis using v by (auto split: if_splits)
    qed
    then show "SuffixWithin v limit = drop ?k v" using eq v by (simp add: to_valid_id)
    show "int (length v) \<le> limit \<Longrightarrow> ?k = 0" by simp
    fix j assume j: "j < ?k" "int (length v - j) \<le> limit"
    then have b: "limit < int (length v)" "nat (int (length v) - limit) \<le> j" "j < length v"
      using rs v by (auto split: if_splits)
    then have "\<not> rune_start (v ! j)" using rs v j by (auto split: if_splits)
    then have "rune_len (drop j v) = 0" using b by (intro rune_len_start) (auto simp: hd_drop_conv_nth)
    then show "\<not> valid_utf8 (drop j v)" using b by (subst valid_utf8.simps) simp
  qed
  show ?thesis
  proof (cases "0 < limit")
    case True
    then show ?thesis
      using eq valid_to_valid [of "drop ?k v"] length_to_valid [of "drop ?k v"] len sfx by auto
  next
    case False
    then show ?thesis by (simp add: SuffixWithin_def)
  qed
qed

section \<open>What goes on the wire\<close>

text \<open>
  With room for its marker, \<open>truncateLaneEventTextAtLimit\<close> never panics and its result fits;
  it reports a cut exactly when the text was too long, the cut text is valid UTF-8 and ends in the
  marker, and truncating the result again changes nothing: the record, the outbox key and the wire
  payload made from it agree.
\<close>

lemma truncateLaneEventTextAtLimit_fits:
  assumes "11 \<le> limit"
  shows "\<exists>r cut. truncateLaneEventTextAtLimit v limit = Some (r, cut)
    \<and> int (length r) \<le> limit \<and> (cut \<longleftrightarrow> limit < int (length v)) \<and> (\<not> cut \<longrightarrow> r = v)
    \<and> (cut \<longrightarrow> valid_utf8 r \<and> has_suffix r ''[truncated]'')
    \<and> truncateLaneEventTextAtLimit r limit = Some (r, False)"
proof (cases "int (length v) \<le> limit")
  case True
  then show ?thesis by (intro exI [of _ v] exI [of _ False]) (simp add: truncateLaneEventTextAtLimit_def)
next
  case False
  obtain p where p: "PrefixWithin v (limit - 11) = Some p"
    using PrefixWithin_total [of "limit - 11" v] assms by auto
  note b = PrefixWithin_bounds [OF p]
  have "valid_utf8 (p @ ''[truncated]'')"
  proof (rule valid_utf8_append)
    show "valid_utf8 p" by (rule b(4)) (use False in simp)
    show "valid_utf8 ''[truncated]''" by code_simp
  qed
  then show ?thesis using False p b(1)
    by (intro exI [of _ "p @ ''[truncated]''"] exI [of _ True])
      (simp add: truncateLaneEventTextAtLimit_def utf8PrefixWithin_def has_suffix_def)
qed

lemma list_all_take_runes: "list_all one_rune (take n (runes v))"
  using list_all_runes [of v] by (auto simp: list_all_iff dest: in_set_takeD)

lemma RunePrefix_count: "int (rune_count (RunePrefix v limit)) \<le> max 0 limit"
proof (cases "int (rune_count v) \<le> limit")
  case True
  then show ?thesis by (simp add: RunePrefix_def)
next
  case False
  then show ?thesis by (simp add: RunePrefix_def rune_count_concat list_all_take_runes)
qed

lemma valid_utf8_RunePrefix: "limit < int (rune_count v) \<Longrightarrow> valid_utf8 (RunePrefix v limit)"
  by (simp add: RunePrefix_def valid_concat_runes list_all_take_runes)

lemma concat_runes: "valid_utf8 v \<Longrightarrow> concat (runes v) = v"
proof (induction v rule: runes.induct)
  case (1 v)
  then show ?case by (subst runes.simps) (auto simp: valid_utf8.simps [of v] split: if_splits)
qed

text \<open>
  The relay record's text has at most 240 characters after \<open>truncateHubRelayPayloadText\<close>, cut
  text is valid UTF-8 and a prefix of a valid input, a cut is reported exactly when there was one,
  and the desk's summary line has at most its budget of characters, ellipsis included, for every
  budget of at least one.
\<close>

lemma relay_text_bounds:
  "(case truncateHubRelayPayloadText v nl of (r, c) \<Rightarrow>
      rune_count r \<le> 240
      \<and> (let u = if nl then normalize_newlines v else v in
           (c \<longleftrightarrow> 240 < rune_count u) \<and> (\<not> c \<longrightarrow> r = u)
           \<and> (c \<longrightarrow> valid_utf8 r) \<and> (valid_utf8 u \<longrightarrow> r = take (length r) u)))
   \<and> (1 \<le> budget \<longrightarrow> int (rune_count (capInboxSummaryContent v budget)) \<le> budget)"
proof -
  define u where u: "u = (if nl then normalize_newlines v else v)"
  have pre: "RunePrefix u 240 = take (length (RunePrefix u 240)) u" if "valid_utf8 u"
  proof -
    have "u = concat (take 240 (runes u)) @ concat (drop 240 (runes u))"
      by (simp flip: concat_append add: concat_runes [OF that])
    then have "concat (take 240 (runes u)) = take (length (concat (take 240 (runes u)))) u"
      by (metis append_eq_conv_conj)
    then show ?thesis by (simp add: RunePrefix_def)
  qed
  have cap: "int (rune_count (RunePrefix v (max 0 (budget - 1)) @ ellipsis)) \<le> budget"
    if "1 \<le> budget" "\<not> int (rune_count v) \<le> budget"
  proof -
    have "rune_count ellipsis = 1" by code_simp
    then show ?thesis using that by (simp add: RunePrefix_def runes_append list_all_take_runes)
  qed
  have "rune_count (RunePrefix u 240) \<le> 240" using RunePrefix_count [of u 240] by simp
  moreover have "240 < rune_count u \<Longrightarrow> valid_utf8 (RunePrefix u 240)"
    by (rule valid_utf8_RunePrefix) simp
  ultimately show ?thesis using pre cap
    by (auto simp: truncateHubRelayPayloadText_def hubRelayPayloadTextLimit_def capInboxSummaryContent_def
        Let_def u)
qed

end
