(* ===== verification/Go_Time.thy ===== *)
theory Go_Time
  imports Pw_Prelude
begin

text \<open>
  The times the ledger stores. A \<open>time.Time\<close> is its nanoseconds since the Unix epoch. \<open>iso\<close>
  and \<open>parseISO\<close> are the functions of \<open>src/internal/arbiter/store.go\<close>; the calendar below
  them is what \<open>time.Format\<close> and \<open>time.Parse\<close> compute for the layouts they use. Two facts
  carry the ledger's proofs: reading a printed time gives it back, and the printed texts are ordered
  as the times are, so SQL may compare them as text.
\<close>

type_synonym time = int \<comment> \<open>nanoseconds since 1970-01-01T00:00:00Z\<close>

definition second :: int where "second = 1000000000"
definition minute :: int where "minute = 60 * second"

text \<open>\<open>Time.Sub\<close>: a difference past a 64-bit duration is the largest or the smallest duration.\<close>

definition time_sub :: "time \<Rightarrow> time \<Rightarrow> int" where
  "time_sub a b = max min_int64 (min max_int64 (a - b))"

section \<open>The Gregorian calendar\<close>

text \<open>Days are counted from 0001-01-01.\<close>

definition is_leap :: "int \<Rightarrow> bool" where
  "is_leap y \<longleftrightarrow> y mod 4 = 0 \<and> (y mod 100 \<noteq> 0 \<or> y mod 400 = 0)"

definition days_before_year :: "int \<Rightarrow> int" where
  "days_before_year y = 365 * (y - 1) + (y - 1) div 4 - (y - 1) div 100 + (y - 1) div 400"

definition year_of :: "int \<Rightarrow> int" where
  "year_of d =
     (let n400 = d div 146097; d1 = d mod 146097;
          n100 = min 3 (d1 div 36524); d2 = d1 - 36524 * n100;
          n4 = d2 div 1461; d3 = d2 mod 1461;
          n1 = min 3 (d3 div 365)
      in 400 * n400 + 100 * n100 + 4 * n4 + n1 + 1)"

definition month_lengths :: "int \<Rightarrow> int list" where
  "month_lengths y = [31, if is_leap y then 29 else 28, 31, 30, 31, 30, 31, 31, 30, 31, 30, 31]"

text \<open>The month and the day of the month of a day of the year, both counted from one.\<close>

fun split_month :: "int \<Rightarrow> int \<Rightarrow> int list \<Rightarrow> int \<times> int" where
  "split_month m d [] = (m, d + 1)"
| "split_month m d (l # ls) = (if d < l then (m, d + 1) else split_month (m + 1) (d - l) ls)"

definition civil :: "int \<Rightarrow> int \<times> int \<times> int" where
  "civil d = (let y = year_of d; (m, dd) = split_month 1 (d - days_before_year y) (month_lengths y)
              in (y, m, dd))"

definition days_of :: "int \<Rightarrow> int \<Rightarrow> int \<Rightarrow> int" where
  "days_of y m d = days_before_year y + sum_list (take (nat (m - 1)) (month_lengths y)) + (d - 1)"

definition epoch_day :: int where "epoch_day = 719162"

definition day_of_time :: "time \<Rightarrow> int" where
  "day_of_time t = t div (86400 * second) + epoch_day"

definition second_of_day :: "time \<Rightarrow> int" where
  "second_of_day t = (t mod (86400 * second)) div second"


section \<open>Printing\<close>

text \<open>Go's \<open>appendInt\<close>: zero padded to a width, the sign before the padding.\<close>

definition pad_int :: "nat \<Rightarrow> int \<Rightarrow> string" where
  "pad_int w n =
     (let s = decimal (nat \<bar>n\<bar>) in (if n < 0 then ''-'' else []) @ replicate (w - length s) (CHR ''0'') @ s)"

definition iso :: "time \<Rightarrow> string" where
  "iso t =
     (let (y, m, d) = civil (day_of_time t); s = second_of_day t
      in pad_int 4 y @ ''-'' @ pad_int 2 m @ ''-'' @ pad_int 2 d @ ''T''
         @ pad_int 2 (s div 3600) @ '':'' @ pad_int 2 (s div 60 mod 60) @ '':'' @ pad_int 2 (s mod 60)
         @ ''+00:00'')"


section \<open>Parsing\<close>

text \<open>
  \<open>getnum\<close> of \<open>time/format.go\<close>: two digits, or one when the width is not fixed. \<open>expect\<close>
  skips one literal byte, \<open>skip_sep\<close> the separator of date and time (a blank of the layout
  takes any number of blanks).
\<close>

definition getnum :: "bool \<Rightarrow> string \<Rightarrow> (int \<times> string) option" where
  "getnum fixed_width s =
     (case s of
        [] \<Rightarrow> None
      | c # cs \<Rightarrow>
          if \<not> is_digit c then None
          else (case cs of
                  [] \<Rightarrow> if fixed_width then None else Some (int (digit_val c), cs)
                | e # es \<Rightarrow>
                    if is_digit e then Some (int (digit_val c) * 10 + int (digit_val e), es)
                    else if fixed_width then None else Some (int (digit_val c), cs)))"

definition getyear :: "string \<Rightarrow> (int \<times> string) option" where
  "getyear s = (if length s < 4 \<or> \<not> list_all is_digit (take 4 s) then None
                else Some (int (digits_val (take 4 s)), drop 4 s))"

definition expect :: "char \<Rightarrow> string \<Rightarrow> string option" where
  "expect c s = (case s of [] \<Rightarrow> None | x # xs \<Rightarrow> if x = c then Some xs else None)"

definition skip_sep :: "char \<Rightarrow> string \<Rightarrow> string option" where
  "skip_sep c s = (if c = CHR '' '' then (if s \<noteq> [] \<and> hd s \<noteq> CHR '' '' then None else Some (dropWhile (\<lambda>x. x = CHR '' '') s))
                   else expect c s)"

text \<open>An optional fraction of a second, kept to nine digits.\<close>

definition getfraction :: "string \<Rightarrow> int \<times> string" where
  "getfraction s =
     (case s of
        c # d # _ \<Rightarrow>
          if (c = CHR ''.'' \<or> c = CHR '','') \<and> is_digit d then
            (let ds = takeWhile is_digit (tl s); kept = take 9 ds
             in (int (digits_val kept) * 10 ^ (9 - length kept), drop (length ds) (tl s)))
          else (0, s)
      | _ \<Rightarrow> (0, s))"

text \<open>The zone of RFC 3339: \<^verbatim>\<open>Z\<close>, or a sign, hours up to 24 and minutes up to 60, in seconds.\<close>

definition getzone :: "string \<Rightarrow> (int \<times> string) option" where
  "getzone s =
     (if s \<noteq> [] \<and> hd s = CHR ''Z'' then Some (0, tl s)
      else if length s < 6 \<or> s ! 3 \<noteq> CHR '':'' then None
      else case (getnum True (take 2 (drop 1 s)), getnum True (take 2 (drop 4 s))) of
        (Some (h, _), Some (m, _)) \<Rightarrow>
          if h > 24 \<or> m > 60 then None
          else if hd s = CHR ''+'' then Some (h * 3600 + m * 60, drop 6 s)
          else if hd s = CHR ''-'' then Some (- (h * 3600 + m * 60), drop 6 s)
          else None
      | _ \<Rightarrow> None)"

definition in_range :: "int \<Rightarrow> int \<Rightarrow> int \<times> string \<Rightarrow> (int \<times> string) option" where
  "in_range lo hi p = (if lo \<le> fst p \<and> fst p \<le> hi then Some p else None)"

definition days_in :: "int \<Rightarrow> int \<Rightarrow> int" where
  "days_in y m = month_lengths y ! nat (m - 1)"

definition parse_date :: "string \<Rightarrow> ((int \<times> int \<times> int) \<times> string) option" where
  "parse_date v =
     Option.bind (getyear v) (\<lambda>(y, v). Option.bind (expect (CHR ''-'') v) (\<lambda>v.
     Option.bind (Option.bind (getnum True v) (in_range 1 12)) (\<lambda>(m, v).
     Option.bind (expect (CHR ''-'') v) (\<lambda>v.
     Option.bind (getnum True v) (\<lambda>(d, v). Some ((y, m, d), v))))))"

definition parse_clock :: "string \<Rightarrow> (int \<times> string) option" where
  "parse_clock v =
     Option.bind (Option.bind (getnum False v) (in_range 0 23)) (\<lambda>(h, v).
     Option.bind (expect (CHR '':'') v) (\<lambda>v.
     Option.bind (Option.bind (getnum True v) (in_range 0 59)) (\<lambda>(mi, v).
     Option.bind (expect (CHR '':'') v) (\<lambda>v.
     Option.bind (Option.bind (getnum True v) (in_range 0 59)) (\<lambda>(s, v).
     Some (h * 3600 + mi * 60 + s, v))))))"

definition parse_layout :: "char \<Rightarrow> bool \<Rightarrow> string \<Rightarrow> time option" where
  "parse_layout sep zoned v =
     Option.bind (parse_date v) (\<lambda>((y, m, d), v). Option.bind (skip_sep sep v) (\<lambda>v.
     Option.bind (parse_clock v) (\<lambda>(s, v).
     case getfraction v of (ns, v) \<Rightarrow>
     Option.bind (if zoned then getzone v else Some (0, v)) (\<lambda>(off, v).
     if v \<noteq> [] \<or> d < 1 \<or> days_in y m < d then None
     else Some (((days_of y m d - epoch_day) * 86400 + s - off) * second + ns)))))"

text \<open>
  \<open>parseISO\<close> tries its four layouts in order; the second and the fourth read the same texts,
  since a fraction after the seconds is taken whether or not the layout names one.
\<close>

definition parseISO :: "string \<Rightarrow> time option" where
  "parseISO v =
     (case parse_layout (CHR ''T'') True v of
        Some t \<Rightarrow> Some t
      | None \<Rightarrow> (case parse_layout (CHR ''T'') False v of
          Some t \<Rightarrow> Some t
        | None \<Rightarrow> (case parse_layout (CHR '' '') False v of
            Some t \<Rightarrow> Some t
          | None \<Rightarrow> parse_layout (CHR ''T'') False v)))"


section \<open>The calendar is a bijection that keeps the order\<close>

lemma div_step:
  fixes y k :: int
  assumes k: "0 < k"
  shows "y div k = (y - 1) div k + (if y mod k = 0 then 1 else 0)"
proof -
  have y: "y - 1 = (y mod k - 1) + y div k * k" by simp
  have r: "0 \<le> y mod k" "y mod k < k" using k by simp_all
  have q: "(y - 1) div k = y div k + (y mod k - 1) div k"
    using k by (subst y) (simp del: minus_mod_eq_mult_div)
  show ?thesis
  proof (cases "y mod k = 0")
    case True
    then show ?thesis using q k by (simp add: div_eq_minus1)
  next
    case False
    with r have "(y mod k - 1) div k = 0" by (simp add: div_pos_pos_trivial)
    then show ?thesis using False q by simp
  qed
qed

lemma days_before_next_year:
  "days_before_year (y + 1) = days_before_year y + (if is_leap y then 366 else 365)"
proof -
  have c: "y mod 400 mod 100 = y mod 100" "y mod 100 mod 4 = y mod 4"
    by (rule mod_mod_cancel, simp)+
  have m: "y mod 400 = 0 \<Longrightarrow> y mod 100 = 0" "y mod 100 = 0 \<Longrightarrow> y mod 4 = 0"
    by (metis c(1) mod_0, metis c(2) mod_0)
  have shift: "365 * y + a - b + c = 365 * (y - 1) + a' - b' + c' + 365 + (i - j + k)"
    if "a = a' + i" "b = b' + j" "c = c' + k" for a b c a' b' c' i j k :: int
    using that by simp
  have count: "n + 365 + ((if p then 1 else 0) - (if q then 1 else 0) + (if r then 1 else 0))
      = n + (if p \<and> (\<not> q \<or> r) then 366 else 365)" if "r \<Longrightarrow> q" "q \<Longrightarrow> p" for n :: int and p q r
    by (cases p; cases q; cases r) (use that in simp_all)
  have "days_before_year (y + 1) = 365 * y + y div 4 - y div 100 + y div 400"
    by (simp add: days_before_year_def)
  also have "\<dots> = days_before_year y + 365
      + ((if y mod 4 = 0 then 1 else 0) - (if y mod 100 = 0 then 1 else 0) + (if y mod 400 = 0 then 1 else 0))"
    unfolding days_before_year_def by (rule shift) (rule div_step, simp)+
  also have "\<dots> = days_before_year y + (if is_leap y then 366 else 365)"
    unfolding is_leap_def by (rule count) (fact m)+
  finally show ?thesis .
qed

lemma days_before_year_parts:
  assumes "0 \<le> b" "b \<le> 3" "0 \<le> c" "c \<le> 24" "0 \<le> e" "e \<le> 3"
  shows "days_before_year (400 * a + 100 * b + 4 * c + e + 1) = 146097 * a + 36524 * b + 1461 * c + 365 * e"
proof -
  let ?p = "400 * a + 100 * b + 4 * c + e"
  have "?p div 4 = 100 * a + 25 * b + c"
    by (rule int_div_pos_eq [where r = e]) (insert assms, simp_all)
  moreover have "?p div 100 = 4 * a + b"
    by (rule int_div_pos_eq [where r = "4 * c + e"]) (insert assms, simp_all)
  moreover have "?p div 400 = a"
    by (rule int_div_pos_eq [where r = "100 * b + 4 * c + e"]) (insert assms, simp_all)
  moreover have "?p + 1 - 1 = ?p" by simp
  ultimately show ?thesis by (simp only: days_before_year_def) simp
qed

text \<open>Division with remainder, stated without the division for the arithmetic that follows.\<close>

lemma div_parts: "0 < k \<Longrightarrow> \<exists>r. (n :: int) = k * (n div k) + r \<and> 0 \<le> r \<and> r < k \<and> n mod k = r"
  by (rule exI [of _ "n mod k"]) simp

lemma min_div_parts:
  assumes "0 < k" "0 \<le> (n :: int)" "n < 4 * k + m" "q = min 3 (n div k)" "0 \<le> m" "m \<le> k"
  shows "0 \<le> q" "q \<le> 3" "k * q \<le> n" "q < 3 \<Longrightarrow> n < k * q + k" "n < k * q + k + m"
proof -
  define p where p: "p = n div k"
  obtain r where r: "n = k * p + r" "0 \<le> r" "r < k" using div_parts [OF assms(1), of n, folded p] by blast
  have p0: "0 \<le> p" using assms(1,2) by (simp add: p pos_imp_zdiv_nonneg_iff)
  have q: "q = min 3 p" by (simp add: assms(4) p)
  have big: "3 \<le> p \<Longrightarrow> k * 3 \<le> k * p" using assms(1) by (simp add: mult_left_mono)
  show "0 \<le> q" "q \<le> 3" using p0 by (auto simp: q)
  show "k * q \<le> n"
  proof (cases "3 \<le> p")
    case True
    then have q3: "q = 3" by (simp add: q)
    show ?thesis unfolding q3 using big [OF True] r by linarith
  next
    case False
    then show ?thesis using r by (simp add: q)
  qed
  show "q < 3 \<Longrightarrow> n < k * q + k" using r by (auto simp: q min_def split: if_splits)
  show "n < k * q + k + m" using r assms(3,5) by (cases "p \<le> 3") (auto simp: q min_def)
qed

lemma year_of_bounds:
  "days_before_year (year_of d) \<le> d \<and> d < days_before_year (year_of d + 1)"
proof -
  define a d1 where a: "a = d div 146097" and d1: "d1 = d mod 146097"
  define b where b: "b = min 3 (d1 div 36524)"
  define d2 where d2: "d2 = d1 - 36524 * b"
  define c d3 where c: "c = d2 div 1461" and d3: "d3 = d2 mod 1461"
  define e where e: "e = min 3 (d3 div 365)"
  have y: "year_of d = 400 * a + 100 * b + 4 * c + e + 1"
    unfolding year_of_def Let_def a d1 b d2 c d3 e by (rule refl)
  have d: "d = 146097 * a + d1" and d1r: "0 \<le> d1" "d1 < 146097"
    by (simp_all add: a d1)
  note bp = min_div_parts [of 36524 d1 1 b, OF _ d1r(1) _ b]
  have br: "0 \<le> b" "b \<le> 3" and d2r: "0 \<le> d2" "b < 3 \<Longrightarrow> d2 < 36524" "d2 < 36525"
    using bp d1r(2) by (simp_all add: d2)
  have d2d: "d2 = 1461 * c + d3" and d3r: "0 \<le> d3" "d3 < 1461"
    by (simp_all add: c d3)
  have cr: "0 \<le> c" "c \<le> 24" using d2r d2d d3r by linarith+
  note ep = min_div_parts [of 365 d3 1 e, OF _ d3r(1) _ e]
  have er: "0 \<le> e" "e \<le> 3" "365 * e \<le> d3" "e < 3 \<Longrightarrow> d3 < 365 * e + 365"
    using ep d3r(2) by simp_all
  have lo: "days_before_year (year_of d) = 146097 * a + 36524 * b + 1461 * c + 365 * e"
    unfolding y by (rule days_before_year_parts) (use br cr er in simp_all)
  have split: "d = days_before_year (year_of d) + (d3 - 365 * e)"
    using d d2d d2 lo by linarith
  show ?thesis
  proof (cases "e = 3 \<and> d3 = 1460")
    case False
    then have "d3 - 365 * e < 365" using er d3r by (cases "e = 3") auto
    moreover have "days_before_year (year_of d + 1) \<ge> days_before_year (year_of d) + 365"
      by (simp add: days_before_next_year)
    ultimately show ?thesis using split er(3) by linarith
  next
    case True
    have "is_leap (year_of d)"
    proof (cases "c = 24")
      case True': True
      with True d2d d2r have "b = 3" using br by (cases "b < 3") auto
      with True True' have "year_of d = 400 * (a + 1)" by (simp add: y)
      then have "400 dvd year_of d" "4 dvd year_of d" by simp_all
      then show ?thesis by (simp add: is_leap_def)
    next
      case False
      with True have y4: "year_of d = 4 * (c + 1) + 100 * (4 * a + b)" by (simp add: y)
      have c4: "0 < 4 * (c + 1)" "4 * (c + 1) < 100" using cr False by auto
      have "year_of d mod 100 = 4 * (c + 1)"
        unfolding y4 using c4 by (simp only: mod_mult_self2 mod_pos_pos_trivial less_imp_le)
      moreover have "year_of d = 4 * (c + 1 + 25 * (4 * a + b))" using y4 by simp
      then have "4 dvd year_of d" by (metis dvd_triv_left)
      ultimately show ?thesis using c4 by (simp add: is_leap_def)
    qed
    then have "days_before_year (year_of d + 1) = days_before_year (year_of d) + 366"
      by (simp add: days_before_next_year)
    then show ?thesis using split True er(3) by linarith
  qed
qed

lemma days_before_year_mono: "y \<le> z \<Longrightarrow> days_before_year y \<le> days_before_year z"
  by (induction z rule: int_ge_induct) (auto simp: days_before_next_year split: if_splits)


lemma month_lengths_pos: "l \<in> set (month_lengths y) \<Longrightarrow> 0 < l"
  by (auto simp: month_lengths_def)

lemma sum_month_lengths: "sum_list (month_lengths y) = days_before_year (y + 1) - days_before_year y"
  by (simp add: month_lengths_def days_before_next_year)

text \<open>The month and day found are in the table and give the day of the year back.\<close>

lemma split_month_sound:
  assumes "0 \<le> d" "d < sum_list ls" "split_month m d ls = (m', dd)"
  shows "\<exists>k. m' = m + int k \<and> k < length ls \<and> 1 \<le> dd \<and> dd \<le> ls ! k \<and> d = sum_list (take k ls) + (dd - 1)"
  using assms
proof (induction ls arbitrary: m d)
  case Nil
  then show ?case by simp
next
  case (Cons l ls)
  show ?case
  proof (cases "d < l")
    case True
    with Cons.prems show ?thesis by (intro exI [of _ 0]) auto
  next
    case False
    with Cons.prems have "\<exists>k. m' = m + 1 + int k \<and> k < length ls \<and> 1 \<le> dd \<and> dd \<le> ls ! k
        \<and> d - l = sum_list (take k ls) + (dd - 1)"
      by (intro Cons.IH) auto
    then obtain k where "m' = m + 1 + int k" "k < length ls" "1 \<le> dd" "dd \<le> ls ! k"
      "d - l = sum_list (take k ls) + (dd - 1)" by blast
    then show ?thesis by (intro exI [of _ "Suc k"]) auto
  qed
qed

lemma civil_sound:
  assumes "civil n = (y, m, d)"
  shows "1 \<le> m" "m \<le> 12" "1 \<le> d" "d \<le> days_in y m" "days_of y m d = n" "y = year_of n"
proof -
  from assms have y: "y = year_of n"
    and sp: "split_month 1 (n - days_before_year y) (month_lengths y) = (m, d)"
    by (auto simp: civil_def Let_def split: prod.splits)
  have "0 \<le> n - days_before_year y" "n - days_before_year y < sum_list (month_lengths y)"
    using year_of_bounds [of n] by (auto simp: y sum_month_lengths)
  from split_month_sound [OF this sp] obtain k where k: "m = 1 + int k" "k < length (month_lengths y)"
    "1 \<le> d" "d \<le> month_lengths y ! k" "n - days_before_year y = sum_list (take k (month_lengths y)) + (d - 1)"
    by auto
  then show "1 \<le> m" "m \<le> 12" "1 \<le> d" "d \<le> days_in y m" "days_of y m d = n" "y = year_of n"
    using y by (auto simp: days_in_def days_of_def month_lengths_def)
qed

lemma days_in_le: "1 \<le> m \<Longrightarrow> m \<le> 12 \<Longrightarrow> days_in y m \<le> 31"
proof -
  assume "1 \<le> m" "m \<le> 12"
  then have "nat (m - 1) < length (month_lengths y)" by (simp add: month_lengths_def)
  then have "days_in y m \<in> set (month_lengths y)" by (simp add: days_in_def)
  then show ?thesis by (auto simp: month_lengths_def)
qed

lemma sum_take_mono:
  fixes ls :: "int list"
  assumes "\<And>l. l \<in> set ls \<Longrightarrow> 0 < l" "i \<le> j"
  shows "sum_list (take i ls) \<le> sum_list (take j ls)"
proof -
  have nonneg: "0 \<le> sum_list (take k (drop i ls))" for k
    by (rule sum_list_nonneg) (meson assms(1) in_set_dropD in_set_takeD less_imp_le)
  have "take j ls = take i ls @ take (j - i) (drop i ls)"
    using assms(2) by (metis le_add_diff_inverse take_add)
  then show ?thesis using nonneg [of "j - i"] by simp
qed

lemma civil_lex:
  assumes c: "civil n = (y, m, d)" and c': "civil n' = (y', m', d')"
    and lex: "y < y' \<or> (y = y' \<and> (m < m' \<or> (m = m' \<and> d < d')))"
  shows "n < n'"
proof -
  note s = civil_sound [OF c] and s' = civil_sound [OF c']
  consider "y < y'" | "y = y'" "m < m'" | "y = y'" "m = m'" "d < d'" using lex by blast
  then show ?thesis
  proof cases
    case 1
    then have "days_before_year (y + 1) \<le> days_before_year y'" by (simp add: days_before_year_mono)
    then show ?thesis using year_of_bounds [of n] year_of_bounds [of n'] s(6) s'(6) by simp
  next
    case 2
    let ?L = "month_lengths y"
    have k: "nat (m - 1) < length ?L" using s(1,2) by (simp add: month_lengths_def)
    have "sum_list (take (nat (m - 1)) ?L) + days_in y m = sum_list (take (Suc (nat (m - 1))) ?L)"
      using k by (simp add: take_Suc_conv_app_nth days_in_def)
    also have "\<dots> \<le> sum_list (take (nat (m' - 1)) ?L)"
      by (rule sum_take_mono) (use 2(2) s(1) month_lengths_pos in auto)
    finally show ?thesis using s(4,5) s'(3,5) 2(1) by (simp add: days_of_def)
  next
    case 3
    then show ?thesis using s(5) s'(5) by (simp add: days_of_def)
  qed
qed

lemma civil_less:
  assumes c: "civil n = (y, m, d)" and c': "civil n' = (y', m', d')"
  shows "(y < y' \<or> (y = y' \<and> (m < m' \<or> (m = m' \<and> d < d')))) \<longleftrightarrow> n < n'"
proof
  assume "n < n'"
  moreover have "(y, m, d) \<noteq> (y', m', d')"
  proof
    assume "(y, m, d) = (y', m', d')"
    then have "n = n'" using civil_sound(5) [OF c] civil_sound(5) [OF c'] by simp
    then show False using \<open>n < n'\<close> by simp
  qed
  moreover have "\<not> (y' < y \<or> (y' = y \<and> (m' < m \<or> (m' = m \<and> d' < d))))"
    using civil_lex [OF c' c] \<open>n < n'\<close> by auto
  ultimately show "y < y' \<or> (y = y' \<and> (m < m' \<or> (m = m' \<and> d < d')))" by auto
qed (rule civil_lex [OF c c'])

section \<open>Printed times\<close>

text \<open>The times whose year has four digits: what the ledger can print at a fixed width.\<close>

definition printable :: "time \<Rightarrow> bool" where
  "printable t \<longleftrightarrow> 0 \<le> year_of (day_of_time t) \<and> year_of (day_of_time t) \<le> 9999"

lemma digit_0: "digit 0 = CHR ''0''"
  by code_simp

lemma fixed_zero: "fixed w 0 = replicate w (CHR ''0'')"
  by (induction w) (simp_all add: replicate_append_same digit_0)

lemma pad_decimal: "n < 10 ^ w \<Longrightarrow> 0 < w \<Longrightarrow> replicate (w - length (decimal n)) (CHR ''0'') @ decimal n = fixed w n"
proof (induction w arbitrary: n)
  case 0
  then show ?case by simp
next
  case (Suc w)
  show ?case
  proof (cases "n < 10")
    case True
    then show ?thesis by (simp add: decimal.simps [of n] fixed_zero)
  next
    case False
    have "n div 10 < 10 ^ w" using Suc.prems by (simp add: less_mult_imp_div_less mult.commute)
    moreover have "0 < w" using Suc.prems False by (cases w) auto
    ultimately have "replicate (w - length (decimal (n div 10))) (CHR ''0'') @ decimal (n div 10) = fixed w (n div 10)"
      by (rule Suc.IH)
    then show ?thesis using False by (simp add: decimal.simps [of n] flip: append_assoc)
  qed
qed

lemma pad_int_fixed: "0 \<le> n \<Longrightarrow> n < 10 ^ w \<Longrightarrow> 0 < w \<Longrightarrow> pad_int w n = fixed w (nat n)"
  by (simp add: pad_int_def Let_def pad_decimal nat_less_iff)

lemma second_of_day_range: "0 \<le> second_of_day t" "second_of_day t < 86400"
proof -
  have "0 \<le> t mod (86400 * second)" "t mod (86400 * second) < 86400 * second"
    by (simp_all add: second_def)
  then show "0 \<le> second_of_day t" "second_of_day t < 86400"
    by (simp_all add: second_of_day_def second_def pos_imp_zdiv_nonneg_iff div_less_iff_less_mult)
qed

lemma seconds_split: "t div second = (day_of_time t - epoch_day) * 86400 + second_of_day t"
proof -
  have "t div second = (t div (86400 * second) * (86400 * second) + t mod (86400 * second)) div second"
    by (simp only: div_mult_mod_eq)
  also have "\<dots> = (t mod (86400 * second) + (t div (86400 * second) * 86400) * second) div second"
    by (simp only: mult.assoc add.commute)
  also have "\<dots> = t div (86400 * second) * 86400 + t mod (86400 * second) div second"
    by (subst div_mult_self1) (simp_all add: second_def)
  finally show ?thesis by (simp add: day_of_time_def second_of_day_def)
qed

text \<open>Hours, minutes and seconds compare as the second of the day does.\<close>

lemma clock_split:
  assumes "(0 :: int) \<le> s"
  shows "s = (s div 3600) * 3600 + (s div 60 mod 60) * 60 + s mod 60"
    "0 \<le> s div 60 mod 60" "s div 60 mod 60 < 60" "0 \<le> s mod 60" "s mod 60 < 60"
proof -
  have "s div 3600 = s div 60 div 60" by (simp add: zdiv_zmult2_eq [symmetric])
  moreover have "s = s div 60 * 60 + s mod 60" "s div 60 = s div 60 div 60 * 60 + s div 60 mod 60"
    by (simp_all only: div_mult_mod_eq)
  ultimately show "s = (s div 3600) * 3600 + (s div 60 mod 60) * 60 + s mod 60" by linarith
qed simp_all

lemma clock_less:
  assumes "(0 :: int) \<le> a" "0 \<le> b"
  shows "(a div 3600 < b div 3600 \<or> (a div 3600 = b div 3600 \<and> (a div 60 mod 60 < b div 60 mod 60
      \<or> (a div 60 mod 60 = b div 60 mod 60 \<and> a mod 60 < b mod 60)))) \<longleftrightarrow> a < b"
proof -
  define h m s where "h = a div 3600" "m = a div 60 mod 60" "s = a mod 60"
  define h' m' s' where "h' = b div 3600" "m' = b div 60 mod 60" "s' = b mod 60"
  note defs = \<open>h = _\<close> \<open>m = _\<close> \<open>s = _\<close> \<open>h' = _\<close> \<open>m' = _\<close> \<open>s' = _\<close>
  have a: "a = h * 3600 + m * 60 + s" "0 \<le> m" "m < 60" "0 \<le> s" "s < 60"
    using clock_split [OF assms(1), folded defs] by blast+
  have b: "b = h' * 3600 + m' * 60 + s'" "0 \<le> m'" "m' < 60" "0 \<le> s'" "s' < 60"
    using clock_split [OF assms(2), folded defs] by blast+
  have "(h < h' \<or> (h = h' \<and> (m < m' \<or> (m = m' \<and> s < s')))) \<longleftrightarrow> a < b"
    using a b by linarith
  then show ?thesis by (simp only: defs)
qed

lemma iso_fixed:
  assumes "printable t" "civil (day_of_time t) = (y, m, d)"
  shows "iso t = fixed 4 (nat y) @ ''-'' @ fixed 2 (nat m) @ ''-'' @ fixed 2 (nat d) @ ''T''
      @ fixed 2 (nat (second_of_day t div 3600)) @ '':'' @ fixed 2 (nat (second_of_day t div 60 mod 60))
      @ '':'' @ fixed 2 (nat (second_of_day t mod 60)) @ ''+00:00''"
    and "0 \<le> y" "y \<le> 9999"
proof -
  note c = civil_sound [OF assms(2)]
  show y: "0 \<le> y" "y \<le> 9999" using assms(1) c(6) by (simp_all add: printable_def)
  have d: "d \<le> 31" using c(4) days_in_le [OF c(1,2)] by (rule order_trans)
  have h: "0 \<le> second_of_day t div 3600" "second_of_day t div 3600 < 100"
    using second_of_day_range [of t] by (simp_all add: pos_imp_zdiv_nonneg_iff div_less_iff_less_mult)
  have m: "0 \<le> second_of_day t div 60 mod 60" "second_of_day t div 60 mod 60 < 100"
    and s: "0 \<le> second_of_day t mod 60" "second_of_day t mod 60 < 100"
    using clock_split(2-5) [OF second_of_day_range(1), of t] by linarith+
  have "pad_int 4 y = fixed 4 (nat y)" by (rule pad_int_fixed) (use y in simp_all)
  moreover have "pad_int 2 m = fixed 2 (nat m)" by (rule pad_int_fixed) (use c(1,2) in simp_all)
  moreover have "pad_int 2 d = fixed 2 (nat d)" by (rule pad_int_fixed) (use c(3) d in simp_all)
  moreover have "pad_int 2 (second_of_day t div 3600) = fixed 2 (nat (second_of_day t div 3600))"
    by (rule pad_int_fixed) (use h in simp_all)
  moreover have "pad_int 2 (second_of_day t div 60 mod 60) = fixed 2 (nat (second_of_day t div 60 mod 60))"
    by (rule pad_int_fixed) (use m in simp_all)
  moreover have "pad_int 2 (second_of_day t mod 60) = fixed 2 (nat (second_of_day t mod 60))"
    by (rule pad_int_fixed) (use s in simp_all)
  ultimately show "iso t = fixed 4 (nat y) @ ''-'' @ fixed 2 (nat m) @ ''-'' @ fixed 2 (nat d) @ ''T''
      @ fixed 2 (nat (second_of_day t div 3600)) @ '':'' @ fixed 2 (nat (second_of_day t div 60 mod 60))
      @ '':'' @ fixed 2 (nat (second_of_day t mod 60)) @ ''+00:00''"
    by (simp only: iso_def assms(2) Let_def prod.case)
qed

lemma fixed_less_int:
  assumes "0 \<le> a" "0 \<le> b" "a < 10 ^ w" "b < 10 ^ w"
  shows "fixed w (nat a) < fixed w (nat b) \<longleftrightarrow> a < b" "fixed w (nat a) = fixed w (nat b) \<longleftrightarrow> a = b"
proof -
  have "nat a < 10 ^ w" "nat b < 10 ^ w" using assms by (simp_all only: nat_less_iff of_nat_power of_nat_numeral)
  then show "fixed w (nat a) < fixed w (nat b) \<longleftrightarrow> a < b" "fixed w (nat a) = fixed w (nat b) \<longleftrightarrow> a = b"
    by (simp_all only: fixed_less fixed_inj nat_less_eq_zless [OF assms(1)] eq_nat_nat_iff [OF assms(1,2)])
qed

lemma civil_eq:
  assumes "civil n = (y, m, d)" "civil n' = (y', m', d')"
  shows "y = y' \<and> m = m' \<and> d = d' \<longleftrightarrow> n = n'"
proof
  assume "y = y' \<and> m = m' \<and> d = d'"
  then show "n = n'" unfolding civil_sound(5) [OF assms(1), symmetric] civil_sound(5) [OF assms(2), symmetric]
    by simp
qed (use assms in simp)

text \<open>Comparing two printed fields and what follows them.\<close>

lemma field_less:
  assumes "0 \<le> a" "0 \<le> b" "a < 10 ^ w" "b < 10 ^ w"
  shows "fixed w (nat a) @ [c] @ us < fixed w (nat b) @ [c] @ vs \<longleftrightarrow> a < b \<or> (a = b \<and> us < vs)"
  using assms by (simp add: less_append_same_length fixed_less_int)

lemma field_less_2_4:
  "0 \<le> a \<Longrightarrow> 0 \<le> b \<Longrightarrow> a < 100 \<Longrightarrow> b < 100 \<Longrightarrow>
    fixed 2 (nat a) @ [c] @ us < fixed 2 (nat b) @ [c] @ vs \<longleftrightarrow> a < b \<or> (a = b \<and> us < vs)"
  "0 \<le> a \<Longrightarrow> 0 \<le> b \<Longrightarrow> a < 10000 \<Longrightarrow> b < 10000 \<Longrightarrow>
    fixed 4 (nat a) @ [c] @ us < fixed 4 (nat b) @ [c] @ vs \<longleftrightarrow> a < b \<or> (a = b \<and> us < vs)"
  by (rule field_less; simp)+

lemma iso_less_iff:
  assumes "printable a" "printable b"
  shows "iso a < iso b \<longleftrightarrow> a div second < b div second"
proof -
  obtain y m d where c: "civil (day_of_time a) = (y, m, d)" by (cases "civil (day_of_time a)")
  obtain y' m' d' where c': "civil (day_of_time b) = (y', m', d')" by (cases "civil (day_of_time b)")
  note ia = iso_fixed [OF assms(1) c] and ib = iso_fixed [OF assms(2) c']
  note sa = civil_sound [OF c] and sb = civil_sound [OF c']
  have dr: "d \<le> 31" "d' \<le> 31"
    using sa(4) sb(4) days_in_le [OF sa(1,2), of y] days_in_le [OF sb(1,2), of y'] by linarith+
  let ?s = "second_of_day a" and ?s' = "second_of_day b"
  note ra = second_of_day_range [of a] and rb = second_of_day_range [of b]
  have ha: "0 \<le> ?s div 3600" "?s div 3600 < 100" "0 \<le> ?s' div 3600" "?s' div 3600 < 100"
    using ra rb by (simp_all add: pos_imp_zdiv_nonneg_iff div_less_iff_less_mult)
  note ma = clock_split(2-5) [OF ra(1)] and mb = clock_split(2-5) [OF rb(1)]
  have last: "fixed 2 (nat (?s mod 60)) @ z < fixed 2 (nat (?s' mod 60)) @ z \<longleftrightarrow> ?s mod 60 < ?s' mod 60" for z
    using ma mb by (simp add: less_append_same_length fixed_less_int)
  have r2: "0 \<le> y" "0 \<le> y'" "y < 10000" "y' < 10000" "0 \<le> m" "0 \<le> m'" "m < 100" "m' < 100"
    "0 \<le> d" "0 \<le> d'" "d < 100" "d' < 100"
    "0 \<le> ?s div 3600" "?s div 3600 < 100" "0 \<le> ?s' div 3600" "?s' div 3600 < 100"
    "0 \<le> ?s div 60 mod 60" "?s div 60 mod 60 < 100" "0 \<le> ?s' div 60 mod 60" "?s' div 60 mod 60 < 100"
    using ia(2,3) ib(2,3) sa(1-3) sb(1-3) dr ha ma mb by linarith+
  have "iso a < iso b \<longleftrightarrow>
      y < y' \<or> (y = y' \<and> (m < m' \<or> (m = m' \<and> (d < d' \<or> (d = d' \<and>
      (?s div 3600 < ?s' div 3600 \<or> (?s div 3600 = ?s' div 3600 \<and> (?s div 60 mod 60 < ?s' div 60 mod 60
      \<or> (?s div 60 mod 60 = ?s' div 60 mod 60 \<and> ?s mod 60 < ?s' mod 60)))))))))"
    unfolding ia(1) ib(1) by (simp only: field_less_2_4 last r2)
  also have "\<dots> \<longleftrightarrow> day_of_time a < day_of_time b \<or> (day_of_time a = day_of_time b \<and> ?s < ?s')"
    unfolding civil_less [OF c c', symmetric] civil_eq [OF c c', symmetric]
      clock_less [OF ra(1) rb(1), symmetric] by blast
  also have "\<dots> \<longleftrightarrow> a div second < b div second"
    unfolding seconds_split
    by (cases "day_of_time a" "day_of_time b" rule: linorder_cases) (use ra rb in simp_all)
  finally show ?thesis .
qed

text \<open>Reading a printed time.\<close>

lemma getnum_fixed [simp]: "n < 100 \<Longrightarrow> getnum b (fixed 2 n @ s) = Some (int n, s)"
proof -
  assume "n < 100"
  then have "n div 10 < 10" by simp
  moreover have "int (n div 10) * 10 + int (n mod 10) = int n"
    using arg_cong [OF div_mult_mod_eq [of n 10], of int] by (simp only: of_nat_add of_nat_mult of_nat_numeral)
  ultimately show ?thesis by (simp only: numeral_2_eq_2) (simp add: getnum_def)
qed

lemma getyear_fixed [simp]: "n < 10000 \<Longrightarrow> getyear (fixed 4 n @ s) = Some (int n, s)"
  by (simp add: getyear_def list_all_iff set_fixed_digits)

lemma expect_hit [simp]: "expect c (c # s) = Some s"
  by (simp add: expect_def)

lemma getzone_utc: "getzone ''+00:00'' = Some (0, [])"
  by code_simp

lemma getfraction_utc: "getfraction ''+00:00'' = (0, ''+00:00'')"
  by code_simp

lemma parse_clock_fixed:
  assumes "0 \<le> h" "h < 24" "0 \<le> mi" "mi < 60" "0 \<le> sec" "sec < 60"
  shows "parse_clock (fixed 2 (nat h) @ '':'' @ fixed 2 (nat mi) @ '':'' @ fixed 2 (nat sec) @ z)
    = Some (h * 3600 + mi * 60 + sec, z)"
  using assms by (simp add: parse_clock_def in_range_def)

lemma parse_date_fixed:
  assumes "0 \<le> y" "y \<le> 9999" "1 \<le> m" "m \<le> 12" "1 \<le> d" "d \<le> 31"
  shows "parse_date (fixed 4 (nat y) @ ''-'' @ fixed 2 (nat m) @ ''-'' @ fixed 2 (nat d) @ z) = Some ((y, m, d), z)"
  using assms by (simp add: parse_date_def in_range_def)

lemma parseISO_iso:
  assumes "printable t"
  shows "parseISO (iso t) = Some (t div second * second)"
proof -
  obtain y m d where c: "civil (day_of_time t) = (y, m, d)" by (cases "civil (day_of_time t)")
  note i = iso_fixed [OF assms c] and cs = civil_sound [OF c]
  let ?s = "second_of_day t"
  note r = second_of_day_range [of t]
  note k = clock_split [OF r(1)]
  have h: "0 \<le> ?s div 3600" "?s div 3600 < 24"
    using r by (simp_all add: pos_imp_zdiv_nonneg_iff div_less_iff_less_mult)
  have d31: "d \<le> 31" using cs(4) days_in_le [OF cs(1,2), of y] by linarith
  note date = parse_date_fixed [OF i(2,3) cs(1,2,3) d31] and clock = parse_clock_fixed [OF h k(2-5), folded k(1)]
  have sep: "skip_sep (CHR ''T'') (''T'' @ v) = Some v" for v
    by (simp add: skip_sep_def)
  have "parse_layout (CHR ''T'') True (iso t) = Some (((days_of y m d - epoch_day) * 86400 + ?s - 0) * second + 0)"
    unfolding parse_layout_def i(1) date using cs(3,4)
    by (simp only: bind.bind_lunit prod.case sep clock getfraction_utc getzone_utc if_True) simp
  then show ?thesis by (simp add: parseISO_def cs(5) seconds_split)
qed

end
