(* ===== verification/Arb_Store.thy ===== *)
theory Arb_Store
  imports Go_Time Utf8
begin

text \<open>
  The state of the local job ledger and the code every operation on it goes through:
  \<open>src/internal/arbiter/store.go\<close> (the database, transactions, fencing tokens) and
  \<open>src/internal/arbiter/events.go\<close> (events and their artifacts).

  The world an operation runs in is the state database (None while its file does not exist), the
  artifact files in each job's events directory, the readings of the clock, the random bytes and the
  outcomes of the external calls. Every call that can fail for a reason outside the ledger (a SQL
  statement, a file operation) takes the next element of \<open>faults\<close>: \<open>True\<close> means that it fails,
  and an exhausted list means that no further call does. A stored JSON text is the document it
  denotes, None for a text that is not JSON.
\<close>

section \<open>Data\<close>

datatype exit_code = ExitUsage | ExitDenied | ExitDuplicate | ExitFencing | ExitStorage | ExitNotFound

fun exit_status :: "exit_code \<Rightarrow> int" where
  "exit_status ExitUsage = 2"
| "exit_status ExitDenied = 3"
| "exit_status ExitDuplicate = 4"
| "exit_status ExitFencing = 5"
| "exit_status ExitStorage = 6"
| "exit_status ExitNotFound = 7"

text \<open>\<open>Error\<close>: the status and the fixed part of the message; the formatted values are left out.\<close>

datatype aerror = Error (Code: exit_code) (Msg: string)

datatype json =
    JNull
  | JBool bool
  | JNum int
  | JStr string
  | JArr "json list"
  | JObj "(string \<times> json) list"

record job_row =
  j_id :: string
  j_owner_lane :: string
  j_state :: string
  j_t_level :: string
  j_created_at :: string
  j_updated_at :: string

record quota_row =
  q_job :: string
  q_pool :: string
  q_profile :: string
  q_started_at :: string

record leaseRow =
  l_resource :: string
  l_kind :: string
  l_job :: string
  l_token :: string
  l_acquired :: string
  l_expires :: string

record history_row =
  h_lease :: leaseRow
  h_state :: string
  h_recorded_at :: string

record event_row =
  e_job :: string
  e_seq :: int
  e_kind :: string
  e_body :: "json option"
  e_created_at :: string

datatype sqlval = SqlInt int | SqlOther string
datatype meta_state = NoMetaTable | NoMetaRow | SchemaVersionIs sqlval

record db =
  meta :: meta_state
  token_seq :: int
  jobs :: "job_row list"
  quota_pool_records :: "quota_row list"
  leases :: "leaseRow list"
  lease_history :: "history_row list"
  events :: "event_row list"

record world =
  state_db :: "db option"
  inbox :: "string \<Rightarrow> (string \<times> json option) list"
  clock :: "time list"
  rands :: "nat list list"
  faults :: "bool list"

type_synonym 'a ledger = "(world, aerror, 'a) act"

text \<open>The unique indexes of the schema.\<close>

definition lease_key :: "leaseRow \<Rightarrow> string \<times> string" where
  "lease_key r = (l_resource r, l_kind r)"

definition quota_key :: "quota_row \<Rightarrow> string \<times> string" where
  "quota_key q = (q_job q, q_pool q)"

definition event_key :: "event_row \<Rightarrow> string \<times> int" where
  "event_key e = (e_job e, e_seq e)"

definition history_key :: "history_row \<Rightarrow> string \<times> string \<times> string \<times> string" where
  "history_key h = (l_resource (h_lease h), l_kind (h_lease h), l_token (h_lease h), h_state h)"

definition KindQuotaPool :: string where "KindQuotaPool = ''quota_pool''"
definition KindPath :: string where "KindPath = ''path''"
definition KindLinearPermit :: string where "KindLinearPermit = ''linear_permit''"

definition exclusive_kind :: "string \<Rightarrow> bool" where
  "exclusive_kind k \<longleftrightarrow> k = KindPath \<or> k = KindLinearPermit"

definition DefaultTTL :: "string \<Rightarrow> int" where
  "DefaultTTL k = (if k = KindPath then 90 * minute else if k = KindLinearPermit then 30 * minute else 0)"

definition SchemaVersion :: int where "SchemaVersion = 2"


section \<open>External calls\<close>

definition errf :: "exit_code \<Rightarrow> string \<Rightarrow> aerror" where
  "errf code msg = Error code msg"

text \<open>The next external call fails?\<close>

definition fails :: "bool ledger" where
  "fails = (\<lambda>w. case faults w of [] \<Rightarrow> (Inr False, w) | b # bs \<Rightarrow> (Inr b, w\<lparr>faults := bs\<rparr>))"

definition call :: "aerror \<Rightarrow> unit ledger" where
  "call e = bindA fails (\<lambda>b. if b then throw e else ret ())"

definition sqlErr :: aerror where
  "sqlErr = errf ExitStorage ''sqlite error (fail-closed)''"

text \<open>The clock, read in UTC and truncated to the second; the last reading repeats.\<close>

definition store_now :: "time ledger" where
  "store_now = (\<lambda>w. case clock w of
       [] \<Rightarrow> (Inr 0, w)
     | [t] \<Rightarrow> (Inr (t div second * second), w)
     | t # ts \<Rightarrow> (Inr (t div second * second), w\<lparr>clock := ts\<rparr>))"

text \<open>\<open>rand.Read\<close> of eight bytes.\<close>

definition rand_read :: "nat list ledger" where
  "rand_read = (\<lambda>w. case rands w of [] \<Rightarrow> (Inr (replicate 8 0), w) | b # bs \<Rightarrow> (Inr b, w\<lparr>rands := bs\<rparr>))"


section \<open>The database\<close>

definition empty_db :: db where
  "empty_db = \<lparr>meta = NoMetaTable, token_seq = 0, jobs = [], quota_pool_records = [], leases = [],
     lease_history = [], events = []\<rparr>"

definition the_db :: "world \<Rightarrow> db" where
  "the_db w = (case state_db w of None \<Rightarrow> empty_db | Some d \<Rightarrow> d)"

definition upd_db :: "(db \<Rightarrow> db) \<Rightarrow> world \<Rightarrow> world" where
  "upd_db f w = w\<lparr>state_db := Some (f (the_db w))\<rparr>"

text \<open>One statement: \<open>query\<close> reads, \<open>exec\<close> writes.\<close>

definition query :: "(db \<Rightarrow> 'a) \<Rightarrow> 'a ledger" where
  "query f = thenA (call sqlErr) (getA (\<lambda>w. f (the_db w)))"

definition exec :: "(db \<Rightarrow> db) \<Rightarrow> unit ledger" where
  "exec f = thenA (call sqlErr) (modifyA (upd_db f))"

definition createSchema :: "unit ledger" where
  "createSchema =
     (let cannot = errf ExitStorage ''cannot initialise the state db''
      in thenA (call cannot) (thenA (call cannot)
         (bindA (getA the_db) (\<lambda>d.
            if meta d = NoMetaTable
            then thenA (call cannot) (thenA store_now (thenA (call cannot)
                   (modifyA (upd_db (\<lambda>d. d\<lparr>meta := SchemaVersionIs (SqlInt SchemaVersion), token_seq := 0\<rparr>)))))
            else call cannot))))"

definition checkSchema :: "unit ledger" where
  "checkSchema =
     (let mismatch = errf ExitStorage ''schema mismatch''
      in thenA (call mismatch) (bindA (getA the_db) (\<lambda>d.
           case meta d of
             NoMetaTable \<Rightarrow> throw mismatch
           | NoMetaRow \<Rightarrow> throw mismatch
           | SchemaVersionIs (SqlOther _) \<Rightarrow> throw mismatch
           | SchemaVersionIs (SqlInt v) \<Rightarrow> if v \<noteq> SchemaVersion then throw mismatch else ret ())))"

text \<open>
  \<open>rw\<close>: only a bootstrapping operation may create the database file, exclusively, so a file
  that appears meanwhile is kept.
\<close>

definition rw :: "bool \<Rightarrow> unit ledger" where
  "rw bootstrap =
     (let cannot_open = errf ExitStorage ''cannot open the state db''
      in bindA fails (\<lambda>stat_failed. bindA (getA state_db) (\<lambda>s.
         let fresh = (stat_failed \<or> s = None)
         in thenA
              (if \<not> fresh then ret ()
               else if \<not> bootstrap then throw (errf ExitStorage ''state db is missing'')
               else thenA (call (errf ExitStorage ''cannot create the state db directory''))
                 (thenA (call (errf ExitStorage ''cannot create the state db''))
                   (modifyA (\<lambda>w. case state_db w of None \<Rightarrow> w\<lparr>state_db := Some empty_db\<rparr> | Some _ \<Rightarrow> w))))
              (thenA (call cannot_open) (thenA (call cannot_open)
                (thenA (if fresh then createSchema else ret ()) checkSchema))))))"

text \<open>
  \<open>ro\<close>: the read-only handle, with the fallback to an immutable one when the write-ahead log is
  clean. Neither changes the database.
\<close>

definition ro :: "unit ledger" where
  "ro =
     bindA fails (\<lambda>stat_failed. bindA (getA state_db) (\<lambda>s.
       if stat_failed \<or> s = None then throw (errf ExitStorage ''state db is missing'')
       else bindA fails (\<lambda>first_failed.
         thenA
           (if \<not> first_failed then ret ()
            else bindA fails (\<lambda>not_clean.
              if not_clean then throw (errf ExitStorage ''state db is unreadable'')
              else call (errf ExitStorage ''state db is unreadable'')))
           checkSchema)))"

text \<open>
  \<open>write\<close>: \<^verbatim>\<open>BEGIN IMMEDIATE\<close>, the operation, \<^verbatim>\<open>COMMIT\<close>. An error of the operation or
  of the commit rolls the database back; the artifacts, which are outside it, stay.
\<close>

definition rollback :: "world \<Rightarrow> world \<Rightarrow> world" where
  "rollback w v = v\<lparr>state_db := state_db w\<rparr>"

definition run_tx :: "'a ledger \<Rightarrow> 'a ledger" where
  "run_tx fn = (\<lambda>w.
     case fn w of
       (Inl e, v) \<Rightarrow> (Inl e, rollback w v)
     | (Inr x, v) \<Rightarrow>
         (case call sqlErr v of
            (Inl e, u) \<Rightarrow> (Inl e, rollback w u)
          | (Inr _, u) \<Rightarrow> (Inr x, u)))"

definition db_write :: "'a ledger \<Rightarrow> 'a ledger" where
  "db_write fn = thenA (call sqlErr) (run_tx fn)"

text \<open>Each operation opens its own handle.\<close>

definition with_rw :: "bool \<Rightarrow> 'a ledger \<Rightarrow> 'a ledger" where
  "with_rw bootstrap m = thenA (rw bootstrap) m"


section \<open>Fencing tokens\<close>

definition hex_digit :: "nat \<Rightarrow> char" where
  "hex_digit n = (if n < 10 then char_of (48 + n) else char_of (87 + n))"

definition hex_bytes :: "nat list \<Rightarrow> string" where
  "hex_bytes bs = concat (map (\<lambda>b. [hex_digit (b div 16), hex_digit (b mod 16)]) bs)"

definition token_text :: "int \<Rightarrow> nat list \<Rightarrow> string" where
  "token_text seq b = itoa seq @ ''-'' @ hex_bytes b"

definition nextToken :: "string ledger" where
  "nextToken =
     thenA (exec (\<lambda>d. d\<lparr>token_seq := token_seq d + 1\<rparr>))
       (bindA (query token_seq) (\<lambda>seq.
          thenA (call sqlErr) (bindA rand_read (\<lambda>b. ret (token_text seq b)))))"

definition maskToken :: "string \<Rightarrow> string" where
  "maskToken token = cut_head (CHR ''-'') token @ ''-'' @ [char_of (226 :: nat), char_of (128 :: nat), char_of (166 :: nat)]"


section \<open>Events\<close>

text \<open>
  \<open>safeKind\<close> replaces each character outside the letters, digits, dot, underscore and hyphen: a
  whole rune, or one byte that starts none.
\<close>

definition safe_char :: "string \<Rightarrow> bool" where
  "safe_char r \<longleftrightarrow> (case r of
       [c] \<Rightarrow> between 65 90 c \<or> between 97 122 c \<or> between 48 57 c \<or> c = CHR ''.'' \<or> c = CHR ''_'' \<or> c = CHR ''-''
     | _ \<Rightarrow> False)"

definition safeKind :: "string \<Rightarrow> string" where
  "safeKind kind = concat (map (\<lambda>r. if safe_char r then r else ''_'') (runes kind))"

definition claimKinds :: "string list" where
  "claimKinds = [''job.claim'', ''job.claimed'', ''job.reclaim'']"

definition validJobID :: "string \<Rightarrow> bool" where
  "validJobID job \<longleftrightarrow> job \<noteq> [] \<and> CHR ''/'' \<notin> set job \<and> CHR 0x00 \<notin> set job \<and> hd job \<noteq> CHR ''.''"

definition pad5 :: "int \<Rightarrow> string" where
  "pad5 n = (let s = itoa n in if length s < 5 then replicate (5 - length s) (CHR ''0'') @ s else s)"

definition artifact_name :: "int \<Rightarrow> string \<Rightarrow> string" where
  "artifact_name seq kind = pad5 seq @ ''-'' @ safeKind kind @ ''.json''"

text \<open>\<open>highestPrefix\<close> over the names of a directory.\<close>

fun highest_prefix :: "int \<Rightarrow> string list \<Rightarrow> int" where
  "highest_prefix highest [] = highest"
| "highest_prefix highest (name # names) =
     (case atoi (cut_head (CHR ''-'') name) of
        Some n \<Rightarrow> highest_prefix (if n > highest then n else highest) names
      | None \<Rightarrow> highest_prefix highest names)"

definition highestPrefix :: "string \<Rightarrow> int ledger" where
  "highestPrefix job =
     bindA fails (\<lambda>unreadable. bindA (getA (\<lambda>w. map fst (inbox w job))) (\<lambda>names.
       ret (if unreadable then 0 else highest_prefix 0 names)))"

definition max_seq :: "string \<Rightarrow> db \<Rightarrow> int" where
  "max_seq job d =
     (case [e_seq e. e \<leftarrow> events d, e_job e = job] of [] \<Rightarrow> 0 | n # ns \<Rightarrow> fold max ns n)"

definition add_file :: "string \<Rightarrow> string \<Rightarrow> json option \<Rightarrow> world \<Rightarrow> world" where
  "add_file job name body w = w\<lparr>inbox := (inbox w)(job := inbox w job @ [(name, body)])\<rparr>"

definition file_exists :: "string \<Rightarrow> string \<Rightarrow> world \<Rightarrow> bool" where
  "file_exists job name w \<longleftrightarrow> name \<in> set (map fst (inbox w job))"

text \<open>
  \<open>writeArtifact\<close>: a temporary file linked into place, or, where links are unavailable, an
  exclusive create whose write can fail half way.
\<close>

definition writeArtifact :: "string \<Rightarrow> int \<Rightarrow> string \<Rightarrow> json \<Rightarrow> unit ledger" where
  "writeArtifact job seq kind body =
     (let final = artifact_name seq kind;
          exists = errf ExitDuplicate ''event artifact name already exists'';
          cannot = errf ExitStorage ''cannot submit the event artifact''
      in thenA (call cannot)
         (bindA (getA (file_exists job final)) (\<lambda>taken.
            if taken then throw exists
            else bindA fails (\<lambda>no_link.
              if \<not> no_link then modifyA (add_file job final (Some body))
              else bindA fails (\<lambda>no_create.
                if no_create then throw cannot
                else bindA fails (\<lambda>torn.
                  if torn then thenA (modifyA (add_file job final None)) (throw cannot)
                  else modifyA (add_file job final (Some body))))))))"

definition event_doc :: "string \<Rightarrow> int \<Rightarrow> string \<Rightarrow> json \<Rightarrow> string \<Rightarrow> json" where
  "event_doc job n kind payload created =
     JObj [(''created_at'', JStr created), (''job_id'', JStr job), (''kind'', JStr kind),
           (''payload'', payload), (''seq'', JNum n)]"

text \<open>
  \<open>recordEvent\<close>: numbered past the database and past every file of the directory unless the
  caller names a number, inserted, and submitted as an artifact, under the events lock.
\<close>

definition next_seq :: "string \<Rightarrow> int option \<Rightarrow> int ledger" where
  "next_seq job seq =
     (case seq of
        Some n \<Rightarrow> ret n
      | None \<Rightarrow>
          bindA (query (max_seq job)) (\<lambda>m. bindA (highestPrefix job) (\<lambda>h.
            ret (wrap64 ((if h > m then h else m) + 1)))))"

definition recordEvent :: "string \<Rightarrow> string \<Rightarrow> json \<Rightarrow> int option \<Rightarrow> int ledger" where
  "recordEvent job kind payload seq =
     thenA (call (errf ExitStorage ''cannot create the events directory''))
     (thenA (call (errf ExitStorage ''cannot open the events lock''))
     (thenA (call (errf ExitStorage ''cannot take the events lock''))
     (bindA (next_seq job seq) (\<lambda>n.
      bindA store_now (\<lambda>t.
        (let created = iso t; body = event_doc job n kind payload created;
             e = \<lparr>e_job = job, e_seq = n, e_kind = kind, e_body = Some body, e_created_at = created\<rparr>
         in thenA (call sqlErr)
            (bindA (getA (\<lambda>w. has_key event_key (job, n) (events (the_db w)))) (\<lambda>taken.
               if taken then throw (errf ExitDuplicate ''event duplicate'')
               else thenA (modifyA (upd_db (\<lambda>d. d\<lparr>events := events d @ [e]\<rparr>)))
                 (thenA (writeArtifact job n kind body) (ret n))))))))))"

text \<open>\<open>AppendEvent\<close>: claim events are refused, in their exact and in their file-name form.\<close>

definition AppendEvent :: "string \<Rightarrow> string \<Rightarrow> json option \<Rightarrow> int option \<Rightarrow> int ledger" where
  "AppendEvent job kind payload seq =
     (if \<not> validJobID job then throw (errf ExitUsage ''invalid job id'')
      else if kind \<in> set claimKinds \<or> has_suffix (safeKind kind) ''claim''
      then throw (errf ExitUsage ''event kind is refused'')
      else with_rw True (db_write (recordEvent job kind (case payload of None \<Rightarrow> JObj [] | Some p \<Rightarrow> p) seq)))"

text \<open>\<open>Events\<close>: a job's events in sequence order; an unreadable body fails the whole read.\<close>

definition obj_get :: "string \<Rightarrow> (string \<times> json) list \<Rightarrow> json option" where
  "obj_get k kvs = map_of (rev kvs) k"

definition body_payload :: "json \<Rightarrow> ((string \<times> json) list) option option" where
  "body_payload b =
     (case b of
        JObj kvs \<Rightarrow>
          (case obj_get ''payload'' kvs of
             None \<Rightarrow> Some None
           | Some JNull \<Rightarrow> Some None
           | Some (JObj p) \<Rightarrow> Some (Some p)
           | Some _ \<Rightarrow> None)
      | JNull \<Rightarrow> Some None
      | _ \<Rightarrow> None)"

definition job_events :: "string \<Rightarrow> db \<Rightarrow> event_row list" where
  "job_events job d = sort_key e_seq (filter (\<lambda>e. e_job e = job) (events d))"

fun decode_events :: "event_row list \<Rightarrow> aerror + (event_row \<times> (string \<times> json) list option) list" where
  "decode_events [] = Inr []"
| "decode_events (e # es) =
     (case Option.bind (e_body e) body_payload of
        None \<Rightarrow> Inl (errf ExitStorage ''event is unreadable'')
      | Some p \<Rightarrow> (case decode_events es of Inl err \<Rightarrow> Inl err | Inr ps \<Rightarrow> Inr ((e, p) # ps)))"

definition Events :: "string \<Rightarrow> (event_row \<times> (string \<times> json) list option) list ledger" where
  "Events job = thenA ro (bindA (query (job_events job)) (\<lambda>es. liftE (decode_events es)))"


section \<open>Reasoning about a successful run\<close>

text \<open>
  The outcomes of the external calls, the clock and the random bytes are inputs: a fact about a
  successful run is shown for all of them.
\<close>

definition call_ok :: "world \<Rightarrow> bool list \<Rightarrow> bool" where
  "call_ok w fs \<longleftrightarrow> (faults w = [] \<and> fs = []) \<or> faults w = False # fs"

definition fails_to :: "world \<Rightarrow> bool \<Rightarrow> bool list \<Rightarrow> bool" where
  "fails_to w b fs \<longleftrightarrow> (faults w = [] \<and> fs = [] \<and> \<not> b) \<or> faults w = b # fs"

definition reads_clock :: "world \<Rightarrow> time \<Rightarrow> time list \<Rightarrow> bool" where
  "reads_clock w t ts \<longleftrightarrow> (case store_now w of (Inr u, v) \<Rightarrow> t = u \<and> ts = clock v | _ \<Rightarrow> False)"

lemma wp_fails [wp_rules]: "wp fails Q w = (\<forall>b fs. fails_to w b fs \<longrightarrow> Q b (w\<lparr>faults := fs\<rparr>))"
  by (cases "faults w"; cases w) (auto simp: wp_def fails_def fails_to_def)

lemma wp_call [wp_rules]: "wp (call e) Q w = (\<forall>fs. call_ok w fs \<longrightarrow> Q () (w\<lparr>faults := fs\<rparr>))"
  by (cases "faults w"; cases w) (auto simp: wp_def call_def fails_def call_ok_def act_defs split: if_splits)

lemma store_now_result: "\<exists>t ts. store_now w = (Inr t, w\<lparr>clock := ts\<rparr>)"
  by (cases w) (auto simp: store_now_def split: list.splits)

lemma wp_store_now [wp_rules]: "wp store_now Q w = (\<forall>t ts. reads_clock w t ts \<longrightarrow> Q t (w\<lparr>clock := ts\<rparr>))"
  using store_now_result [of w] by (auto simp: wp_def reads_clock_def)

lemma wp_rand_read [wp_rules]:
  "wp rand_read Q w = (\<forall>b bs. rand_read w = (Inr b, w\<lparr>rands := bs\<rparr>) \<longrightarrow> Q b (w\<lparr>rands := bs\<rparr>))"
  by (cases "rands w"; cases w) (auto simp: wp_def rand_read_def)

lemma wp_query [wp_rules]: "wp (query f) Q w = (\<forall>fs. call_ok w fs \<longrightarrow> Q (f (the_db w)) (w\<lparr>faults := fs\<rparr>))"
  by (simp add: query_def wp_rules the_db_def)

lemma wp_exec [wp_rules]: "wp (exec f) Q w = (\<forall>fs. call_ok w fs \<longrightarrow> Q () (upd_db f (w\<lparr>faults := fs\<rparr>)))"
  by (simp add: exec_def wp_rules)

lemma the_db_simps [simp]:
  "the_db (w\<lparr>faults := fs\<rparr>) = the_db w" "the_db (w\<lparr>clock := ts\<rparr>) = the_db w"
  "the_db (w\<lparr>rands := bs\<rparr>) = the_db w" "the_db (w\<lparr>inbox := i\<rparr>) = the_db w"
  "the_db (upd_db f w) = f (the_db w)" "the_db (add_file j n b w) = the_db w"
  by (simp_all add: the_db_def upd_db_def add_file_def)

lemma upd_db_simps [simp]:
  "inbox (upd_db f w) = inbox w" "clock (upd_db f w) = clock w" "faults (upd_db f w) = faults w"
  "rands (upd_db f w) = rands w" "state_db (upd_db f w) = Some (f (the_db w))"
  by (simp_all add: upd_db_def)

lemma add_file_simps [simp]:
  "inbox (add_file j n b w) = (inbox w)(j := inbox w j @ [(n, b)])" "clock (add_file j n b w) = clock w"
  "faults (add_file j n b w) = faults w" "rands (add_file j n b w) = rands w"
  "state_db (add_file j n b w) = state_db w"
  by (simp_all add: add_file_def)

text \<open>
  A transaction: the operation's outcome when it and the commit succeed, and the database untouched
  by every failure.
\<close>

lemma wp_run_tx [wp_rules]:
  "wp (run_tx fn) Q w = wp fn (\<lambda>x v. \<forall>fs. call_ok v fs \<longrightarrow> Q x (v\<lparr>faults := fs\<rparr>)) w"
proof (cases "fn w")
  case (Pair r v)
  show ?thesis
  proof (cases r)
    case (Inl e)
    then show ?thesis using Pair by (simp add: wp_def run_tx_def)
  next
    case (Inr x)
    have "(\<forall>y u. call sqlErr v = (Inr y, u) \<longrightarrow> Q x u) = (\<forall>fs. call_ok v fs \<longrightarrow> Q x (v\<lparr>faults := fs\<rparr>))"
      using wp_call [of sqlErr "\<lambda>_. Q x" v] by (simp add: wp_def)
    then show ?thesis using Pair Inr
      by (cases "call sqlErr v"; cases "fst (call sqlErr v)") (auto simp: wp_def run_tx_def)
  qed
qed

lemma wp_db_write [wp_rules]:
  "wp (db_write fn) Q w =
    (\<forall>fs. call_ok w fs \<longrightarrow> wp fn (\<lambda>x v. \<forall>fs. call_ok v fs \<longrightarrow> Q x (v\<lparr>faults := fs\<rparr>)) (w\<lparr>faults := fs\<rparr>))"
  by (simp add: db_write_def wp_rules)

lemma call_keeps_db: "keeps state_db (call e)"
  by (auto simp: keeps_def call_def fails_def act_defs split: list.splits)

lemma fails_keeps_db: "keeps state_db fails"
  by (auto simp: keeps_def fails_def split: list.splits)

lemma db_write_atomic:
  assumes "db_write fn w = (Inl e, v)"
  shows "state_db v = state_db w"
proof (cases "call sqlErr w")
  case (Pair r u)
  have u: "state_db u = state_db w" using keepsD [OF call_keeps_db, of sqlErr w] Pair by simp
  show ?thesis
  proof (cases r)
    case (Inl e')
    then show ?thesis using assms Pair u by (simp add: db_write_def act_defs)
  next
    case (Inr x)
    then have "run_tx fn u = (Inl e, v)" using assms Pair by (simp add: db_write_def act_defs)
    then show ?thesis using u
      by (auto simp: run_tx_def rollback_def split: prod.splits sum.splits)
  qed
qed

text \<open>
  A clock that only moves forward, from a time on. An action may read it and leaves it so.
\<close>

definition mono_clock :: "time \<Rightarrow> world \<Rightarrow> bool" where
  "mono_clock t w \<longleftrightarrow> clock w \<noteq> [] \<and> sorted (clock w)
     \<and> (\<forall>c\<in>set (clock w). t \<le> c div second * second \<and> printable c)"

definition clock_ok :: "world \<Rightarrow> world \<Rightarrow> bool" where
  "clock_ok w v \<longleftrightarrow> (\<forall>t. mono_clock t w \<longrightarrow> mono_clock t v)"

lemma mono_clock_simps [simp]:
  "mono_clock t (w\<lparr>faults := fs\<rparr>) = mono_clock t w" "mono_clock t (w\<lparr>rands := bs\<rparr>) = mono_clock t w"
  "mono_clock t (w\<lparr>inbox := i\<rparr>) = mono_clock t w" "mono_clock t (w\<lparr>state_db := s\<rparr>) = mono_clock t w"
  "mono_clock t (upd_db f w) = mono_clock t w" "mono_clock t (add_file j n b w) = mono_clock t w"
  by (simp_all add: mono_clock_def)

lemma second_pos [simp]: "0 < second"
  by (simp add: second_def)

lemma day_of_time_trunc [simp]: "day_of_time (t div second * second) = day_of_time t"
proof -
  have "t div second * second div (second * 86400) = t div second div 86400"
    by (simp add: zdiv_zmult2_eq second_def)
  also have "\<dots> = t div (second * 86400)" by (simp add: zdiv_zmult2_eq)
  finally show ?thesis by (simp add: day_of_time_def mult.commute)
qed

lemma printable_trunc [simp]: "printable (t div second * second) = printable t"
  by (simp add: printable_def)

lemma trunc_mono: "c \<le> c' \<Longrightarrow> c div second * second \<le> c' div second * second"
  by (rule mult_right_mono) (simp_all add: zdiv_mono1 less_imp_le)

lemma mono_clock_read:
  assumes "mono_clock t w" "reads_clock w u ts"
  shows "t \<le> u" "printable u" "mono_clock u (w\<lparr>clock := ts\<rparr>)" "u div second * second = u"
proof -
  obtain c cs where c: "clock w = c # cs" using assms(1) by (auto simp: mono_clock_def neq_Nil_conv)
  then have u: "u = c div second * second" and ts: "ts = (if cs = [] then [c] else cs)"
    using assms(2) by (auto simp: reads_clock_def store_now_def split: list.splits)
  have s: "sorted cs" "\<forall>c'\<in>set cs. c \<le> c' \<and> printable c'" "t \<le> c div second * second" "printable c"
    using assms(1) c by (simp_all add: mono_clock_def)
  show "t \<le> u" "printable u" using s by (simp_all only: u printable_trunc)
  show "u div second * second = u" using second_pos by (simp add: u)
  show "mono_clock u (w\<lparr>clock := ts\<rparr>)"
    unfolding mono_clock_def using s trunc_mono by (simp add: ts u)
qed

lemma mono_clock_weaken: "mono_clock u w \<Longrightarrow> t \<le> u \<Longrightarrow> mono_clock t w"
  by (auto simp: mono_clock_def)

lemma clock_ok_refl [simp]: "clock_ok w w"
  by (simp add: clock_ok_def)

lemma mono_clock_after: "mono_clock t w \<Longrightarrow> reads_clock w u ts \<Longrightarrow> mono_clock t (w\<lparr>clock := ts\<rparr>)"
  by (rule mono_clock_weaken [OF mono_clock_read(3) mono_clock_read(1)])

lemma reads_clock_simps [simp]:
  "reads_clock (w\<lparr>faults := fs\<rparr>) u ts = reads_clock w u ts"
  "reads_clock (w\<lparr>rands := bs\<rparr>) u ts = reads_clock w u ts"
  "reads_clock (w\<lparr>inbox := i\<rparr>) u ts = reads_clock w u ts"
  "reads_clock (upd_db f w) u ts = reads_clock w u ts"
  "reads_clock (add_file j n b w) u ts = reads_clock w u ts"
  by (auto simp: reads_clock_def store_now_def split: list.splits)

text \<open>Opening for writing leaves the tables as they are, creating them when there are none.\<close>

definition boot :: "db \<Rightarrow> db" where
  "boot d = (if meta d = NoMetaTable
             then d\<lparr>meta := SchemaVersionIs (SqlInt SchemaVersion), token_seq := 0\<rparr> else d)"

definition schema_ok :: "db \<Rightarrow> bool" where
  "schema_ok d \<longleftrightarrow> meta d = SchemaVersionIs (SqlInt SchemaVersion)"

lemma boot_schema_ok: "schema_ok d \<Longrightarrow> boot d = d"
  by (simp add: boot_def schema_ok_def)

lemma wp_checkSchema [wp_rules]:
  "wp checkSchema Q w = (\<forall>fs. call_ok w fs \<longrightarrow> schema_ok (the_db w) \<longrightarrow> Q () (w\<lparr>faults := fs\<rparr>))"
  by (auto simp: checkSchema_def Let_def wp_rules schema_ok_def split: meta_state.splits sqlval.splits)

lemma createSchema_boot:
  "wp createSchema (\<lambda>_ v. the_db v = boot (the_db w) \<and> inbox v = inbox w \<and> rands v = rands w \<and> clock_ok w v) w"
  by (auto simp: createSchema_def Let_def wp_rules boot_def clock_ok_def intro: mono_clock_after)

lemma rw_spec:
  assumes "rw b w = (Inr x, v)"
  shows "the_db v = boot (the_db w)" "schema_ok (the_db v)" "inbox v = inbox w" "rands v = rands w"
    "clock_ok w v"
proof -
  have "wp (rw b) (\<lambda>_ v. the_db v = boot (the_db w) \<and> schema_ok (the_db v) \<and> inbox v = inbox w
      \<and> rands v = rands w \<and> clock_ok w v) w"
    by (auto simp: rw_def Let_def wp_rules the_db_def boot_schema_ok clock_ok_def split: option.splits
        intro!: wp_mono [OF createSchema_boot])
  from wpD [OF this assms] show "the_db v = boot (the_db w)" "schema_ok (the_db v)" "inbox v = inbox w"
    "rands v = rands w" "clock_ok w v" by auto
qed

section \<open>The contract of the event log\<close>

text \<open>
  What every recorded event leaves: one new row under a number no row of the job has, one new
  artifact under a name no file of the job has, and nothing else changed but the clock.
\<close>

definition event_entry :: "string \<Rightarrow> int \<Rightarrow> string \<Rightarrow> json \<Rightarrow> string \<Rightarrow> event_row" where
  "event_entry job n kind payload created =
     \<lparr>e_job = job, e_seq = n, e_kind = kind, e_body = Some (event_doc job n kind payload created),
      e_created_at = created\<rparr>"

definition event_added ::
  "string \<Rightarrow> string \<Rightarrow> json \<Rightarrow> int option \<Rightarrow> world \<Rightarrow> int \<Rightarrow> world \<Rightarrow> bool" where
  "event_added job kind payload seq w n v \<longleftrightarrow>
     (\<exists>t. the_db v = (the_db w)\<lparr>events := events (the_db w) @ [event_entry job n kind payload (iso t)]\<rparr>
        \<and> inbox v = (inbox w)(job := inbox w job @
             [(artifact_name n kind, Some (event_doc job n kind payload (iso t)))])
        \<and> (\<forall>s. mono_clock s w \<longrightarrow> s \<le> t \<and> printable t \<and> mono_clock t v))
     \<and> \<not> has_key event_key (job, n) (events (the_db w))
     \<and> \<not> file_exists job (artifact_name n kind) w
     \<and> rands v = rands w \<and> (\<forall>k. seq = Some k \<longrightarrow> n = k)"

lemma writeArtifact_spec:
  "wp (writeArtifact job n kind body)
     (\<lambda>_ v. \<not> file_exists job (artifact_name n kind) w
        \<and> (\<exists>fs. v = add_file job (artifact_name n kind) (Some body) (w\<lparr>faults := fs\<rparr>))) w"
  by (auto simp: writeArtifact_def Let_def wp_rules file_exists_def)

lemma next_seq_spec:
  "wp (next_seq job seq) (\<lambda>n v. (\<exists>fs. v = w\<lparr>faults := fs\<rparr>) \<and> (\<forall>k. seq = Some k \<longrightarrow> n = k)) w"
  by (cases seq; cases w) (auto simp: next_seq_def highestPrefix_def wp_rules)

lemma recordEvent_spec: "wp (recordEvent job kind payload seq) (event_added job kind payload seq w) w"
proof -
  have *: "wp (next_seq job seq) R v"
    if "\<And>n fs. (\<forall>k. seq = Some k \<longrightarrow> n = k) \<Longrightarrow> R n (v\<lparr>faults := fs\<rparr>)" for R v
    by (rule wp_mono [OF next_seq_spec]) (use that in auto)
  have **: "wp (writeArtifact job n kind body) R v"
    if "\<And>fs. \<not> file_exists job (artifact_name n kind) v
          \<Longrightarrow> R () (add_file job (artifact_name n kind) (Some body) (v\<lparr>faults := fs\<rparr>))" for R v n body
    by (rule wp_mono [OF writeArtifact_spec]) (use that in auto)
  show ?thesis
    by (auto simp: recordEvent_def Let_def wp_rules intro!: * **)
      (auto simp: event_added_def event_entry_def file_exists_def dest: mono_clock_read
        intro!: exI)
qed

lemma wp_recordEvent:
  "(\<And>n v. event_added job kind payload seq w n v \<Longrightarrow> Q n v) \<Longrightarrow> wp (recordEvent job kind payload seq) Q w"
  by (rule wp_mono [OF recordEvent_spec])

text \<open>Numbering: a number past the table and past the files of the directory is free in both.\<close>

lemma highest_prefix_ge: "h \<le> highest_prefix h names"
proof (induction names arbitrary: h)
  case (Cons name names)
  show ?case
    using Cons.IH [of h] Cons.IH order_trans
    by (auto split: option.splits) (smt (verit))
qed simp

lemma highest_prefix_upper:
  "name \<in> set names \<Longrightarrow> atoi (cut_head (CHR ''-'') name) = Some n \<Longrightarrow> n \<le> highest_prefix h names"
proof (induction names arbitrary: h)
  case (Cons x names)
  then show ?case
    using highest_prefix_ge [of n names] highest_prefix_ge [of h names]
    by (auto split: option.splits)
qed simp

lemma fold_max_upper: "(n :: int) \<le> fold max ns n" "x \<in> set ns \<Longrightarrow> x \<le> fold max ns n"
  by (simp_all add: Max.set_eq_fold [symmetric])

lemma max_seq_upper: "e \<in> set (events d) \<Longrightarrow> e_seq e \<le> max_seq (e_job e) d"
proof -
  assume "e \<in> set (events d)"
  then have e: "e_seq e \<in> set [e_seq x. x \<leftarrow> events d, e_job x = e_job e]" by auto
  then show ?thesis
    unfolding max_seq_def by (cases "[e_seq x. x \<leftarrow> events d, e_job x = e_job e]") (auto intro: fold_max_upper)
qed

lemma pad5_digits: "0 \<le> n \<Longrightarrow> pad5 n \<noteq> [] \<and> list_all is_digit (pad5 n) \<and> digits_val (pad5 n) = nat n"
  by (auto simp: pad5_def itoa_def Let_def list_all_iff is_digit_def dest: set_decimal_digits)

lemma artifact_name_prefix: "0 \<le> n \<Longrightarrow> cut_head (CHR ''-'') (artifact_name n kind) = pad5 n"
proof -
  assume "0 \<le> n"
  then have "CHR ''-'' \<notin> set (pad5 n)"
    using pad5_digits is_digit_not_sign by (auto simp: list_all_iff)
  then show ?thesis unfolding artifact_name_def using cut_head_append by simp
qed

lemma artifact_name_number:
  "0 \<le> n \<Longrightarrow> n \<le> max_int64 \<Longrightarrow> atoi (cut_head (CHR ''-'') (artifact_name n kind)) = Some n"
  using pad5_digits [of n] by (simp add: artifact_name_prefix atoi_digits)

definition free_seq :: "string \<Rightarrow> world \<Rightarrow> int" where
  "free_seq job w = max (highest_prefix 0 (map fst (inbox w job))) (max_seq job (the_db w)) + 1"

lemma free_seq_free:
  assumes "free_seq job w \<le> max_int64"
  shows "0 \<le> free_seq job w" "\<not> has_key event_key (job, free_seq job w) (events (the_db w))"
    "\<not> file_exists job (artifact_name (free_seq job w) kind) w"
proof -
  show pos: "0 \<le> free_seq job w"
    using highest_prefix_ge [of 0 "map fst (inbox w job)"] by (auto simp: free_seq_def)
  show "\<not> has_key event_key (job, free_seq job w) (events (the_db w))"
    using max_seq_upper [of _ "the_db w"] by (fastforce simp: has_key_iff event_key_def free_seq_def)
  show "\<not> file_exists job (artifact_name (free_seq job w) kind) w"
    using highest_prefix_upper [OF _ artifact_name_number [OF pos assms, of kind],
        of "map fst (inbox w job)" 0]
    unfolding file_exists_def free_seq_def by linarith
qed

lemma calls_succeed:
  "faults w = [] \<Longrightarrow> call e w = (Inr (), w)"
  "faults w = [] \<Longrightarrow> fails w = (Inr False, w)"
  "faults w = [] \<Longrightarrow> query f w = (Inr (f (the_db w)), w)"
  "faults w = [] \<Longrightarrow> exec g w = (Inr (), upd_db g w)"
  by (simp_all add: call_def fails_def query_def exec_def act_defs)

lemma recordEvent_free:
  assumes "faults w = []" "free_seq job w \<le> max_int64"
  shows "\<exists>v. recordEvent job kind payload None w = (Inr (free_seq job w), v) \<and> faults v = []"
proof -
  obtain t ts where t: "store_now w = (Inr t, w\<lparr>clock := ts\<rparr>)" using store_now_result by blast
  have n: "next_seq job None w = (Inr (free_seq job w), w)"
    using assms free_seq_free(1) [OF assms(2)]
    by (auto simp: next_seq_def highestPrefix_def calls_succeed act_defs free_seq_def max_def min_int64_def
        intro!: wrap64_id)
  show ?thesis
    using assms free_seq_free [OF assms(2)]
    by (simp add: recordEvent_def writeArtifact_def Let_def calls_succeed act_defs n t file_exists_def)
qed

text \<open>
  C39: an event recorded without a number, while no external call fails, is never refused as a
  duplicate: it gets a number past every event of the job and every file of its directory, and
  leaves one new row and one new artifact under it.
\<close>

theorem recordEvent_numbered_past_all:
  assumes "faults w = []" "free_seq job w \<le> max_int64"
  shows "\<exists>n v. recordEvent job kind payload None w = (Inr n, v)
     \<and> (\<forall>e\<in>set (events (the_db w)). e_job e = job \<longrightarrow> e_seq e < n)
     \<and> (\<forall>f\<in>set (map fst (inbox w job)). \<forall>m. atoi (cut_head (CHR ''-'') f) = Some m \<longrightarrow> m < n)
     \<and> event_added job kind payload None w n v"
proof -
  from recordEvent_free [OF assms] obtain v where v: "recordEvent job kind payload None w = (Inr (free_seq job w), v)"
    by blast
  have "e_seq e < free_seq job w" if "e \<in> set (events (the_db w))" "e_job e = job" for e
    using max_seq_upper [OF that(1)] that(2) by (simp add: free_seq_def)
  moreover have "m < free_seq job w" if "f \<in> set (map fst (inbox w job))" "atoi (cut_head (CHR ''-'') f) = Some m" for f m
    using highest_prefix_upper [OF that, of 0] by (simp add: free_seq_def)
  ultimately show ?thesis using v wpD [OF recordEvent_spec v] by blast
qed

definition sample_db :: db where
  "sample_db = empty_db\<lparr>meta := SchemaVersionIs (SqlInt 2),
     jobs := [\<lparr>j_id = ''job-a'', j_owner_lane = ''lane'', j_state = ''claimed'', j_t_level = ''T1'',
       j_created_at = ''2026-01-01T00:00:00+00:00'', j_updated_at = ''2026-01-01T00:00:00+00:00''\<rparr>],
     events := [event_entry ''job-a'' 1 ''job.claim'' (JObj [(''agent_label'', JStr ''job-a'')])
       ''2026-01-01T00:00:00+00:00'']\<rparr>"

definition sample_world :: world where
  "sample_world = \<lparr>state_db = Some sample_db,
     inbox = (\<lambda>j. if j = ''job-a'' then [(''00001-job.claim.json'', Some JNull), (''00007-note.json'', Some JNull)] else []),
     clock = [1798761600 * second], rands = [], faults = []\<rparr>"

lemmas eval_numbers = atoi_def Let_def in_int64_def max_int64_def min_int64_def digits_val_def digit_val_def
  is_digit_def cut_head_def

theorem recordEvent_numbered_past_all_witness:
  "\<exists>n v. recordEvent ''job-a'' ''note'' (JObj []) None sample_world = (Inr n, v) \<and> 7 < n"
proof -
  have "free_seq ''job-a'' sample_world \<le> max_int64" "faults sample_world = []"
    by (simp_all add: free_seq_def sample_world_def the_db_def sample_db_def empty_db_def max_seq_def
        event_entry_def eval_numbers)
  from recordEvent_numbered_past_all [OF this(2,1), of "''note''" "JObj []"] obtain n v
    where r: "recordEvent ''job-a'' ''note'' (JObj []) None sample_world = (Inr n, v)"
      and f: "\<forall>f\<in>set (map fst (inbox sample_world ''job-a'')). \<forall>m. atoi (cut_head (CHR ''-'') f) = Some m \<longrightarrow> m < n"
    by blast
  from f have "7 < n" by (simp add: sample_world_def eval_numbers)
  with r show ?thesis by blast
qed

section \<open>What every outcome keeps\<close>

text \<open>Whatever the outcome, the clock stays monotone; opening changes the database only to create it.\<close>

definition booted :: "world \<Rightarrow> world \<Rightarrow> bool" where
  "booted w v \<longleftrightarrow> the_db v = the_db w \<or> the_db v = boot (the_db w)"

lemma boot_boot [simp]: "boot (boot d) = boot d"
  by (simp add: boot_def)

interpretation clk: world_relation clock_ok
  by unfold_locales (auto simp: clock_ok_def)

interpretation bt: world_relation booted
  by unfold_locales (auto simp: booted_def)

lemma always_if: "(b \<Longrightarrow> always R m) \<Longrightarrow> (\<not> b \<Longrightarrow> always R n) \<Longrightarrow> always R (if b then m else n)"
  by simp

lemma always_option:
  "(x = None \<Longrightarrow> always R m) \<Longrightarrow> (\<And>y. x = Some y \<Longrightarrow> always R (n y)) \<Longrightarrow>
    always R (case x of None \<Rightarrow> m | Some y \<Rightarrow> n y)"
  by (cases x) auto

lemma fails_clock: "always clock_ok fails"
  by (auto simp: always_def fails_def clock_ok_def split: list.splits)

lemma store_now_clock: "always clock_ok store_now"
proof (rule alwaysI)
  fix w r v assume r: "store_now w = (r, v)"
  with store_now_result [of w] obtain t ts where "r = Inr t" "v = w\<lparr>clock := ts\<rparr>" by auto
  then have "reads_clock w t ts" using r by (simp add: reads_clock_def)
  then show "clock_ok w v" using \<open>v = _\<close> mono_clock_after by (auto simp: clock_ok_def)
qed

lemma rand_read_clock: "always clock_ok rand_read"
  by (auto simp: always_def rand_read_def clock_ok_def split: list.splits)

lemma modify_clock:
  "always clock_ok (modifyA (upd_db f))" "always clock_ok (modifyA (add_file j n b))"
  by (auto simp: clock_ok_def intro: always_modifyA)

lemma call_clock: "always clock_ok (call e)"
  unfolding call_def by (intro clk.always_rules fails_clock always_if)

lemma query_clock: "always clock_ok (query f)" and exec_clock: "always clock_ok (exec g)"
  unfolding query_def exec_def by (intro clk.always_rules call_clock modify_clock)+

lemmas clock_rules = clk.always_rules fails_clock store_now_clock rand_read_clock modify_clock call_clock
  query_clock exec_clock always_if always_option

lemma run_tx_clock: "always clock_ok m \<Longrightarrow> always clock_ok (run_tx m)"
proof (rule alwaysI)
  fix w r v assume m: "always clock_ok m" and r: "run_tx m w = (r, v)"
  obtain s u where s: "m w = (s, u)" by (cases "m w") auto
  obtain s' u' where s': "call sqlErr u = (s', u')" by (cases "call sqlErr u") auto
  have "clock_ok w u" "clock_ok u u'" using alwaysD [OF m s] alwaysD [OF call_clock s'] by auto
  then show "clock_ok w v"
    using r s s' by (auto simp: run_tx_def rollback_def clock_ok_def split: sum.splits)
qed

lemma db_write_clock: "always clock_ok m \<Longrightarrow> always clock_ok (db_write m)"
  unfolding db_write_def by (intro clock_rules run_tx_clock)

lemma recordEvent_clock: "always clock_ok (recordEvent job kind payload seq)"
  unfolding recordEvent_def next_seq_def highestPrefix_def writeArtifact_def Let_def
  by (intro clock_rules)

lemma nextToken_clock: "always clock_ok nextToken"
  unfolding nextToken_def by (intro clock_rules)

lemma always_meta:
  "always R m \<Longrightarrow> always R n \<Longrightarrow> (\<And>s. always R (p s)) \<Longrightarrow> (\<And>i. always R (q i)) \<Longrightarrow>
    always R (case x of NoMetaTable \<Rightarrow> m | NoMetaRow \<Rightarrow> n
      | SchemaVersionIs z \<Rightarrow> (case z of SqlOther s \<Rightarrow> p s | SqlInt i \<Rightarrow> q i))"
  by (auto split: meta_state.splits sqlval.splits)

lemma rw_clock: "always clock_ok (rw b)"
proof -
  have "always clock_ok (modifyA (\<lambda>w. case state_db w of None \<Rightarrow> w\<lparr>state_db := Some empty_db\<rparr> | Some _ \<Rightarrow> w))"
    by (auto simp: clock_ok_def intro!: always_modifyA split: option.splits)
  then show ?thesis
    unfolding rw_def createSchema_def checkSchema_def Let_def by (intro clock_rules always_meta)
qed

lemma call_booted: "always booted (call e)" and fails_booted: "always booted fails"
  and store_now_booted: "always booted store_now"
  by (auto simp: always_def booted_def call_def fails_def store_now_def act_defs split: list.splits)

lemma keeps_the_db: "keeps the_db (call e)" "keeps the_db fails" "keeps the_db store_now"
  by (auto simp: keeps_def call_def fails_def store_now_def act_defs split: list.splits)

lemma booted_thenA:
  assumes "keeps the_db m" "\<And>u. the_db u = the_db w \<Longrightarrow> booted u (snd (k u))"
  shows "booted w (snd (thenA m k w))"
proof -
  obtain s u where s: "m w = (s, u)" by (cases "m w") auto
  then have "the_db u = the_db w" using keepsD [OF assms(1), of w] by simp
  then show ?thesis using s assms(2) [of u] by (cases s) (auto simp: thenA_def bindA_def booted_def)
qed

lemma createSchema_booted: "always booted createSchema"
proof -
  have "booted w (snd (createSchema w))" for w
    unfolding createSchema_def Let_def
  proof (intro booted_thenA keeps_the_db)
    fix u v assume "the_db u = the_db w" "the_db v = the_db u"
    let ?f = "\<lambda>d. d\<lparr>meta := SchemaVersionIs (SqlInt SchemaVersion), token_seq := 0\<rparr>"
    let ?c = "call (errf ExitStorage ''cannot initialise the state db'')"
    have "booted v (snd (thenA ?c (thenA store_now (thenA ?c (modifyA (upd_db ?f)))) v))"
      if "meta (the_db v) = NoMetaTable"
      by (intro booted_thenA keeps_the_db) (use that in \<open>simp add: modifyA_def booted_def boot_def\<close>)
    then show "booted v (snd (bindA (getA the_db) (\<lambda>d. if meta d = NoMetaTable
        then thenA ?c (thenA store_now (thenA ?c (modifyA (upd_db ?f)))) else ?c) v))"
      using alwaysD [OF call_booted] by (auto simp: bindA_def getA_def) (metis prod.collapse)
  qed
  then show ?thesis by (simp add: always_def)
qed

lemma rw_booted: "always booted (rw b)"
proof -
  have "always booted (modifyA (\<lambda>w. case state_db w of None \<Rightarrow> w\<lparr>state_db := Some empty_db\<rparr> | Some _ \<Rightarrow> w))"
    by (auto simp: booted_def the_db_def intro!: always_modifyA split: option.splits)
  then show ?thesis
    unfolding rw_def checkSchema_def Let_def
    by (intro bt.always_rules call_booted fails_booted store_now_booted always_if always_meta createSchema_booted)
qed

end
