(* ===== verification/Arb_Lease.thy ===== *)
theory Arb_Lease
  imports Arb_Store "HOL-Library.Product_Lexorder"
begin

text \<open>
  Exclusive leases and quota-pool records: \<open>src/internal/arbiter/lease.go\<close>. An operation opens the
  database, reads the clock and runs one transaction. A lease is one row under its resource and kind
  with a fencing token; a quota-pool record is one row under its job and pool.
\<close>

section \<open>Leases\<close>

record LeaseReq =
  rq_Job :: string
  rq_Resource :: string
  rq_Kind :: string
  rq_TTL :: int
  rq_HasTTL :: bool

record Lease =
  gl_Job :: string
  gl_Resource :: string
  gl_Kind :: string
  gl_Token :: string
  gl_AcquiredAt :: string
  gl_ExpiresAt :: string
  gl_EventSeq :: int
  gl_Superseded :: string

definition getLease :: "string \<Rightarrow> string \<Rightarrow> leaseRow option ledger" where
  "getLease resource kind = query (\<lambda>d. sel lease_key (resource, kind) (leases d))"

definition requireJob :: "string \<Rightarrow> unit ledger" where
  "requireJob job =
     bindA (query (\<lambda>d. has_key j_id job (jobs d))) (\<lambda>found.
       if found then ret () else throw (errf ExitDenied ''job is not registered''))"

definition archive_db :: "history_row \<Rightarrow> db \<Rightarrow> db" where
  "archive_db h d = d\<lparr>lease_history := ins_ignore history_key h (lease_history d)\<rparr>"

definition archive :: "leaseRow \<Rightarrow> string \<Rightarrow> time \<Rightarrow> bool ledger" where
  "archive r state moment =
     (let h = \<lparr>h_lease = r, h_state = state, h_recorded_at = iso moment\<rparr>
      in thenA (call sqlErr) (bindA (getA (\<lambda>w. has_key history_key (history_key h) (lease_history (the_db w))))
           (\<lambda>known. thenA (modifyA (upd_db (archive_db h))) (ret (\<not> known)))))"

definition delete_lease :: "string \<Rightarrow> string \<Rightarrow> db \<Rightarrow> db" where
  "delete_lease resource kind d = d\<lparr>leases := del lease_key (resource, kind) (leases d)\<rparr>"

definition insert_lease :: "leaseRow \<Rightarrow> unit ledger" where
  "insert_lease r =
     thenA (call sqlErr) (bindA (getA (\<lambda>w. has_key lease_key (lease_key r) (leases (the_db w)))) (\<lambda>taken.
       if taken then throw sqlErr else modifyA (upd_db (\<lambda>d. d\<lparr>leases := leases d @ [r]\<rparr>))))"

text \<open>The \<^verbatim>\<open>UPDATE jobs\<close> statements: the state and the time of the update, or the time alone.\<close>

definition set_job_state :: "string \<Rightarrow> string \<Rightarrow> string \<Rightarrow> db \<Rightarrow> db" where
  "set_job_state job state at d =
     d\<lparr>jobs := upd (\<lambda>j. j_id j = job) (\<lambda>j. j\<lparr>j_state := state, j_updated_at := at\<rparr>) (jobs d)\<rparr>"

definition touch_job :: "string \<Rightarrow> string \<Rightarrow> db \<Rightarrow> db" where
  "touch_job job at d = d\<lparr>jobs := upd (\<lambda>j. j_id j = job) (\<lambda>j. j\<lparr>j_updated_at := at\<rparr>) (jobs d)\<rparr>"

definition opt_str :: "string \<Rightarrow> json" where
  "opt_str s = (if s = [] then JNull else JStr s)"

definition superseded_job :: "leaseRow option \<Rightarrow> string" where
  "superseded_job held = (case held of None \<Rightarrow> [] | Some r \<Rightarrow> l_job r)"

text \<open>What \<open>Acquire\<close> does with the row it finds: nothing, a refusal, or the old generation archived and removed.\<close>

definition supersede :: "leaseRow option \<Rightarrow> time \<Rightarrow> unit ledger" where
  "supersede held moment =
     (case held of
        None \<Rightarrow> ret ()
      | Some r \<Rightarrow>
          (case parseISO (l_expires r) of
             None \<Rightarrow> throw (errf ExitStorage ''stored time cannot be parsed'')
           | Some until \<Rightarrow>
               if moment < until then throw (errf ExitDenied ''lease held'')
               else thenA (archive r ''superseded'' moment)
                 (exec (delete_lease (l_resource r) (l_kind r)))))"

definition acquire_ttl :: "LeaseReq \<Rightarrow> int" where
  "acquire_ttl req = (if rq_HasTTL req then rq_TTL req else DefaultTTL (rq_Kind req))"

definition acquire_tx :: "LeaseReq \<Rightarrow> time \<Rightarrow> Lease ledger" where
  "acquire_tx req moment =
     (let expires = iso (moment + acquire_ttl req)
      in thenA (requireJob (rq_Job req))
        (bindA (getLease (rq_Resource req) (rq_Kind req)) (\<lambda>held.
         thenA (supersede held moment)
        (bindA nextToken (\<lambda>token.
         thenA (insert_lease \<lparr>l_resource = rq_Resource req, l_kind = rq_Kind req, l_job = rq_Job req,
                  l_token = token, l_acquired = iso moment, l_expires = expires\<rparr>)
        (thenA (exec (set_job_state (rq_Job req) ''leased'' (iso moment)))
        (bindA (recordEvent (rq_Job req) ''lease.acquire''
            (JObj [(''resource'', JStr (rq_Resource req)), (''kind'', JStr (rq_Kind req)),
                   (''resolved_from'', JStr ''resource''), (''token'', JStr (maskToken token)),
                   (''expires_at'', JStr expires), (''superseded'', opt_str (superseded_job held))]) None) (\<lambda>n.
         ret \<lparr>gl_Job = rq_Job req, gl_Resource = rq_Resource req, gl_Kind = rq_Kind req, gl_Token = token,
              gl_AcquiredAt = iso moment, gl_ExpiresAt = expires, gl_EventSeq = n,
              gl_Superseded = superseded_job held\<rparr>))))))))"

definition Acquire :: "LeaseReq \<Rightarrow> Lease ledger" where
  "Acquire req =
     (if \<not> exclusive_kind (rq_Kind req) then throw (errf ExitUsage ''kind is not an exclusive lease kind'')
      else if rq_Resource req = [] \<or> rq_TTL req < 0
      then throw (errf ExitUsage ''a lease needs a resource and a non-negative ttl'')
      else thenA (rw False) (bindA store_now (\<lambda>moment. db_write (acquire_tx req moment))))"

text \<open>\<open>settleJob\<close>: released once the job holds no record and no unexpired lease.\<close>

definition held_count :: "string \<Rightarrow> string \<Rightarrow> db \<Rightarrow> nat" where
  "held_count job at d =
     length (filter (\<lambda>q. q_job q = job) (quota_pool_records d))
     + length (filter (\<lambda>r. l_job r = job \<and> at < l_expires r) (leases d))"

definition settleJob :: "string \<Rightarrow> time \<Rightarrow> unit ledger" where
  "settleJob job moment =
     bindA (query (held_count job (iso moment))) (\<lambda>held.
       if held > 0 then exec (touch_job job (iso moment))
       else exec (set_job_state job ''released'' (iso moment)))"

definition release_tx :: "string \<Rightarrow> string \<Rightarrow> string \<Rightarrow> string \<Rightarrow> bool \<Rightarrow> time \<Rightarrow> unit ledger" where
  "release_tx job resource kind token force moment =
     bindA (getLease resource kind) (\<lambda>found.
       case found of
         None \<Rightarrow> throw (errf ExitFencing ''no lease to release'')
       | Some row \<Rightarrow>
           if \<not> force \<and> (l_job row \<noteq> job \<or> l_token row \<noteq> token)
           then throw (errf ExitFencing ''stale owner refused'')
           else thenA (archive row (if force then ''force-released'' else ''released'') moment)
             (thenA (exec (delete_lease (l_resource row) (l_kind row)))
             (thenA (settleJob (l_job row) moment)
             (thenA (recordEvent (l_job row) (if force then ''lease.release.force'' else ''lease.release'')
                (JObj [(''resource'', JStr (l_resource row)), (''kind'', JStr (l_kind row)),
                       (''token'', JStr (maskToken (l_token row))), (''forced'', JBool force)]) None)
              (ret ())))))"

definition Release :: "string \<Rightarrow> string \<Rightarrow> string \<Rightarrow> string \<Rightarrow> bool \<Rightarrow> unit ledger" where
  "Release job resource kind token force =
     (if \<not> exclusive_kind kind then throw (errf ExitUsage ''kind is not an exclusive lease kind'')
      else if \<not> force \<and> token = [] then throw (errf ExitUsage ''a normal lease release needs the token'')
      else thenA (rw False) (bindA store_now (\<lambda>moment. db_write (release_tx job resource kind token force moment))))"


section \<open>The quota gate\<close>

text \<open>
  The patterns \<^verbatim>\<open>\bkey=(\S+)\<close> of the gate, on bytes: an occurrence of \<^verbatim>\<open>key=\<close> that no word
  character precedes, and the longest run without white space after it, which is not empty.
  \<open>gate_values\<close> are the captures of all matches, left to right and not overlapping.
\<close>

definition word_char :: "char \<Rightarrow> bool" where
  "word_char c \<longleftrightarrow> between 48 57 c \<or> between 65 90 c \<or> between 97 122 c \<or> c = CHR ''_''"

definition space_char :: "char \<Rightarrow> bool" where
  "space_char c \<longleftrightarrow> (of_char c :: nat) \<in> {9, 10, 12, 13, 32}"

definition gate_run :: "string \<Rightarrow> string" where
  "gate_run s = takeWhile (\<lambda>c. \<not> space_char c) s"

function gate_values :: "string \<Rightarrow> bool \<Rightarrow> string \<Rightarrow> string list" where
  "gate_values key after_word s =
     (if s = [] then []
      else if \<not> after_word \<and> has_prefix s key \<and> gate_run (drop (length key) s) \<noteq> []
      then gate_run (drop (length key) s)
           # gate_values key (word_char (last (gate_run (drop (length key) s))))
               (drop (length key + length (gate_run (drop (length key) s))) s)
      else gate_values key (word_char (hd s)) (tl s))"
  by auto
termination by (relation "measure (\<lambda>(_, _, s). length s)") auto

declare gate_values.simps [simp del]

record Gate =
  g_Pool :: string
  g_Audit :: "(string \<times> string) list"

definition auditKeys :: "string list" where
  "auditKeys = [''escalation_override'', ''operator_request_ref'', ''requested_by'', ''ref_resolution'']"

fun gate_audit :: "string \<Rightarrow> string list \<Rightarrow> aerror + (string \<times> string) list" where
  "gate_audit output [] = Inr []"
| "gate_audit output (key # keys) =
     (let seen = remdups (gate_values (key @ ''='') False output)
      in if length seen > 1 then Inl (errf ExitStorage ''gate output has differing values'')
         else case gate_audit output keys of
                Inl e \<Rightarrow> Inl e
              | Inr rest \<Rightarrow> Inr (map (\<lambda>v. (key, v)) seen @ rest))"

definition first_value :: "string list \<Rightarrow> string option" where
  "first_value vs = (case vs of [] \<Rightarrow> None | v # _ \<Rightarrow> Some v)"

definition ParseGate :: "string \<Rightarrow> string \<Rightarrow> string \<Rightarrow> aerror + Gate" where
  "ParseGate profile output expectedPool =
     (let named = first_value (gate_values ''profile='' False output);
          printed = first_value (gate_values ''pool='' False output)
      in if named \<noteq> None \<and> named \<noteq> Some profile then Inl (errf ExitStorage ''gate output profile differs'')
         else if printed \<noteq> None \<and> expectedPool \<noteq> [] \<and> printed \<noteq> Some expectedPool
         then Inl (errf ExitStorage ''gate output pool differs from launch'')
         else let pool = (case printed of Some p \<Rightarrow> p | None \<Rightarrow> expectedPool)
              in if pool = [] then Inl (errf ExitStorage ''gate output names no pool'')
                 else case gate_audit output auditKeys of
                        Inl e \<Rightarrow> Inl e
                      | Inr audit \<Rightarrow> Inr \<lparr>g_Pool = pool, g_Audit = audit\<rparr>)"


section \<open>Quota-pool records\<close>

record QuotaRun =
  qr_Job :: string
  qr_Profile :: string
  qr_LaunchProfile :: string
  qr_Gate :: Gate

record QuotaResult =
  qs_Job :: string
  qs_Pool :: string
  qs_Profile :: string
  qs_StartedAt :: string
  qs_EventSeq :: int

definition insert_quota :: "quota_row \<Rightarrow> unit ledger" where
  "insert_quota q =
     thenA (call sqlErr) (bindA (getA (\<lambda>w. has_key quota_key (quota_key q) (quota_pool_records (the_db w)))) (\<lambda>taken.
       if taken then throw (errf ExitDuplicate ''quota_pool record duplicate'')
       else modifyA (upd_db (\<lambda>d. d\<lparr>quota_pool_records := quota_pool_records d @ [q]\<rparr>))))"

definition delete_quota :: "string \<Rightarrow> string \<Rightarrow> db \<Rightarrow> db" where
  "delete_quota job pool d = d\<lparr>quota_pool_records := del quota_key (job, pool) (quota_pool_records d)\<rparr>"

definition quota_payload :: "QuotaRun \<Rightarrow> string \<Rightarrow> json" where
  "quota_payload q started =
     JObj ([(''job_id'', JStr (qr_Job q)), (''pool'', JStr (g_Pool (qr_Gate q))),
            (''profile'', JStr (qr_Profile q)), (''started_at'', JStr started)]
       @ (if qr_LaunchProfile q = [] then [] else [(''launch_profile'', JStr (qr_LaunchProfile q))])
       @ map (\<lambda>(k, v). (k, JStr v)) (g_Audit (qr_Gate q)))"

definition record_quota_tx :: "QuotaRun \<Rightarrow> time \<Rightarrow> QuotaResult ledger" where
  "record_quota_tx q moment =
     (let pool = g_Pool (qr_Gate q); started = iso moment
      in thenA (requireJob (qr_Job q))
        (thenA (insert_quota \<lparr>q_job = qr_Job q, q_pool = pool, q_profile = qr_Profile q, q_started_at = started\<rparr>)
        (thenA (exec (set_job_state (qr_Job q) ''leased'' started))
        (bindA (recordEvent (qr_Job q) ''quota_pool.record'' (quota_payload q started) None) (\<lambda>n.
         ret \<lparr>qs_Job = qr_Job q, qs_Pool = pool, qs_Profile = qr_Profile q, qs_StartedAt = started, qs_EventSeq = n\<rparr>)))))"

definition RecordQuotaPool :: "QuotaRun \<Rightarrow> QuotaResult ledger" where
  "RecordQuotaPool q =
     (if g_Pool (qr_Gate q) = [] \<or> qr_Profile q = []
      then throw (errf ExitUsage ''a quota_pool record needs a profile and a resolved pool'')
      else thenA (rw False) (bindA store_now (\<lambda>moment. db_write (record_quota_tx q moment))))"

definition release_quota_tx :: "string \<Rightarrow> string \<Rightarrow> bool \<Rightarrow> time \<Rightarrow> unit ledger" where
  "release_quota_tx job pool force moment =
     bindA (query (\<lambda>d. sel quota_key (job, pool) (quota_pool_records d))) (\<lambda>found.
       case found of
         None \<Rightarrow> throw (errf ExitFencing ''no quota_pool record to release'')
       | Some q \<Rightarrow>
           thenA (exec (delete_quota job pool))
          (thenA (settleJob job moment)
          (thenA (recordEvent job (if force then ''quota_pool.release.force'' else ''quota_pool.release'')
             (JObj [(''job_id'', JStr job), (''pool'', JStr pool), (''profile'', JStr (q_profile q)),
                    (''started_at'', JStr (q_started_at q)), (''forced'', JBool force)]) None)
           (ret ()))))"

definition ReleaseQuotaPool :: "string \<Rightarrow> string \<Rightarrow> bool \<Rightarrow> unit ledger" where
  "ReleaseQuotaPool job pool force =
     thenA (rw False) (bindA store_now (\<lambda>moment. db_write (release_quota_tx job pool force moment)))"

end
