(* ===== verification/Arb_Jobs.thy ===== *)
theory Arb_Jobs
  imports Arb_Lease
begin

text \<open>
  Registration and reading of jobs: \<open>src/internal/arbiter/jobs.go\<close>. A claim is a row of the jobs
  table and an event that carries the exact label of the agent the job runs in; \<open>claimAgentLabel\<close>
  reads that label back. \<open>Status\<close> is the read-only view of the whole ledger.
\<close>

section \<open>Claims\<close>

record Claim =
  cl_Job :: string
  cl_Lane :: string
  cl_T :: string
  cl_Role :: string
  cl_ParentLane :: string
  cl_AgentLabel :: string
  cl_TaskID :: string
  cl_TaskLinkOverride :: string
  cl_TaskInheritedFrom :: string
  cl_ReclaimReleased :: bool

record ClaimResult =
  cr_Job :: string
  cr_OwnerLane :: string
  cr_TLevel :: string
  cr_State :: string
  cr_AgentLabel :: string
  cr_Role :: string
  cr_ParentLane :: string
  cr_CreatedAt :: string
  cr_UpdatedAt :: string
  cr_EventSeq :: int
  cr_Reclaimed :: bool
  cr_PreviousCreatedAt :: string

definition tLevels :: "string list" where
  "tLevels = [''T0'', ''T1'', ''T2'', ''T3'']"

definition isDigits :: "string \<Rightarrow> bool" where
  "isDigits s \<longleftrightarrow> s \<noteq> [] \<and> list_all is_digit s"

definition task_id_json :: "string \<Rightarrow> json" where
  "task_id_json s =
     (case (isDigits s, atoi s) of (True, Some n) \<Rightarrow> JNum n | _ \<Rightarrow> JStr s)"

definition claim_payload :: "Claim \<Rightarrow> string \<Rightarrow> (string \<times> json) list" where
  "claim_payload cl label =
     [(''owner_lane'', JStr (cl_Lane cl)), (''t_level'', JStr (cl_T cl)), (''role'', JStr (cl_Role cl)),
      (''agent_label'', JStr label), (''parent_lane'', opt_str (cl_ParentLane cl))]
     @ (if cl_TaskID cl = [] then [] else [(''task_id'', task_id_json (cl_TaskID cl))])
     @ (if cl_TaskLinkOverride cl = [] then [] else [(''task_link_override'', JStr (cl_TaskLinkOverride cl))])
     @ (if cl_TaskInheritedFrom cl = [] then [] else [(''task_inherited_from'', JStr (cl_TaskInheritedFrom cl))])"

text \<open>The checks before the database is opened: the role resolved, or the refusal.\<close>

definition claim_role :: "Claim \<Rightarrow> string" where
  "claim_role cl =
     (let role = (if cl_Role cl = [] then ''worker'' else cl_Role cl)
      in if role = ''captain'' then ''builder'' else role)"

definition check_claim :: "Claim \<Rightarrow> aerror + Claim" where
  "check_claim cl =
     (if \<not> validJobID (cl_Job cl) then Inl (errf ExitUsage ''invalid job id'')
      else let role = claim_role cl
           in if role \<noteq> ''worker'' \<and> role \<noteq> ''builder'' then Inl (errf ExitUsage ''unknown role'')
              else if role = ''builder'' \<and> cl_ParentLane cl = []
              then Inl (errf ExitUsage ''a builder claim needs a parent lane'')
              else if role \<noteq> ''builder'' \<and> cl_ParentLane cl \<noteq> []
              then Inl (errf ExitUsage ''a parent lane is for a builder claim only'')
              else if cl_Lane cl = [] \<or> cl_T cl \<notin> set tLevels
              then Inl (errf ExitUsage ''a claim needs a lane and a T level (T0..T3)'')
              else Inr (cl\<lparr>cl_Role := role\<rparr>))"

definition claim_label :: "Claim \<Rightarrow> string" where
  "claim_label cl = (if cl_AgentLabel cl = [] then cl_Job cl else cl_AgentLabel cl)"

definition insert_job :: "job_row \<Rightarrow> unit ledger" where
  "insert_job j =
     thenA (call sqlErr) (bindA (getA (\<lambda>w. has_key j_id (j_id j) (jobs (the_db w)))) (\<lambda>taken.
       if taken then throw sqlErr else modifyA (upd_db (\<lambda>d. d\<lparr>jobs := jobs d @ [j]\<rparr>))))"

definition reclaim_job :: "string \<Rightarrow> string \<Rightarrow> string \<Rightarrow> string \<Rightarrow> db \<Rightarrow> db" where
  "reclaim_job job lane level at d =
     d\<lparr>jobs := upd (\<lambda>j. j_id j = job)
        (\<lambda>j. j\<lparr>j_owner_lane := lane, j_state := ''claimed'', j_t_level := level, j_updated_at := at\<rparr>) (jobs d)\<rparr>"

definition claim_tx :: "Claim \<Rightarrow> time \<Rightarrow> ClaimResult ledger" where
  "claim_tx cl moment =
     (let label = claim_label cl; at = iso moment;
          res = \<lparr>cr_Job = cl_Job cl, cr_OwnerLane = cl_Lane cl, cr_TLevel = cl_T cl, cr_State = ''claimed'',
                 cr_AgentLabel = label, cr_Role = cl_Role cl, cr_ParentLane = cl_ParentLane cl,
                 cr_CreatedAt = at, cr_UpdatedAt = at, cr_EventSeq = 0, cr_Reclaimed = False,
                 cr_PreviousCreatedAt = []\<rparr>
      in bindA (query (\<lambda>d. sel j_id (cl_Job cl) (jobs d))) (\<lambda>found.
           case found of
             None \<Rightarrow>
               thenA (insert_job \<lparr>j_id = cl_Job cl, j_owner_lane = cl_Lane cl, j_state = ''claimed'',
                        j_t_level = cl_T cl, j_created_at = at, j_updated_at = at\<rparr>)
                 (bindA (recordEvent (cl_Job cl) ''job.claim'' (JObj (claim_payload cl label)) None) (\<lambda>n.
                   ret (res\<lparr>cr_EventSeq := n\<rparr>)))
           | Some j \<Rightarrow>
               if \<not> cl_ReclaimReleased cl \<or> j_state j \<noteq> ''released''
               then throw (errf ExitDuplicate ''job duplicate'')
               else thenA (exec (reclaim_job (cl_Job cl) (cl_Lane cl) (cl_T cl) at))
                 (bindA (recordEvent (cl_Job cl) ''job.reclaim''
                    (JObj (claim_payload cl label @ [(''previous_created_at'', JStr (j_created_at j)),
                       (''previous_owner_lane'', JStr (j_owner_lane j))])) None) (\<lambda>n.
                   ret (res\<lparr>cr_EventSeq := n, cr_Reclaimed := True, cr_CreatedAt := j_created_at j,
                         cr_PreviousCreatedAt := j_created_at j\<rparr>)))))"

definition Claim_op :: "Claim \<Rightarrow> ClaimResult ledger" where
  "Claim_op cl0 =
     bindA (liftE (check_claim cl0)) (\<lambda>cl.
       thenA (rw True) (bindA store_now (\<lambda>moment. db_write (claim_tx cl moment))))"

text \<open>\<open>ReleaseClaim\<close>: the rollback of a launch that failed before it held anything.\<close>

definition release_claim_tx :: "string \<Rightarrow> unit ledger" where
  "release_claim_tx job =
     bindA (query (\<lambda>d. sel j_id job (jobs d))) (\<lambda>found.
       case found of
         None \<Rightarrow> throw sqlErr
       | Some j \<Rightarrow>
           if j_state j \<noteq> ''claimed''
           then throw (errf ExitDenied ''only a resource-free claimed job can be released'')
           else bindA store_now (\<lambda>t.
             bindA (query (held_count job (iso t))) (\<lambda>held.
               if held \<noteq> 0 then throw (errf ExitDenied ''claim still holds resources'')
               else bindA store_now (\<lambda>moment.
                 thenA (settleJob job moment)
                (thenA (recordEvent job ''job.spawn_aborted'' (JObj [(''retryable'', JBool True)]) None)
                 (ret ()))))))"

definition ReleaseClaim :: "string \<Rightarrow> unit ledger" where
  "ReleaseClaim job = thenA (rw False) (db_write (release_claim_tx job))"


section \<open>Reading one job\<close>

text \<open>
  \<open>eventPayload\<close>: None for a body that is no JSON object, \<open>Some None\<close> for one whose payload is not
  an object.
\<close>

definition eventPayload :: "json option \<Rightarrow> (string \<times> json) list option option" where
  "eventPayload body =
     (case body of
        Some (JObj doc) \<Rightarrow> (case obj_get ''payload'' doc of Some (JObj p) \<Rightarrow> Some (Some p) | _ \<Rightarrow> Some None)
      | Some JNull \<Rightarrow> Some None
      | _ \<Rightarrow> None)"

fun receipt_fields :: "(string \<times> json) list \<Rightarrow> string list \<Rightarrow> aerror + (string \<times> string) list" where
  "receipt_fields p [] = Inr []"
| "receipt_fields p (k # ks) =
     (case obj_get k p of
        None \<Rightarrow> receipt_fields p ks
      | Some JNull \<Rightarrow> receipt_fields p ks
      | Some (JStr s) \<Rightarrow> (case receipt_fields p ks of Inl e \<Rightarrow> Inl e | Inr r \<Rightarrow> Inr ((k, s) # r))
      | Some _ \<Rightarrow> Inl (errf ExitStorage ''job.spawned event field is not a string''))"

definition receipt_of :: "event_row \<Rightarrow> aerror + (string \<times> string) list" where
  "receipt_of e =
     (case eventPayload (e_body e) of
        None \<Rightarrow> Inl (errf ExitStorage ''job.spawned event is unreadable'')
      | Some None \<Rightarrow> Inl (errf ExitStorage ''job.spawned event payload is not an object'')
      | Some (Some p) \<Rightarrow>
          (case obj_get ''pane_id'' p of
             Some (JStr pane) \<Rightarrow>
               if pane = [] then Inl (errf ExitStorage ''job.spawned event pane_id is invalid'')
               else (case receipt_fields p [''label'', ''profile'', ''workspace'', ''e6_arm''] of
                       Inl err \<Rightarrow> Inl err
                     | Inr r \<Rightarrow> Inr ((''pane_id'', pane) # (''spawned_at'', e_created_at e) # r))
           | _ \<Rightarrow> Inl (errf ExitStorage ''job.spawned event pane_id is invalid'')))"

definition newest :: "event_row list \<Rightarrow> event_row option" where
  "newest es = (case rev es of [] \<Rightarrow> None | e # _ \<Rightarrow> Some e)"

definition spawnReceipt :: "string \<Rightarrow> (string \<times> string) list option ledger" where
  "spawnReceipt job =
     bindA (query (\<lambda>d. newest (filter (\<lambda>e. e_kind e = ''job.spawned'') (job_events job d)))) (\<lambda>found.
       case found of
         None \<Rightarrow> ret None
       | Some e \<Rightarrow> liftE (case receipt_of e of Inl err \<Rightarrow> Inl err | Inr r \<Rightarrow> Inr (Some r)))"

definition claim_events :: "string \<Rightarrow> db \<Rightarrow> event_row list" where
  "claim_events job d =
     filter (\<lambda>e. e_kind e = ''job.claim'' \<or> e_kind e = ''job.reclaim'') (job_events job d)"

text \<open>The loop of \<open>claimAgentLabel\<close>: the latest label and the labels of the original claims.\<close>

fun claim_labels :: "event_row list \<Rightarrow> string \<Rightarrow> string list \<Rightarrow> aerror + (string \<times> string list)" where
  "claim_labels [] latest original = Inr (latest, original)"
| "claim_labels (e # es) latest original =
     (case eventPayload (e_body e) of
        None \<Rightarrow> Inl (errf ExitStorage ''job claim/reclaim event is unreadable'')
      | Some None \<Rightarrow> claim_labels es latest original
      | Some (Some p) \<Rightarrow>
          (case obj_get ''agent_label'' p of
             None \<Rightarrow> claim_labels es latest original
           | Some JNull \<Rightarrow> claim_labels es latest original
           | Some (JStr label) \<Rightarrow>
               if label = [] then Inl (errf ExitStorage ''job claim/reclaim event agent_label is invalid'')
               else claim_labels es label (if e_kind e = ''job.claim'' then List.insert label original else original)
           | Some _ \<Rightarrow> Inl (errf ExitStorage ''job claim/reclaim event agent_label is invalid'')))"

definition claimAgentLabel_of :: "event_row list \<Rightarrow> aerror + string" where
  "claimAgentLabel_of es =
     (case claim_labels es [] [] of
        Inl e \<Rightarrow> Inl e
      | Inr (latest, original) \<Rightarrow>
          if length original > 1 then Inl (errf ExitStorage ''job.claim agent_label is ambiguous'') else Inr latest)"

definition claimAgentLabel :: "string \<Rightarrow> string ledger" where
  "claimAgentLabel job = bindA (query (claim_events job)) (\<lambda>es. liftE (claimAgentLabel_of es))"

record JobView =
  jv_Row :: job_row
  jv_AgentLabel :: string
  jv_Receipt :: "(string \<times> string) list option"
  jv_RecentEventKinds :: "string list"

definition JobGet :: "string \<Rightarrow> JobView ledger" where
  "JobGet job =
     thenA ro (bindA (query (\<lambda>d. sel j_id job (jobs d))) (\<lambda>found.
       case found of
         None \<Rightarrow> throw (errf ExitNotFound ''job not found'')
       | Some j \<Rightarrow>
           bindA (query (\<lambda>d. rev (take 10 (rev (map e_kind (job_events job d)))))) (\<lambda>kinds.
           bindA (claimAgentLabel job) (\<lambda>label.
           bindA (spawnReceipt job) (\<lambda>receipt.
             ret \<lparr>jv_Row = j, jv_AgentLabel = label, jv_Receipt = receipt, jv_RecentEventKinds = kinds\<rparr>)))))"


section \<open>Status\<close>

record LeaseView =
  lv_Row :: leaseRow
  lv_Expired :: bool

record Status =
  st_Now :: string
  st_Jobs :: "job_row list"
  st_Leases :: "LeaseView list"
  st_Quota :: "quota_row list"
  st_History :: "history_row list"

definition mask_row :: "leaseRow \<Rightarrow> leaseRow" where
  "mask_row r = r\<lparr>l_token := maskToken (l_token r)\<rparr>"

fun view_leases :: "time \<Rightarrow> leaseRow list \<Rightarrow> aerror + LeaseView list" where
  "view_leases moment [] = Inr []"
| "view_leases moment (r # rs) =
     (case parseISO (l_expires r) of
        None \<Rightarrow> Inl (errf ExitStorage ''stored time cannot be parsed'')
      | Some exp \<Rightarrow>
          (case view_leases moment rs of
             Inl e \<Rightarrow> Inl e
           | Inr vs \<Rightarrow> Inr (\<lparr>lv_Row = mask_row r, lv_Expired = \<not> moment < exp\<rparr> # vs)))"

definition Status_op :: "string \<Rightarrow> string \<Rightarrow> Status ledger" where
  "Status_op job lane =
     (if job \<noteq> [] \<and> lane \<noteq> [] then throw (errf ExitUsage ''job and lane cannot be combined'')
      else thenA ro (bindA store_now (\<lambda>moment.
        let wanted = (\<lambda>j. if job \<noteq> [] then j_id j = job else if lane \<noteq> [] then j_owner_lane j = lane else True);
            scoped = (job \<noteq> [] \<or> lane \<noteq> [])
        in bindA (query (\<lambda>d. sort_key j_id (filter wanted (jobs d)))) (\<lambda>js.
           let shown = (\<lambda>id. \<not> scoped \<or> id \<in> set (map j_id js))
           in bindA (query (\<lambda>d. filter (\<lambda>r. shown (l_job r)) (sort_key lease_key (leases d)))) (\<lambda>rs.
              bindA (liftE (view_leases moment rs)) (\<lambda>ls.
              bindA (query (\<lambda>d. filter (\<lambda>q. shown (q_job q)) (sort_key quota_key (quota_pool_records d)))) (\<lambda>qs.
              bindA (query (\<lambda>d. map (\<lambda>h. h\<lparr>h_lease := mask_row (h_lease h)\<rparr>)
                       (filter (\<lambda>h. shown (l_job (h_lease h))) (lease_history d)))) (\<lambda>hs.
                ret \<lparr>st_Now = iso moment, st_Jobs = js, st_Leases = ls, st_Quota = qs, st_History = hs\<rparr>))))))))"

text \<open>\<open>QuotaPools\<close>: the pools a job holds; a ledger that does not exist yet holds none.\<close>

definition QuotaPools :: "string \<Rightarrow> string list ledger" where
  "QuotaPools job =
     bindA fails (\<lambda>stat_failed. bindA (getA state_db) (\<lambda>s.
       if \<not> stat_failed \<and> s = None then ret []
       else bindA (Status_op job []) (\<lambda>st. ret (map q_pool (st_Quota st)))))"

end
