(* ===== verification/Arb_Gc.thy ===== *)
theory Arb_Gc
  imports Arb_Jobs
begin

text \<open>
  Expiry of leases and retirement of jobs whose agent is gone: \<open>src/internal/arbiter/gc.go\<close>.
  \<open>GC\<close> and \<open>ReleaseOrphan\<close> take a snapshot of the job states, read the agent list from outside
  the ledger, and then run one write transaction. The agent source is a parameter: an action that may
  change the world arbitrarily, since other processes write to the ledger while it runs.
\<close>

section \<open>Agents and snapshots\<close>

definition OrphanStartupGrace :: int where
  "OrphanStartupGrace = 10 * minute"

record Agent =
  ag_Status :: string
  ag_JobID :: string
  ag_Name :: string
  ag_Label :: string

definition agentStatuses :: "string list" where
  "agentStatuses = [''idle'', ''working'', ''blocked'', ''done'', ''unknown'']"

record snapshot =
  sn_state :: string
  sn_claim :: "int option"

definition max_opt :: "int list \<Rightarrow> int option" where
  "max_opt ns = (case ns of [] \<Rightarrow> None | n # ms \<Rightarrow> Some (fold max ms n))"

definition jobSnapshot :: "string \<Rightarrow> snapshot option ledger" where
  "jobSnapshot job =
     bindA (query (\<lambda>d. sel j_id job (jobs d))) (\<lambda>found.
       case found of
         None \<Rightarrow> ret None
       | Some j \<Rightarrow>
           bindA (query (\<lambda>d. max_opt (map e_seq (filter (\<lambda>e. e_job e = job
               \<and> (e_kind e = ''job.claim'' \<or> e_kind e = ''job.reclaim'')) (events d))))) (\<lambda>claim.
             ret (Some \<lparr>sn_state = j_state j, sn_claim = claim\<rparr>)))"

definition sameSnapshot :: "snapshot option \<Rightarrow> snapshot option \<Rightarrow> bool" where
  "sameSnapshot before now \<longleftrightarrow> before \<noteq> None \<and> before = now"

type_synonym snapshots_map = "(string \<times> snapshot option) list"

definition snap_at :: "snapshots_map \<Rightarrow> string \<Rightarrow> snapshot option" where
  "snap_at snaps job = (case map_of snaps job of None \<Rightarrow> None | Some sn \<Rightarrow> sn)"

definition snapshots :: "string \<Rightarrow> snapshots_map ledger" where
  "snapshots job =
     thenA ro (bindA (if job = [] then query (\<lambda>d. map j_id (jobs d)) else ret [job]) (\<lambda>ids.
       foldA (\<lambda>out id. bindA (jobSnapshot id) (\<lambda>sn. ret (out @ [(id, sn)]))) [] ids))"

text \<open>\<open>orphanState\<close>: what a job still has in the ledger.\<close>

record orphanInfo =
  o_exists :: bool
  o_state :: string
  o_leases :: "string list"
  o_quotas :: "string list"
  o_eligible :: bool

definition orphan_leases :: "string \<Rightarrow> db \<Rightarrow> string list" where
  "orphan_leases job d =
     map (\<lambda>r. l_resource r @ ''/'' @ l_kind r) (sort_key lease_key (filter (\<lambda>r. l_job r = job) (leases d)))"

definition orphan_quotas :: "string \<Rightarrow> db \<Rightarrow> string list" where
  "orphan_quotas job d = sort (map q_pool (filter (\<lambda>q. q_job q = job) (quota_pool_records d)))"

definition orphanState :: "string \<Rightarrow> orphanInfo ledger" where
  "orphanState job =
     bindA (query (\<lambda>d. sel j_id job (jobs d))) (\<lambda>found.
     bindA (query (orphan_leases job)) (\<lambda>ls.
     bindA (query (orphan_quotas job)) (\<lambda>qs.
       let ex = (found \<noteq> None); st = (case found of None \<Rightarrow> [] | Some j \<Rightarrow> j_state j)
       in ret \<lparr>o_exists = ex, o_state = st, o_leases = ls, o_quotas = qs,
               o_eligible = (ex \<and> st = ''leased'' \<and> ls = [] \<and> qs = [])\<rparr>)))"

text \<open>\<open>startupBlocker\<close>: why a leased job looks too new to retire, or the empty text.\<close>

definition zero_time :: time where
  "zero_time = - 62135596800 * second"

definition latest_time :: "time list \<Rightarrow> time" where
  "latest_time ts = foldl (\<lambda>m t. if m < t then t else m) zero_time ts"

fun startup_times :: "event_row list \<Rightarrow> time list \<Rightarrow> time list \<Rightarrow> aerror + (time list \<times> time list)" where
  "startup_times [] claims spawns = Inr (claims, spawns)"
| "startup_times (e # es) claims spawns =
     (case parseISO (e_created_at e) of
        None \<Rightarrow> Inl (errf ExitStorage ''stored time cannot be parsed'')
      | Some t \<Rightarrow> if e_kind e = ''job.spawned'' then startup_times es claims (spawns @ [t])
                  else startup_times es (claims @ [t]) spawns)"

definition blocker_text :: "time \<Rightarrow> time list \<times> time list \<Rightarrow> string" where
  "blocker_text moment ts =
     (case ts of (claims, spawns) \<Rightarrow>
        if claims = [] then ''claim timestamp unavailable; retaining during startup grace''
        else if time_sub moment (latest_time claims) < OrphanStartupGrace
        then ''latest claim/reclaim is inside the 10-minute startup grace''
        else if spawns \<noteq> [] \<and> time_sub moment (latest_time spawns) < OrphanStartupGrace
        then ''latest spawn is inside the 10-minute startup grace''
        else [])"

definition startup_events :: "string \<Rightarrow> db \<Rightarrow> event_row list" where
  "startup_events job d =
     filter (\<lambda>e. e_job e = job \<and> e_kind e \<in> {''job.claim'', ''job.reclaim'', ''job.spawned''}) (events d)"

definition startupBlocker :: "string \<Rightarrow> time \<Rightarrow> string ledger" where
  "startupBlocker job moment =
     bindA (query (startup_events job)) (\<lambda>es.
     bindA (liftE (startup_times es [] [])) (\<lambda>ts. ret (blocker_text moment ts)))"

text \<open>\<open>matchedStatuses\<close>: the statuses of the agents under the exact persisted identity.\<close>

definition agent_matches :: "string \<Rightarrow> string \<Rightarrow> Agent \<Rightarrow> bool" where
  "agent_matches job label a \<longleftrightarrow>
     (label \<noteq> [] \<and> (ag_Name a = label \<or> ag_Label a = label)) \<or> (label = job \<and> ag_JobID a = job)"

definition matchedStatuses :: "Agent list \<Rightarrow> string \<Rightarrow> string \<Rightarrow> string list \<times> bool" where
  "matchedStatuses agents job label =
     (let ms = filter (agent_matches job label) agents
      in (sort (remdups (map ag_Status ms)), ms \<noteq> []))"

definition hasStatus :: "string list \<Rightarrow> string \<Rightarrow> bool" where
  "hasStatus statuses want = list_ex (\<lambda>s. s = want) statuses"

definition checkAgents :: "Agent list \<Rightarrow> aerror + unit" where
  "checkAgents agents =
     (if list_ex (\<lambda>a. ag_Status a \<notin> set agentStatuses) agents
      then Inl (errf ExitStorage ''herdr agent status is not understood'') else Inr ())"

definition orphanReason :: "bool \<Rightarrow> string list \<Rightarrow> string" where
  "orphanReason matched statuses =
     (if \<not> matched then ''job absent from herdr agent list'' else ''herdr agent status='' @ join '','' statuses)"


section \<open>The passes of \<open>GC\<close>\<close>

record Transition =
  tr_Resource :: string
  tr_Kind :: string
  tr_Job :: string
  tr_ExpiresAt :: string

record StaleQuota =
  sq_Row :: quota_row
  sq_AgentLabel :: string
  sq_HerdrStatus :: "string list"

record Orphan =
  or_Job :: string
  or_PriorState :: string
  or_AgentLabel :: string
  or_Reason :: string
  or_HerdrStatus :: "string list"
  or_EventSeq :: int

record GCResult =
  gc_Checked :: nat
  gc_Expired :: nat
  gc_Transitioned :: "Transition list"
  gc_StaleQuota :: "StaleQuota list"
  gc_OrphanReleased :: "Orphan list"
  gc_Skipped :: "(string \<times> string) list"
  gc_LiveAgents :: nat
  gc_HerdrAgents :: nat

text \<open>First pass: expired leases, kept in their table, get an audit row and an event the first time.\<close>

definition expire_lease :: "time \<Rightarrow> nat \<times> Transition list \<Rightarrow> leaseRow \<Rightarrow> (nat \<times> Transition list) ledger" where
  "expire_lease moment acc r =
     (case parseISO (l_expires r) of
        None \<Rightarrow> throw (errf ExitStorage ''stored time cannot be parsed'')
      | Some until \<Rightarrow>
          if moment < until then ret acc
          else bindA (archive r ''expired'' moment) (\<lambda>fresh.
            if fresh
            then thenA (recordEvent (l_job r) ''lease.expire''
                   (JObj [(''resource'', JStr (l_resource r)), (''kind'', JStr (l_kind r)),
                          (''expires_at'', JStr (l_expires r))]) None)
                   (ret (fst acc + 1, snd acc @ [\<lparr>tr_Resource = l_resource r, tr_Kind = l_kind r,
                          tr_Job = l_job r, tr_ExpiresAt = l_expires r\<rparr>]))
            else ret (fst acc + 1, snd acc)))"

definition exclusive_leases :: "db \<Rightarrow> leaseRow list" where
  "exclusive_leases d = filter (\<lambda>r. l_kind r = ''path'' \<or> l_kind r = ''linear_permit'') (leases d)"

text \<open>Second pass: what is known about each quota-backed and each row-less leased job.\<close>

record decision =
  dc_job :: string
  dc_label :: string
  dc_statuses :: "string list"
  dc_matched :: bool
  dc_quota :: "quota_row option"

record verdicts =
  vd_stale :: "decision list"
  vd_rowless :: "decision list"
  vd_unmapped :: "string list"
  vd_unknown :: "string list"
  vd_skipped :: "(string \<times> string) list"

definition no_verdicts :: verdicts where
  "no_verdicts = \<lparr>vd_stale = [], vd_rowless = [], vd_unmapped = [], vd_unknown = [], vd_skipped = []\<rparr>"

definition rowless_jobs :: "db \<Rightarrow> string list" where
  "rowless_jobs d =
     sort (map j_id (filter (\<lambda>j. j_state j = ''leased''
       \<and> \<not> list_ex (\<lambda>l. l_job l = j_id j) (leases d)
       \<and> \<not> list_ex (\<lambda>q. q_job q = j_id j) (quota_pool_records d)) (jobs d)))"

definition judge ::
  "Agent list \<Rightarrow> snapshots_map \<Rightarrow> time \<Rightarrow> verdicts \<Rightarrow> string \<times> quota_row option \<Rightarrow> verdicts ledger" where
  "judge agents snaps moment vs ck =
     (let job = fst ck
      in bindA (claimAgentLabel job) (\<lambda>label.
         if label = [] then ret (vs\<lparr>vd_unmapped := vd_unmapped vs @ [job]\<rparr>)
         else let statuses = fst (matchedStatuses agents job label);
                  matched = snd (matchedStatuses agents job label)
              in if hasStatus statuses ''unknown'' then ret (vs\<lparr>vd_unknown := vd_unknown vs @ [job]\<rparr>)
                 else if length statuses > 0 then ret vs
                 else bindA (jobSnapshot job) (\<lambda>cur.
                   if \<not> sameSnapshot (snap_at snaps job) cur
                   then ret (vs\<lparr>vd_skipped := vd_skipped vs
                          @ [(job, ''job state or claim sequence changed after Herdr snapshot'')]\<rparr>)
                   else bindA (startupBlocker job moment) (\<lambda>blocker.
                     if blocker \<noteq> [] then ret (vs\<lparr>vd_skipped := vd_skipped vs @ [(job, blocker)]\<rparr>)
                     else let d = \<lparr>dc_job = job, dc_label = label, dc_statuses = statuses,
                                   dc_matched = matched, dc_quota = snd ck\<rparr>
                          in ret (if snd ck = None then vs\<lparr>vd_rowless := vd_rowless vs @ [d]\<rparr>
                                  else vs\<lparr>vd_stale := vd_stale vs @ [d]\<rparr>)))))"

definition jstrs :: "string list \<Rightarrow> json" where
  "jstrs ss = JArr (map JStr ss)"

text \<open>Third pass: the stale records deleted; then the orphans released.\<close>

definition clean_quota :: "StaleQuota list \<Rightarrow> decision \<Rightarrow> StaleQuota list ledger" where
  "clean_quota acc dc =
     (case dc_quota dc of
        None \<Rightarrow> ret acc
      | Some q \<Rightarrow>
          thenA (exec (delete_quota (q_job q) (q_pool q)))
         (thenA (recordEvent (dc_job dc) ''quota_pool.stale_cleanup''
            (JObj [(''job_id'', JStr (dc_job dc)), (''pool'', JStr (q_pool q)), (''profile'', JStr (q_profile q)),
                   (''started_at'', JStr (q_started_at q)), (''agent_label'', JStr (dc_label dc)),
                   (''reason'', JStr (orphanReason (dc_matched dc) (dc_statuses dc))),
                   (''herdr_status'', jstrs (dc_statuses dc))]) None)
          (ret (acc @ [\<lparr>sq_Row = q, sq_AgentLabel = dc_label dc, sq_HerdrStatus = dc_statuses dc\<rparr>]))))"

definition release_job :: "string \<Rightarrow> string \<Rightarrow> db \<Rightarrow> db" where
  "release_job job at d =
     d\<lparr>jobs := upd (\<lambda>j. j_id j = job \<and> j_state j = ''leased'')
        (\<lambda>j. j\<lparr>j_state := ''released'', j_updated_at := at\<rparr>) (jobs d)\<rparr>"

definition record_orphan :: "string \<Rightarrow> string \<Rightarrow> decision \<Rightarrow> bool \<Rightarrow> time \<Rightarrow> Orphan ledger" where
  "record_orphan job prior dc forced moment =
     thenA (exec (release_job job (iso moment)))
       (bindA (recordEvent job ''job.orphan_release''
          (JObj [(''job_id'', JStr job), (''prior_state'', JStr prior), (''agent_label'', JStr (dc_label dc)),
                 (''herdr_status'', jstrs (dc_statuses dc)),
                 (''reason'', JStr (orphanReason (dc_matched dc) (dc_statuses dc))),
                 (''forced'', JBool forced)]) None) (\<lambda>n.
        ret \<lparr>or_Job = job, or_PriorState = prior, or_AgentLabel = dc_label dc,
             or_Reason = orphanReason (dc_matched dc) (dc_statuses dc),
             or_HerdrStatus = dc_statuses dc, or_EventSeq = n\<rparr>))"

definition release_orphan_job ::
  "(string \<times> decision) list \<Rightarrow> time \<Rightarrow> Orphan list \<Rightarrow> string \<Rightarrow> Orphan list ledger" where
  "release_orphan_job candidates moment acc job =
     (case map_of (rev candidates) job of
        None \<Rightarrow> ret acc
      | Some dc \<Rightarrow>
          bindA (orphanState job) (\<lambda>o'.
            if \<not> o_eligible o' then ret acc
            else bindA (record_orphan job (o_state o') dc False moment) (\<lambda>r. ret (acc @ [r]))))"

definition gc_checks :: "quota_row list \<Rightarrow> string list \<Rightarrow> (string \<times> quota_row option) list" where
  "gc_checks quotas rowless = map (\<lambda>q. (q_job q, Some q)) quotas @ map (\<lambda>j. (j, None)) rowless"

definition gc_passes :: "snapshots_map \<Rightarrow> Agent list \<Rightarrow> time \<Rightarrow> GCResult ledger" where
  "gc_passes snaps agents moment =
     bindA (query exclusive_leases) (\<lambda>held.
     bindA (foldA (expire_lease moment) (0, []) held) (\<lambda>expired.
     bindA (query (\<lambda>d. sort_key quota_key (quota_pool_records d))) (\<lambda>quotas.
     bindA (query rowless_jobs) (\<lambda>rowless.
     bindA (foldA (judge agents snaps moment) no_verdicts (gc_checks quotas rowless)) (\<lambda>vs.
       if vd_unmapped vs \<noteq> [] \<or> vd_unknown vs \<noteq> []
       then throw (errf ExitStorage ''gc identity reconciliation refused'')
       else bindA (foldA clean_quota [] (vd_stale vs)) (\<lambda>stale.
         let candidates = map (\<lambda>dc. (dc_job dc, dc)) (vd_stale vs @ vd_rowless vs);
             ids = sort (remdups (map fst candidates))
         in bindA (foldA (release_orphan_job candidates moment) [] ids) (\<lambda>orphans.
              ret \<lparr>gc_Checked = length held, gc_Expired = fst expired, gc_Transitioned = snd expired,
                   gc_StaleQuota = stale, gc_OrphanReleased = orphans, gc_Skipped = vd_skipped vs,
                   gc_LiveAgents = length (filter (\<lambda>a. ag_Status a = ''working'') agents),
                   gc_HerdrAgents = length agents\<rparr>)))))))"

definition gc_tx :: "snapshots_map \<Rightarrow> Agent list \<Rightarrow> GCResult ledger" where
  "gc_tx snaps agents = bindA store_now (gc_passes snaps agents)"

definition gc_write :: "snapshots_map \<Rightarrow> Agent list \<Rightarrow> GCResult ledger" where
  "gc_write snaps agents =
     thenA (liftE (checkAgents agents)) (thenA (rw False) (db_write (gc_tx snaps agents)))"

definition GC :: "Agent list ledger \<Rightarrow> GCResult ledger" where
  "GC agents = bindA (snapshots []) (\<lambda>snaps. bindA agents (\<lambda>as. gc_write snaps as))"


section \<open>The forced release of one orphan\<close>

definition orphan_blockers :: "orphanInfo \<Rightarrow> string \<Rightarrow> string list \<Rightarrow> bool \<Rightarrow> string list" where
  "orphan_blockers o' label statuses matched =
     (if o_state o' \<noteq> ''leased'' then [''job state='' @ o_state o' @ '' (expected leased)''] else [])
     @ (if hasStatus statuses ''unknown'' then [''agent='' @ label @ '' herdr_status=unknown'']
        else if matched then [''agent='' @ label @ '' herdr_status='' @ join '','' statuses @ '' (pane exists)'']
        else [])
     @ map (\<lambda>l. ''lease='' @ l) (o_leases o')
     @ map (\<lambda>q. ''quota_pool='' @ q) (o_quotas o')"

definition release_orphan_tx :: "string \<Rightarrow> snapshots_map \<Rightarrow> Agent list \<Rightarrow> Orphan ledger" where
  "release_orphan_tx job snaps agents =
     bindA (jobSnapshot job) (\<lambda>cur.
       if (snap_at snaps job \<noteq> None \<or> cur \<noteq> None) \<and> \<not> sameSnapshot (snap_at snaps job) cur
       then throw (errf ExitFencing ''orphan release refused: changed after Herdr snapshot'')
       else bindA (orphanState job) (\<lambda>o'.
         if \<not> o_exists o' then throw (errf ExitNotFound ''job not found'')
         else bindA store_now (\<lambda>moment. bindA (claimAgentLabel job) (\<lambda>label.
           if label = [] then throw (errf ExitStorage ''orphan release identity reconciliation refused'')
           else let statuses = fst (matchedStatuses agents job label);
                    matched = snd (matchedStatuses agents job label);
                    blockers = orphan_blockers o' label statuses matched;
                    refused = errf (if hasStatus statuses ''unknown'' then ExitStorage else ExitFencing)
                      ''orphan release refused''
                in bindA (if blockers = [] then startupBlocker job moment else ret []) (\<lambda>b.
                   if blockers \<noteq> [] \<or> b \<noteq> [] then throw refused
                   else if \<not> o_eligible o' then throw (errf ExitFencing ''orphan release refused: not an eligible leased orphan'')
                   else record_orphan job (o_state o')
                     \<lparr>dc_job = job, dc_label = label, dc_statuses = statuses, dc_matched = matched, dc_quota = None\<rparr>
                     True moment)))))"

definition release_orphan_write :: "string \<Rightarrow> snapshots_map \<Rightarrow> Agent list \<Rightarrow> Orphan ledger" where
  "release_orphan_write job snaps agents =
     thenA (liftE (checkAgents agents)) (thenA (rw False) (db_write (release_orphan_tx job snaps agents)))"

definition ReleaseOrphan :: "string \<Rightarrow> Agent list ledger \<Rightarrow> Orphan ledger" where
  "ReleaseOrphan job agents =
     bindA (snapshots job) (\<lambda>snaps. bindA agents (\<lambda>as. release_orphan_write job snaps as))"

end
