(* ===== verification/Arb_Ledger.thy ===== *)
theory Arb_Ledger
  imports Arb_Gc
begin

text \<open>
  What the operations of the ledger promise together. The invariant of the database, the effects the
  operations are composed of, for each operation the effect a successful run has (a refinement of the
  code to those effects), and the contract all of them share as a locale that every operation
  interprets: it keeps the invariant, it never loses audit evidence, and a refusal changes nothing.
  The ledger with all its operations is a transition system, so the contract holds of every reachable
  state.
\<close>

section \<open>The invariant\<close>

definition granted :: "db \<Rightarrow> leaseRow list" where
  "granted d = leases d @ map h_lease (lease_history d)"

definition token_no :: "string \<Rightarrow> nat" where
  "token_no token = digits_val (cut_head (CHR ''-'') token)"

definition tokens_ok :: "db \<Rightarrow> bool" where
  "tokens_ok d \<longleftrightarrow> 0 \<le> token_seq d
     \<and> (\<forall>r\<in>set (granted d). int (token_no (l_token r)) \<le> token_seq d)
     \<and> (\<forall>r\<in>set (granted d). \<forall>s\<in>set (granted d). token_no (l_token r) = token_no (l_token s) \<longrightarrow> r = s)"

definition keys_ok :: "db \<Rightarrow> bool" where
  "keys_ok d \<longleftrightarrow> unique j_id (jobs d) \<and> unique quota_key (quota_pool_records d) \<and> unique lease_key (leases d)
     \<and> unique history_key (lease_history d) \<and> unique event_key (events d)"

definition job_states :: "string list" where
  "job_states = [''claimed'', ''leased'', ''released'']"

definition in_state :: "string \<Rightarrow> string \<Rightarrow> db \<Rightarrow> bool" where
  "in_state job state d = list_ex (\<lambda>j. j_id j = job \<and> j_state j = state) (jobs d)"

definition jobs_ok :: "db \<Rightarrow> bool" where
  "jobs_ok d \<longleftrightarrow> (\<forall>j\<in>set (jobs d). j_state j \<in> set job_states)
     \<and> (\<forall>r\<in>set (leases d). has_key j_id (l_job r) (jobs d) \<and> exclusive_kind (l_kind r))
     \<and> (\<forall>q\<in>set (quota_pool_records d). in_state (q_job q) ''leased'' d)"

definition db_inv :: "db \<Rightarrow> bool" where
  "db_inv d \<longleftrightarrow> keys_ok d \<and> jobs_ok d \<and> tokens_ok d \<and> (meta d = NoMetaTable \<longrightarrow> d = empty_db)"

text \<open>The effects the operations are composed of, on the database.\<close>

definition add_event :: "event_row \<Rightarrow> db \<Rightarrow> db" where
  "add_event e d = d\<lparr>events := events d @ [e]\<rparr>"

definition grant :: "leaseRow \<Rightarrow> db \<Rightarrow> db" where
  "grant r d = d\<lparr>token_seq := token_seq d + 1, leases := leases d @ [r]\<rparr>"

definition add_quota :: "quota_row \<Rightarrow> db \<Rightarrow> db" where
  "add_quota q d = d\<lparr>quota_pool_records := quota_pool_records d @ [q]\<rparr>"

definition add_job :: "job_row \<Rightarrow> db \<Rightarrow> db" where
  "add_job j d = d\<lparr>jobs := jobs d @ [j]\<rparr>"

named_theorems inv_rules \<open>the effects keep the invariant\<close>

lemmas db_inv_parts = db_inv_def keys_ok_def jobs_ok_def

lemma meta_effects [simp]:
  "meta (add_event e d) = meta d" "meta (grant r d) = meta d" "meta (add_quota q d) = meta d"
  "meta (add_job j d) = meta d" "meta (archive_db h d) = meta d" "meta (delete_lease a b d) = meta d"
  "meta (delete_quota a b d) = meta d" "meta (set_job_state a b c d) = meta d" "meta (touch_job a b d) = meta d"
  "meta (reclaim_job a b c e' d) = meta d"
  by (simp_all add: add_event_def grant_def add_quota_def add_job_def archive_db_def delete_lease_def
      delete_quota_def set_job_state_def touch_job_def reclaim_job_def)

lemma in_state_iff: "in_state job state d \<longleftrightarrow> (\<exists>j\<in>set (jobs d). j_id j = job \<and> j_state j = state)"
  by (auto simp: in_state_def list_ex_iff)

lemma in_state_key: "in_state job state d \<Longrightarrow> has_key j_id job (jobs d)"
  by (auto simp: in_state_iff has_key_iff)

lemma in_state_effects [simp]:
  "in_state job s (add_event e d) = in_state job s d" "in_state job s (grant r d) = in_state job s d"
  "in_state job s (add_quota q d) = in_state job s d" "in_state job s (archive_db h d) = in_state job s d"
  "in_state job s (delete_lease a b d) = in_state job s d" "in_state job s (delete_quota a b d) = in_state job s d"
  "in_state job s (add_job j d) = (in_state job s d \<or> j_id j = job \<and> j_state j = s)"
  by (auto simp: in_state_def add_event_def grant_def add_quota_def archive_db_def delete_lease_def
      delete_quota_def add_job_def)

lemma in_state_updates [simp]:
  "in_state job s (touch_job k at d) = in_state job s d"
  "in_state job s (set_job_state k t at d) =
     (if job = k then s = t \<and> has_key j_id k (jobs d) else in_state job s d)"
  "in_state job s (reclaim_job k lane level at d) =
     (if job = k then s = ''claimed'' \<and> has_key j_id k (jobs d) else in_state job s d)"
proof -
  show "in_state job s (touch_job k at d) = in_state job s d"
  proof -
    have "list_ex (\<lambda>j. j_id j = job \<and> j_state j = s) (upd (\<lambda>j. j_id j = k) (\<lambda>j. j\<lparr>j_updated_at := at\<rparr>) js)
        = list_ex (\<lambda>j. j_id j = job \<and> j_state j = s) js" for js
      by (induction js) auto
    then show ?thesis by (simp add: in_state_def touch_job_def)
  qed
  have "list_ex (\<lambda>j. j_id j = job \<and> j_state j = s) (upd (\<lambda>j. j_id j = k) (\<lambda>j. j\<lparr>j_state := t, j_updated_at := at\<rparr>) js)
      = (if job = k then s = t \<and> has_key j_id k js else list_ex (\<lambda>j. j_id j = job \<and> j_state j = s) js)" for js
    by (induction js) auto
  from this [of "jobs d"] show "in_state job s (set_job_state k t at d) =
     (if job = k then s = t \<and> has_key j_id k (jobs d) else in_state job s d)"
    unfolding in_state_def set_job_state_def by auto
  have "list_ex (\<lambda>j. j_id j = job \<and> j_state j = s) (upd (\<lambda>j. j_id j = k)
        (\<lambda>j. j\<lparr>j_owner_lane := lane, j_state := ''claimed'', j_t_level := level, j_updated_at := at\<rparr>) js)
      = (if job = k then s = ''claimed'' \<and> has_key j_id k js else list_ex (\<lambda>j. j_id j = job \<and> j_state j = s) js)" for js
    by (induction js) auto
  from this [of "jobs d"] show "in_state job s (reclaim_job k lane level at d) =
     (if job = k then s = ''claimed'' \<and> has_key j_id k (jobs d) else in_state job s d)"
    unfolding in_state_def reclaim_job_def by auto
qed

lemma token_no_text: "0 \<le> n \<Longrightarrow> token_no (token_text n b) = nat n"
proof -
  assume "0 \<le> n"
  then have "CHR ''-'' \<notin> set (itoa n)"
    using set_decimal_digits is_digit_not_sign by (auto simp: itoa_def)
  then have "cut_head (CHR ''-'') (token_text n b) = itoa n"
    by (simp add: token_text_def cut_head_append)
  then show ?thesis using \<open>0 \<le> n\<close> by (simp add: token_no_def itoa_def)
qed

text \<open>The tables an effect does not name stay as they are.\<close>

lemma effect_tables [simp]:
  "jobs (add_event e d) = jobs d" "leases (add_event e d) = leases d"
  "quota_pool_records (add_event e d) = quota_pool_records d" "lease_history (add_event e d) = lease_history d"
  "token_seq (add_event e d) = token_seq d" "events (add_event e d) = events d @ [e]"
  "jobs (grant r d) = jobs d" "leases (grant r d) = leases d @ [r]"
  "quota_pool_records (grant r d) = quota_pool_records d" "lease_history (grant r d) = lease_history d"
  "token_seq (grant r d) = token_seq d + 1" "events (grant r d) = events d"
  "jobs (add_quota q d) = jobs d" "leases (add_quota q d) = leases d"
  "quota_pool_records (add_quota q d) = quota_pool_records d @ [q]" "lease_history (add_quota q d) = lease_history d"
  "token_seq (add_quota q d) = token_seq d" "events (add_quota q d) = events d"
  "jobs (add_job j d) = jobs d @ [j]" "leases (add_job j d) = leases d"
  "quota_pool_records (add_job j d) = quota_pool_records d" "lease_history (add_job j d) = lease_history d"
  "token_seq (add_job j d) = token_seq d" "events (add_job j d) = events d"
  "jobs (archive_db h d) = jobs d" "leases (archive_db h d) = leases d"
  "quota_pool_records (archive_db h d) = quota_pool_records d"
  "lease_history (archive_db h d) = ins_ignore history_key h (lease_history d)"
  "token_seq (archive_db h d) = token_seq d" "events (archive_db h d) = events d"
  "jobs (delete_lease a b d) = jobs d" "leases (delete_lease a b d) = del lease_key (a, b) (leases d)"
  "quota_pool_records (delete_lease a b d) = quota_pool_records d"
  "lease_history (delete_lease a b d) = lease_history d"
  "token_seq (delete_lease a b d) = token_seq d" "events (delete_lease a b d) = events d"
  "jobs (delete_quota a b d) = jobs d" "leases (delete_quota a b d) = leases d"
  "quota_pool_records (delete_quota a b d) = del quota_key (a, b) (quota_pool_records d)"
  "lease_history (delete_quota a b d) = lease_history d"
  "token_seq (delete_quota a b d) = token_seq d" "events (delete_quota a b d) = events d"
  by (simp_all add: add_event_def grant_def add_quota_def add_job_def archive_db_def delete_lease_def delete_quota_def)

lemma update_tables [simp]:
  "leases (set_job_state a b c d) = leases d" "quota_pool_records (set_job_state a b c d) = quota_pool_records d"
  "lease_history (set_job_state a b c d) = lease_history d" "events (set_job_state a b c d) = events d"
  "token_seq (set_job_state a b c d) = token_seq d"
  "leases (touch_job a c d) = leases d" "quota_pool_records (touch_job a c d) = quota_pool_records d"
  "lease_history (touch_job a c d) = lease_history d" "events (touch_job a c d) = events d"
  "token_seq (touch_job a c d) = token_seq d"
  "leases (reclaim_job a b c f d) = leases d" "quota_pool_records (reclaim_job a b c f d) = quota_pool_records d"
  "lease_history (reclaim_job a b c f d) = lease_history d" "events (reclaim_job a b c f d) = events d"
  "token_seq (reclaim_job a b c f d) = token_seq d"
  "map j_id (jobs (set_job_state a b c d)) = map j_id (jobs d)"
  "map j_id (jobs (touch_job a c d)) = map j_id (jobs d)"
  "map j_id (jobs (reclaim_job a b c f d)) = map j_id (jobs d)"
  by (simp_all add: set_job_state_def touch_job_def reclaim_job_def map_key_upd)

lemma has_key_ids: "has_key j_id k t \<longleftrightarrow> k \<in> set (map j_id t)"
  by (auto simp: has_key_iff)

lemma keys_update [simp]:
  "has_key j_id k (jobs (set_job_state a b c d)) = has_key j_id k (jobs d)"
  "has_key j_id k (jobs (touch_job a c d)) = has_key j_id k (jobs d)"
  "has_key j_id k (jobs (reclaim_job a b c f d)) = has_key j_id k (jobs d)"
  "unique j_id (jobs (set_job_state a b c d)) = unique j_id (jobs d)"
  "unique j_id (jobs (touch_job a c d)) = unique j_id (jobs d)"
  "unique j_id (jobs (reclaim_job a b c f d)) = unique j_id (jobs d)"
  by (simp_all only: has_key_ids unique_def update_tables)

lemma states_update:
  "\<forall>j\<in>set (jobs d). j_state j \<in> set job_states \<Longrightarrow> b \<in> set job_states
     \<Longrightarrow> \<forall>j\<in>set (jobs (set_job_state a b c d)). j_state j \<in> set job_states"
  "\<forall>j\<in>set (jobs d). j_state j \<in> set job_states \<Longrightarrow> \<forall>j\<in>set (jobs (touch_job a c d)). j_state j \<in> set job_states"
  "\<forall>j\<in>set (jobs d). j_state j \<in> set job_states
     \<Longrightarrow> \<forall>j\<in>set (jobs (reclaim_job a l c f d)). j_state j \<in> set job_states"
  by (auto simp: set_job_state_def touch_job_def reclaim_job_def job_states_def)

lemma tokens_ok_same:
  "leases d' = leases d \<Longrightarrow> lease_history d' = lease_history d \<Longrightarrow> token_seq d' = token_seq d \<Longrightarrow> tokens_ok d' = tokens_ok d"
  by (simp add: tokens_ok_def granted_def)

lemma tokens_ok_subset:
  "tokens_ok d \<Longrightarrow> set (granted d') \<subseteq> set (granted d) \<Longrightarrow> token_seq d' = token_seq d \<Longrightarrow> tokens_ok d'"
  unfolding tokens_ok_def by (metis subsetD)

lemma inv_add_event [inv_rules]:
  "db_inv d \<Longrightarrow> meta d \<noteq> NoMetaTable \<Longrightarrow> \<not> has_key event_key (event_key e) (events d) \<Longrightarrow> db_inv (add_event e d)"
  by (auto simp: db_inv_parts tokens_ok_same [of "add_event e d" d] intro: unique_snoc)

lemma inv_delete_lease [inv_rules]:
  "db_inv d \<Longrightarrow> meta d \<noteq> NoMetaTable \<Longrightarrow> db_inv (delete_lease a b d)"
  by (auto simp: db_inv_parts granted_def intro: unique_del elim!: tokens_ok_subset)

lemma inv_delete_quota [inv_rules]:
  "db_inv d \<Longrightarrow> meta d \<noteq> NoMetaTable \<Longrightarrow> db_inv (delete_quota a b d)"
  by (auto simp: db_inv_parts tokens_ok_same [of "delete_quota a b d" d] intro: unique_del)

lemma inv_archive [inv_rules]:
  "db_inv d \<Longrightarrow> meta d \<noteq> NoMetaTable \<Longrightarrow> h_lease h \<in> set (leases d) \<Longrightarrow> db_inv (archive_db h d)"
  by (auto simp: db_inv_parts granted_def ins_ignore_def intro: unique_snoc elim!: tokens_ok_subset)

lemma inv_grant [inv_rules]:
  assumes "db_inv d" "meta d \<noteq> NoMetaTable" "\<not> has_key lease_key (lease_key r) (leases d)"
    "has_key j_id (l_job r) (jobs d)" "exclusive_kind (l_kind r)" "l_token r = token_text (token_seq d + 1) b"
  shows "db_inv (grant r d)"
proof -
  have t: "tokens_ok d" using assms(1) by (simp add: db_inv_def)
  then have n: "token_no (l_token r) = nat (token_seq d + 1)"
    using assms(6) by (simp add: token_no_text tokens_ok_def)
  have fresh: "token_no (l_token s) \<noteq> token_no (l_token r)" "int (token_no (l_token s)) \<le> token_seq d + 1"
    if "s \<in> set (granted d)" for s
    using t n that by (force simp: tokens_ok_def)+
  have "set (granted (grant r d)) = insert r (set (granted d))" by (auto simp: granted_def)
  then have "tokens_ok (grant r d)"
    unfolding tokens_ok_def using t n fresh by (auto simp: tokens_ok_def)
  then show ?thesis using assms by (auto simp: db_inv_parts intro: unique_snoc)
qed

lemma inv_touch [inv_rules]: "db_inv d \<Longrightarrow> meta d \<noteq> NoMetaTable \<Longrightarrow> db_inv (touch_job job at d)"
  using states_update(2) [of d job at] by (simp add: db_inv_parts tokens_ok_same [of "touch_job job at d" d])

lemma inv_set_job_state [inv_rules]:
  assumes "db_inv d" "meta d \<noteq> NoMetaTable" "state \<in> set job_states"
    "state = ''leased'' \<or> (\<forall>q\<in>set (quota_pool_records d). q_job q \<noteq> job)"
  shows "db_inv (set_job_state job state at d)"
  using assms states_update(1) [of d state job at]
  by (auto simp: db_inv_parts tokens_ok_same [of "set_job_state job state at d" d] in_state_key)

lemma inv_reclaim [inv_rules]:
  assumes "db_inv d" "meta d \<noteq> NoMetaTable" "\<forall>q\<in>set (quota_pool_records d). q_job q \<noteq> job"
  shows "db_inv (reclaim_job job lane level at d)"
  using assms states_update(3) [of d job lane level at]
  by (auto simp: db_inv_parts tokens_ok_same [of "reclaim_job job lane level at d" d])

lemma inv_add_quota [inv_rules]:
  assumes "db_inv d" "meta d \<noteq> NoMetaTable" "\<not> has_key quota_key (quota_key q) (quota_pool_records d)"
    "has_key j_id (q_job q) (jobs d)"
  shows "db_inv (set_job_state (q_job q) ''leased'' at (add_quota q d))"
  using assms states_update(1) [of "add_quota q d" "''leased''" "q_job q" at]
  by (auto simp: db_inv_parts tokens_ok_same [of "set_job_state (q_job q) ''leased'' at (add_quota q d)" d]
      job_states_def intro: unique_snoc)

lemma inv_add_job [inv_rules]:
  assumes "db_inv d" "meta d \<noteq> NoMetaTable" "\<not> has_key j_id (j_id j) (jobs d)" "j_state j = ''claimed''"
  shows "db_inv (add_job j d)"
  using assms by (auto simp: db_inv_parts tokens_ok_same [of "add_job j d" d] job_states_def intro: unique_snoc)

lemma inv_boot [inv_rules]: "db_inv d \<Longrightarrow> db_inv (boot d)"
  by (auto simp: boot_def db_inv_parts tokens_ok_def granted_def empty_db_def)

lemma release_job_eq:
  assumes "unique j_id (jobs d)" "in_state job ''leased'' d"
  shows "release_job job at d = set_job_state job ''released'' at d"
proof -
  have "j_state j = ''leased''" if "j \<in> set (jobs d)" "j_id j = job" for j
    using assms that unique_eq [of j_id "jobs d"] by (auto simp: in_state_iff)
  then have "upd (\<lambda>j. j_id j = job \<and> j_state j = ''leased'') f (jobs d) = upd (\<lambda>j. j_id j = job) f (jobs d)" for f
    by (auto simp: upd_def)
  then show ?thesis by (simp add: release_job_def set_job_state_def)
qed


section \<open>Audit evidence\<close>

text \<open>
  \<open>evolves d d'\<close>: events and lease history only grow at the end, the token sequence does not go back,
  a lease that is gone is in the history, and no job is lost or loses its creation time.
\<close>

definition job_birth :: "job_row \<Rightarrow> string \<times> string" where
  "job_birth j = (j_id j, j_created_at j)"

definition evolves :: "db \<Rightarrow> db \<Rightarrow> bool" where
  "evolves d d' \<longleftrightarrow> (\<exists>es. events d' = events d @ es) \<and> (\<exists>hs. lease_history d' = lease_history d @ hs)
     \<and> token_seq d \<le> token_seq d'
     \<and> (\<forall>r\<in>set (leases d). r \<in> set (granted d'))
     \<and> (\<exists>js. map job_birth (jobs d') = map job_birth (jobs d) @ js)"

named_theorems evolve_rules \<open>the effects keep the audit evidence\<close>

lemma evolves_refl [evolve_rules]: "evolves d d"
  by (simp add: evolves_def granted_def)

lemma evolves_trans: "evolves a b \<Longrightarrow> evolves b c \<Longrightarrow> evolves a c"
proof -
  assume ab: "evolves a b" and bc: "evolves b c"
  have "r \<in> set (granted c)" if "r \<in> set (granted b)" for r
    using bc that by (auto simp: evolves_def granted_def)
  then show ?thesis using ab bc by (auto simp: evolves_def)
qed

lemma evolves_add_event [evolve_rules]: "evolves d (add_event e d)"
  by (simp add: evolves_def granted_def)

lemma evolves_grant [evolve_rules]: "evolves d (grant r d)"
  by (simp add: evolves_def granted_def)

lemma evolves_add_quota [evolve_rules]: "evolves d (add_quota q d)"
  by (simp add: evolves_def granted_def)

lemma evolves_delete_quota [evolve_rules]: "evolves d (delete_quota a b d)"
  by (simp add: evolves_def granted_def)

lemma evolves_add_job [evolve_rules]: "evolves d (add_job j d)"
  by (simp add: evolves_def granted_def)

lemma evolves_updates [evolve_rules]:
  "evolves d (set_job_state a b c d)" "evolves d (touch_job a c d)" "evolves d (reclaim_job a b c f d)"
proof -
  have k: "map job_birth (jobs (set_job_state a b c d)) = map job_birth (jobs d)"
    "map job_birth (jobs (touch_job a c d)) = map job_birth (jobs d)"
    "map job_birth (jobs (reclaim_job a b c f d)) = map job_birth (jobs d)"
    by (simp_all add: set_job_state_def touch_job_def reclaim_job_def map_key_upd job_birth_def)
  show "evolves d (set_job_state a b c d)" "evolves d (touch_job a c d)" "evolves d (reclaim_job a b c f d)"
    by (simp_all add: evolves_def k granted_def)
qed

lemma evolves_archive [evolve_rules]: "evolves d (archive_db h d)"
  by (auto simp: evolves_def granted_def ins_ignore_def)

text \<open>An audit row under the key of a live lease is that lease's own: tokens are never reused.\<close>

lemma archived_in_history:
  assumes "tokens_ok d" "h_lease h \<in> set (leases d)"
  shows "h_lease h \<in> h_lease ` set (lease_history (archive_db h d))"
proof (cases "has_key history_key (history_key h) (lease_history d)")
  case True
  then obtain g where g: "g \<in> set (lease_history d)" "history_key g = history_key h"
    by (auto simp: has_key_iff)
  then have "h_lease g = h_lease h"
    using assms by (auto simp: tokens_ok_def granted_def history_key_def)
  then show ?thesis using g True by (auto simp: ins_ignore_def intro: rev_image_eqI)
next
  case False
  then show ?thesis by (simp add: ins_ignore_def)
qed

lemma evolves_retire [evolve_rules]:
  assumes "db_inv d" "sel lease_key (a, b) (leases d) = Some (h_lease h)"
  shows "evolves d (delete_lease a b (archive_db h d))"
proof -
  have r: "h_lease h \<in> set (leases d)" "lease_key (h_lease h) = (a, b)" using sel_Some [OF assms(2)] by auto
  have h: "h_lease h \<in> h_lease ` set (lease_history (archive_db h d))"
    using archived_in_history assms(1) r(1) by (simp add: db_inv_def)
  have "s = h_lease h" if "s \<in> set (leases d)" "lease_key s = (a, b)" for s
    using that r assms(1) unique_eq [of lease_key "leases d"] by (simp add: db_inv_parts)
  with h have "r \<in> set (granted (delete_lease a b (archive_db h d)))" if "r \<in> set (leases d)" for r
    using that by (auto simp: granted_def)
  then show ?thesis by (auto simp: evolves_def ins_ignore_def)
qed

lemma evolves_boot: "db_inv d \<Longrightarrow> evolves d (boot d)"
  by (auto simp: boot_def db_inv_def evolves_refl evolves_def empty_db_def granted_def)

section \<open>The effects of the operations\<close>

text \<open>
  A successful run of an operation's transaction is the effect given here on the database; its
  conditions are the guards the run passed.
\<close>

lemma wp_requireJob [wp_rules]:
  "wp (requireJob job) Q w = (\<forall>fs. call_ok w fs \<longrightarrow> has_key j_id job (jobs (the_db w)) \<longrightarrow> Q () (w\<lparr>faults := fs\<rparr>))"
  by (auto simp: requireJob_def wp_rules)

lemma wp_getLease [wp_rules]:
  "wp (getLease a b) Q w = (\<forall>fs. call_ok w fs \<longrightarrow> Q (sel lease_key (a, b) (leases (the_db w))) (w\<lparr>faults := fs\<rparr>))"
  by (auto simp: getLease_def wp_rules)

definition audit_row :: "leaseRow \<Rightarrow> string \<Rightarrow> time \<Rightarrow> history_row" where
  "audit_row r state moment = \<lparr>h_lease = r, h_state = state, h_recorded_at = iso moment\<rparr>"

lemma wp_archive [wp_rules]:
  "wp (archive r state moment) Q w = (\<forall>fs. call_ok w fs \<longrightarrow>
     Q (\<not> has_key history_key (history_key (audit_row r state moment)) (lease_history (the_db w)))
       (upd_db (archive_db (audit_row r state moment)) (w\<lparr>faults := fs\<rparr>)))"
  by (simp add: archive_def Let_def wp_rules audit_row_def)

lemma wp_insert_lease [wp_rules]:
  "wp (insert_lease r) Q w = (\<forall>fs. call_ok w fs \<longrightarrow> \<not> has_key lease_key (lease_key r) (leases (the_db w)) \<longrightarrow>
     Q () (upd_db (\<lambda>d. d\<lparr>leases := leases d @ [r]\<rparr>) (w\<lparr>faults := fs\<rparr>)))"
  by (auto simp: insert_lease_def wp_rules)

lemma wp_insert_quota [wp_rules]:
  "wp (insert_quota q) Q w = (\<forall>fs. call_ok w fs \<longrightarrow> \<not> has_key quota_key (quota_key q) (quota_pool_records (the_db w)) \<longrightarrow>
     Q () (upd_db (add_quota q) (w\<lparr>faults := fs\<rparr>)))"
  by (auto simp: insert_quota_def wp_rules add_quota_def [abs_def])

lemma wp_insert_job [wp_rules]:
  "wp (insert_job j) Q w = (\<forall>fs. call_ok w fs \<longrightarrow> \<not> has_key j_id (j_id j) (jobs (the_db w)) \<longrightarrow>
     Q () (upd_db (add_job j) (w\<lparr>faults := fs\<rparr>)))"
  by (auto simp: insert_job_def wp_rules add_job_def [abs_def])

definition settled :: "string \<Rightarrow> time \<Rightarrow> db \<Rightarrow> db" where
  "settled job moment d =
     (if held_count job (iso moment) d > 0 then touch_job job (iso moment) d
      else set_job_state job ''released'' (iso moment) d)"

lemma settled_tables [simp]:
  "leases (settled a m d) = leases d" "quota_pool_records (settled a m d) = quota_pool_records d"
  "lease_history (settled a m d) = lease_history d" "events (settled a m d) = events d"
  "token_seq (settled a m d) = token_seq d" "meta (settled a m d) = meta d"
  by (simp_all add: settled_def)

lemma wp_settleJob [wp_rules]:
  "wp (settleJob job moment) Q w = (\<forall>fs gs. call_ok w fs \<longrightarrow> call_ok (w\<lparr>faults := fs\<rparr>) gs \<longrightarrow>
     Q () (upd_db (settled job moment) (w\<lparr>faults := gs\<rparr>)))"
  by (auto simp: settleJob_def wp_rules upd_db_def settled_def)

lemma wp_event:
  assumes "\<And>e v. the_db v = add_event e (the_db w) \<Longrightarrow> e_job e = job \<Longrightarrow> e_kind e = kind \<Longrightarrow>
      \<not> has_key event_key (event_key e) (events (the_db w)) \<Longrightarrow> clock_ok w v \<Longrightarrow> Q (e_seq e) v"
  shows "wp (recordEvent job kind payload seq) Q w"
proof (rule wp_recordEvent)
  fix n v assume "event_added job kind payload seq w n v"
  then obtain t where v: "the_db v = add_event (event_entry job n kind payload (iso t)) (the_db w)"
      "\<not> has_key event_key (job, n) (events (the_db w))"
    and t: "\<And>s. mono_clock s w \<Longrightarrow> s \<le> t \<and> mono_clock t v"
    unfolding event_added_def add_event_def by blast
  have "clock_ok w v" unfolding clock_ok_def using t mono_clock_weaken by blast
  then show "Q n v" using v assms [OF v(1)] by (simp add: event_entry_def event_key_def)
qed

definition lease_row :: "LeaseReq \<Rightarrow> time \<Rightarrow> string \<Rightarrow> leaseRow" where
  "lease_row req moment token =
     \<lparr>l_resource = rq_Resource req, l_kind = rq_Kind req, l_job = rq_Job req, l_token = token,
      l_acquired = iso moment, l_expires = iso (moment + acquire_ttl req)\<rparr>"

definition cleared :: "leaseRow option \<Rightarrow> time \<Rightarrow> db \<Rightarrow> db" where
  "cleared held moment d =
     (case held of None \<Rightarrow> d
      | Some r \<Rightarrow> delete_lease (l_resource r) (l_kind r) (archive_db (audit_row r ''superseded'' moment) d))"

definition acquire_effect :: "LeaseReq \<Rightarrow> time \<Rightarrow> string \<Rightarrow> db \<Rightarrow> db" where
  "acquire_effect req moment token d =
     set_job_state (rq_Job req) ''leased'' (iso moment) (grant (lease_row req moment token)
       (cleared (sel lease_key (rq_Resource req, rq_Kind req) (leases d)) moment d))"

definition acquirable :: "LeaseReq \<Rightarrow> time \<Rightarrow> db \<Rightarrow> bool" where
  "acquirable req moment d \<longleftrightarrow> has_key j_id (rq_Job req) (jobs d)
     \<and> (case sel lease_key (rq_Resource req, rq_Kind req) (leases d) of
          None \<Rightarrow> True
        | Some r \<Rightarrow> (case parseISO (l_expires r) of None \<Rightarrow> False | Some until \<Rightarrow> until \<le> moment))"

definition added_event :: "string \<Rightarrow> string \<Rightarrow> event_row \<Rightarrow> db \<Rightarrow> bool" where
  "added_event job kind e d \<longleftrightarrow> e_job e = job \<and> e_kind e = kind \<and> \<not> has_key event_key (event_key e) (events d)"

lemma acquire_tx_effect:
  "wp (acquire_tx req moment) (\<lambda>l v. acquirable req moment (the_db w)
     \<and> gl_Superseded l = superseded_job (sel lease_key (rq_Resource req, rq_Kind req) (leases (the_db w)))
     \<and> (\<exists>b. gl_Token l = token_text (token_seq (the_db w) + 1) b)
     \<and> (\<exists>e. added_event (rq_Job req) ''lease.acquire'' e (the_db w)
          \<and> the_db v = add_event e (acquire_effect req moment (gl_Token l) (the_db w)))) w"
  unfolding acquire_tx_def Let_def
  by (cases "sel lease_key (rq_Resource req, rq_Kind req) (leases (the_db w))")
    (auto simp: wp_rules supersede_def nextToken_def acquirable_def acquire_effect_def cleared_def
      grant_def lease_row_def added_event_def split: option.splits intro!: wp_event)

definition retired :: "leaseRow \<Rightarrow> string \<Rightarrow> time \<Rightarrow> db \<Rightarrow> db" where
  "retired r state moment d = delete_lease (l_resource r) (l_kind r) (archive_db (audit_row r state moment) d)"

definition releasable :: "string \<Rightarrow> string \<Rightarrow> string \<Rightarrow> string \<Rightarrow> bool \<Rightarrow> db \<Rightarrow> leaseRow \<Rightarrow> bool" where
  "releasable job resource kind token force d r \<longleftrightarrow> sel lease_key (resource, kind) (leases d) = Some r
     \<and> (force \<or> l_job r = job \<and> l_token r = token)"

lemma release_tx_effect:
  "wp (release_tx job resource kind token force moment) (\<lambda>_ v. \<exists>r e. releasable job resource kind token force (the_db w) r
     \<and> added_event (l_job r) (if force then ''lease.release.force'' else ''lease.release'') e (the_db w)
     \<and> the_db v = add_event e (settled (l_job r) moment
          (retired r (if force then ''force-released'' else ''released'') moment (the_db w)))) w"
  unfolding release_tx_def Let_def
  by (cases "sel lease_key (resource, kind) (leases (the_db w))")
    (auto simp: wp_rules releasable_def retired_def added_event_def split: option.splits intro!: wp_event)

definition quota_entry :: "QuotaRun \<Rightarrow> time \<Rightarrow> quota_row" where
  "quota_entry q moment =
     \<lparr>q_job = qr_Job q, q_pool = g_Pool (qr_Gate q), q_profile = qr_Profile q, q_started_at = iso moment\<rparr>"

lemma record_quota_tx_effect:
  "wp (record_quota_tx q moment) (\<lambda>_ v. \<exists>e. has_key j_id (qr_Job q) (jobs (the_db w))
     \<and> \<not> has_key quota_key (qr_Job q, g_Pool (qr_Gate q)) (quota_pool_records (the_db w))
     \<and> added_event (qr_Job q) ''quota_pool.record'' e (the_db w)
     \<and> the_db v = add_event e (set_job_state (qr_Job q) ''leased'' (iso moment) (add_quota (quota_entry q moment) (the_db w)))) w"
  unfolding record_quota_tx_def Let_def
  by (auto simp: wp_rules quota_entry_def quota_key_def added_event_def intro!: wp_event)

lemma release_quota_tx_effect:
  "wp (release_quota_tx job pool force moment) (\<lambda>_ v. \<exists>q e. sel quota_key (job, pool) (quota_pool_records (the_db w)) = Some q
     \<and> added_event job (if force then ''quota_pool.release.force'' else ''quota_pool.release'') e (the_db w)
     \<and> the_db v = add_event e (settled job moment (delete_quota job pool (the_db w)))) w"
  unfolding release_quota_tx_def Let_def
  by (cases "sel quota_key (job, pool) (quota_pool_records (the_db w))")
    (auto simp: wp_rules added_event_def intro!: wp_event)

definition job_entry :: "Claim \<Rightarrow> time \<Rightarrow> job_row" where
  "job_entry cl moment = \<lparr>j_id = cl_Job cl, j_owner_lane = cl_Lane cl, j_state = ''claimed'', j_t_level = cl_T cl,
     j_created_at = iso moment, j_updated_at = iso moment\<rparr>"

lemma claim_tx_effect:
  "wp (claim_tx cl moment) (\<lambda>res v. \<exists>e.
     if cr_Reclaimed res
     then cl_ReclaimReleased cl
       \<and> (\<exists>j. sel j_id (cl_Job cl) (jobs (the_db w)) = Some j \<and> j_state j = ''released'' \<and> cr_CreatedAt res = j_created_at j)
       \<and> added_event (cl_Job cl) ''job.reclaim'' e (the_db w)
       \<and> the_db v = add_event e (reclaim_job (cl_Job cl) (cl_Lane cl) (cl_T cl) (iso moment) (the_db w))
     else \<not> has_key j_id (cl_Job cl) (jobs (the_db w)) \<and> added_event (cl_Job cl) ''job.claim'' e (the_db w)
       \<and> the_db v = add_event e (add_job (job_entry cl moment) (the_db w))) w"
  unfolding claim_tx_def Let_def
  by (cases "sel j_id (cl_Job cl) (jobs (the_db w))")
    (auto simp: wp_rules added_event_def job_entry_def intro!: wp_event)

text \<open>What the reading helpers return: functions of the database alone.\<close>

definition snapshot_of :: "string \<Rightarrow> db \<Rightarrow> snapshot option" where
  "snapshot_of job d =
     map_option (\<lambda>j. \<lparr>sn_state = j_state j, sn_claim = max_opt (map e_seq (filter (\<lambda>e. e_job e = job
        \<and> (e_kind e = ''job.claim'' \<or> e_kind e = ''job.reclaim'')) (events d)))\<rparr>) (sel j_id job (jobs d))"

definition eligible :: "string \<Rightarrow> db \<Rightarrow> bool" where
  "eligible job d \<longleftrightarrow> (\<exists>j. sel j_id job (jobs d) = Some j \<and> j_state j = ''leased'')
     \<and> (\<forall>r\<in>set (leases d). l_job r \<noteq> job) \<and> (\<forall>q\<in>set (quota_pool_records d). q_job q \<noteq> job)"

lemma wp_jobSnapshot:
  "(\<And>fs. Q (snapshot_of job (the_db w)) (w\<lparr>faults := fs\<rparr>)) \<Longrightarrow> wp (jobSnapshot job) Q w"
  by (cases "sel j_id job (jobs (the_db w))") (auto simp: jobSnapshot_def wp_rules snapshot_of_def)

lemma wp_claimAgentLabel:
  "(\<And>fs label. claimAgentLabel_of (claim_events job (the_db w)) = Inr label \<Longrightarrow> Q label (w\<lparr>faults := fs\<rparr>))
    \<Longrightarrow> wp (claimAgentLabel job) Q w"
  by (auto simp: claimAgentLabel_def wp_rules split: sum.splits)

lemma wp_startupBlocker:
  "(\<And>fs ts. startup_times (startup_events job (the_db w)) [] [] = Inr ts \<Longrightarrow> Q (blocker_text moment ts) (w\<lparr>faults := fs\<rparr>))
    \<Longrightarrow> wp (startupBlocker job moment) Q w"
  by (auto simp: startupBlocker_def wp_rules split: sum.splits)

lemma wp_orphanState:
  assumes "\<And>fs i. o_exists i = (sel j_id job (jobs (the_db w)) \<noteq> None) \<Longrightarrow>
      o_eligible i = eligible job (the_db w) \<Longrightarrow> o_leases i = orphan_leases job (the_db w) \<Longrightarrow>
      o_quotas i = orphan_quotas job (the_db w) \<Longrightarrow>
      (\<And>j. sel j_id job (jobs (the_db w)) = Some j \<Longrightarrow> o_state i = j_state j) \<Longrightarrow> Q i (w\<lparr>faults := fs\<rparr>)"
  shows "wp (orphanState job) Q w"
proof -
  have "(orphan_leases job d = []) = (\<forall>r\<in>set (leases d). l_job r \<noteq> job)"
    "(orphan_quotas job d = []) = (\<forall>q\<in>set (quota_pool_records d). q_job q \<noteq> job)" for d
    by (auto simp: orphan_leases_def orphan_quotas_def filter_empty_conv
        simp flip: set_empty [where 'a = "char list"] set_empty [where 'a = "leaseRow"])
  then show ?thesis
    by (auto simp: orphanState_def Let_def wp_rules eligible_def intro!: assms split: option.splits)
qed

lemma matchedStatuses_none:
  "fst (matchedStatuses agents job label) = [] \<longleftrightarrow> (\<forall>a\<in>set agents. \<not> agent_matches job label a)"
  "snd (matchedStatuses agents job label) \<longleftrightarrow> (\<exists>a\<in>set agents. agent_matches job label a)"
  by (auto simp: matchedStatuses_def Let_def filter_empty_conv simp flip: set_empty)

lemma hasStatus_iff:
  "hasStatus (fst (matchedStatuses agents job label)) s
    \<longleftrightarrow> (\<exists>a\<in>set agents. agent_matches job label a \<and> ag_Status a = s)"
  by (auto simp: hasStatus_def list_ex_iff matchedStatuses_def Let_def)

text \<open>
  The evidence a retirement needs: an exact label, no agent listed under it, a snapshot that still
  holds, and the startup grace over.
\<close>

definition retirable :: "Agent list \<Rightarrow> snapshots_map \<Rightarrow> time \<Rightarrow> db \<Rightarrow> string \<Rightarrow> bool" where
  "retirable agents snaps moment d job \<longleftrightarrow>
     (\<exists>label. claimAgentLabel_of (claim_events job d) = Inr label \<and> label \<noteq> []
        \<and> (\<forall>a\<in>set agents. \<not> agent_matches job label a))
     \<and> sameSnapshot (snap_at snaps job) (snapshot_of job d)
     \<and> (\<exists>ts. startup_times (startup_events job d) [] [] = Inr ts \<and> blocker_text moment ts = [])"

definition clock_at :: "world \<Rightarrow> time \<Rightarrow> world \<Rightarrow> bool" where
  "clock_at w moment v \<longleftrightarrow> (\<forall>t. mono_clock t w \<longrightarrow> t \<le> moment \<and> printable moment \<and> mono_clock moment v)"

lemma clock_at_read: "reads_clock w t ts \<Longrightarrow> clock_ok (w\<lparr>clock := ts\<rparr>) v \<Longrightarrow> clock_at w t v"
  using mono_clock_read by (auto simp: clock_at_def clock_ok_def)

lemma clock_simps [simp]:
  "clock_ok (w\<lparr>faults := fs\<rparr>) v = clock_ok w v" "clock_ok (upd_db f w) v = clock_ok w v"
  "clock_at (w\<lparr>faults := fs\<rparr>) t v = clock_at w t v"
  by (simp_all add: clock_ok_def clock_at_def)

lemma release_tables [simp]:
  "leases (release_job a c d) = leases d" "quota_pool_records (release_job a c d) = quota_pool_records d"
  "lease_history (release_job a c d) = lease_history d" "events (release_job a c d) = events d"
  "token_seq (release_job a c d) = token_seq d" "meta (release_job a c d) = meta d"
  by (simp_all add: release_job_def)

lemma snapshot_of_None: "snapshot_of job d = None \<longleftrightarrow> sel j_id job (jobs d) = None"
  by (simp add: snapshot_of_def)

lemma wp_record_orphan:
  "(\<And>e v x. the_db v = add_event e (release_job job (iso moment) (the_db w)) \<Longrightarrow>
      added_event job ''job.orphan_release'' e (the_db w) \<Longrightarrow> clock_ok w v \<Longrightarrow> Q x v)
    \<Longrightarrow> wp (record_orphan job prior dc forced moment) Q w"
  by (auto simp: record_orphan_def wp_rules added_event_def intro!: wp_event)

lemma release_orphan_tx_effect:
  "wp (release_orphan_tx job snaps agents) (\<lambda>_ v. \<exists>moment e. eligible job (the_db w)
     \<and> retirable agents snaps moment (the_db w) job \<and> clock_at w moment v
     \<and> added_event job ''job.orphan_release'' e (the_db w)
     \<and> the_db v = add_event e (release_job job (iso moment) (the_db w))) w" (is "wp _ (\<lambda>_. ?R) w")
proof -
  define R where "R = ?R"
  have RI: "R v" if "eligible job (the_db w)" "claimAgentLabel_of (claim_events job (the_db w)) = Inr label"
    "label \<noteq> []" "\<forall>a\<in>set agents. \<not> agent_matches job label a"
    "sameSnapshot (snap_at snaps job) (snapshot_of job (the_db w))"
    "startup_times (startup_events job (the_db w)) [] [] = Inr st" "blocker_text t st = []"
    "reads_clock w t ts" "clock_ok (w\<lparr>clock := ts\<rparr>) v"
    "added_event job ''job.orphan_release'' e (the_db w)"
    "the_db v = add_event e (release_job job (iso t) (the_db w))" for v label st t ts e
    unfolding R_def retirable_def using that clock_at_read by blast
  have "wp (release_orphan_tx job snaps agents) (\<lambda>_. R) w"
    unfolding release_orphan_tx_def Let_def
    by (auto simp: wp_rules orphan_blockers_def matchedStatuses_none snapshot_of_None
        intro!: wp_jobSnapshot wp_orphanState wp_claimAgentLabel wp_startupBlocker wp_record_orphan
        split: if_splits) (rule RI; assumption)
  then show ?thesis unfolding R_def .
qed

lemma release_claim_tx_effect:
  "wp (release_claim_tx job) (\<lambda>_ v. \<exists>moment e. in_state job ''claimed'' (the_db w)
     \<and> clock_at w moment v \<and> added_event job ''job.spawn_aborted'' e (the_db w)
     \<and> the_db v = add_event e (settled job moment (the_db w))) w"
proof (cases "sel j_id job (jobs (the_db w))")
  case (Some j)
  then have "j_state j = ''claimed'' \<Longrightarrow> in_state job ''claimed'' (the_db w)"
    by (auto simp: in_state_iff dest: sel_Some)
  moreover have "clock_at w t v" if "reads_clock w s ss" "reads_clock (w\<lparr>clock := ss\<rparr>) t ts" "clock_ok (w\<lparr>clock := ts\<rparr>) v"
    for s ss t ts v
    using that mono_clock_read [of _ w s ss] mono_clock_read [of s "w\<lparr>clock := ss\<rparr>" t ts]
    by (force simp: clock_at_def clock_ok_def)
  ultimately show ?thesis unfolding release_claim_tx_def using Some
    by (auto simp: wp_rules added_event_def intro!: wp_event) blast
qed (simp add: release_claim_tx_def wp_rules)

section \<open>Time\<close>

text \<open>
  \<open>settled_at t d\<close>: every lease of a job that is not leased has expired by \<open>t\<close>. With the clock
  moving forward this is kept, so a job that may be claimed again holds no live lease.
\<close>

definition settled_at :: "time \<Rightarrow> db \<Rightarrow> bool" where
  "settled_at t d \<longleftrightarrow> (\<forall>r\<in>set (leases d). \<not> in_state (l_job r) ''leased'' d \<longrightarrow> l_expires r \<le> iso t)"

definition timely :: "time \<Rightarrow> world \<Rightarrow> bool" where
  "timely t w \<longleftrightarrow> mono_clock t w \<and> printable t \<and> settled_at t (the_db w)"

lemma iso_mono: "printable s \<Longrightarrow> printable t \<Longrightarrow> s \<le> t \<Longrightarrow> iso s \<le> iso t"
  using iso_less_iff [of t s] zdiv_mono1 [of s t second] by (simp flip: not_less)

lemma settled_at_mono: "settled_at s d \<Longrightarrow> printable s \<Longrightarrow> printable t \<Longrightarrow> s \<le> t \<Longrightarrow> settled_at t d"
  unfolding settled_at_def using iso_mono order_trans by blast

named_theorems time_rules \<open>the effects keep the leases of settled jobs expired\<close>

lemma settled_at_effects [time_rules]:
  "settled_at t d \<Longrightarrow> settled_at t (add_event e d)"
  "settled_at t d \<Longrightarrow> settled_at t (archive_db h d)"
  "settled_at t d \<Longrightarrow> settled_at t (delete_lease a b d)"
  "settled_at t d \<Longrightarrow> settled_at t (delete_quota a b d)"
  "settled_at t d \<Longrightarrow> settled_at t (touch_job a at d)"
  "settled_at t d \<Longrightarrow> settled_at t (add_job j d)"
  by (auto simp: settled_at_def)

lemma settled_at_leased [time_rules]:
  "settled_at t d \<Longrightarrow> settled_at t (set_job_state job ''leased'' at (add_quota q d))"
  by (auto simp: settled_at_def in_state_key)

lemma settled_at_grant [time_rules]:
  "settled_at t d \<Longrightarrow> has_key j_id (l_job r) (jobs d) \<Longrightarrow>
    settled_at t (set_job_state (l_job r) ''leased'' at (grant r d))"
  by (auto simp: settled_at_def in_state_key)

lemma settled_at_settled [time_rules]: "settled_at t d \<Longrightarrow> settled_at t (settled job t d)"
proof (cases "held_count job (iso t) d > 0")
  case False
  then have "l_expires r \<le> iso t" if "r \<in> set (leases d)" "l_job r = job" for r
    using that by (auto simp: held_count_def filter_empty_conv not_less)
  then show "settled_at t d \<Longrightarrow> ?thesis" using False by (auto simp: settled_at_def settled_def)
qed (simp add: settled_def settled_at_effects)

lemma settled_at_reclaim [time_rules]:
  "settled_at t d \<Longrightarrow> \<not> in_state job ''leased'' d \<Longrightarrow> settled_at t (reclaim_job job lane level at d)"
  by (auto simp: settled_at_def)

lemma settled_at_release [time_rules]:
  "settled_at t d \<Longrightarrow> \<forall>r\<in>set (leases d). l_job r \<noteq> job \<Longrightarrow> settled_at t (set_job_state job s at d)"
  by (auto simp: settled_at_def)

lemma inv_settled [inv_rules]:
  assumes "db_inv d" "meta d \<noteq> NoMetaTable"
  shows "db_inv (settled job t d)"
proof (cases "held_count job (iso t) d > 0")
  case False
  then have "\<forall>q\<in>set (quota_pool_records d). q_job q \<noteq> job"
    by (auto simp: held_count_def filter_empty_conv)
  then show ?thesis using False assms by (simp add: settled_def inv_set_job_state job_states_def)
qed (simp add: settled_def inv_touch assms)

lemma evolves_settled [evolve_rules]: "evolves d (settled job t d)"
  by (simp add: settled_def evolves_updates)

section \<open>The contract of an operation\<close>

text \<open>
  An operation keeps the invariant and the audit evidence whatever its outcome, leaves the database
  alone when it is refused (it may have created it), and keeps the leases of settled jobs expired
  under a clock that moves forward.
\<close>

locale ledger_op =
  fixes m :: "'a ledger"
  assumes op_clock: "always clock_ok m"
    and op_inv: "db_inv (the_db w) \<Longrightarrow> m w = (r, v) \<Longrightarrow> db_inv (the_db v)"
    and op_audit: "db_inv (the_db w) \<Longrightarrow> m w = (r, v) \<Longrightarrow> evolves (the_db w) (the_db v)"
    and op_refused: "db_inv (the_db w) \<Longrightarrow> m w = (Inl e, v) \<Longrightarrow> booted w v"
    and op_time: "db_inv (the_db w) \<Longrightarrow> timely t w \<Longrightarrow> m w = (r, v) \<Longrightarrow> \<exists>u\<ge>t. timely u v"
begin

text \<open>A lease a client was granted is afterwards live or in the history, unchanged.\<close>

lemma grant_accounted:
  "db_inv (the_db w) \<Longrightarrow> m w = (r, v) \<Longrightarrow> l \<in> set (granted (the_db w)) \<Longrightarrow> l \<in> set (granted (the_db v))"
  using op_audit [of w r v] by (auto simp: evolves_def granted_def)

text \<open>Tokens a client saw are never granted to another lease.\<close>

lemma token_kept:
  assumes "db_inv (the_db w)" "m w = (r, v)" "l \<in> set (granted (the_db w))" "k \<in> set (granted (the_db v))"
    "token_no (l_token k) = token_no (l_token l)"
  shows "k = l"
  using op_inv [OF assms(1,2)] grant_accounted [OF assms(1-3)] assms(4,5)
  by (auto simp: db_inv_def tokens_ok_def)

end

definition body_ok :: "'a ledger \<Rightarrow> bool" where
  "body_ok m \<longleftrightarrow> always clock_ok m
     \<and> (\<forall>w r v. db_inv (the_db w) \<longrightarrow> schema_ok (the_db w) \<longrightarrow> m w = (r, v) \<longrightarrow>
          db_inv (the_db v) \<and> evolves (the_db w) (the_db v) \<and> (\<forall>e. r = Inl e \<longrightarrow> the_db v = the_db w)
          \<and> (\<forall>t. timely t w \<longrightarrow> (\<exists>u\<ge>t. timely u v)))"

definition tx_ok :: "'a ledger \<Rightarrow> bool" where
  "tx_ok tx \<longleftrightarrow> always clock_ok tx
     \<and> (\<forall>w. db_inv (the_db w) \<longrightarrow> schema_ok (the_db w) \<longrightarrow>
          wp tx (\<lambda>_ v. db_inv (the_db v) \<and> evolves (the_db w) (the_db v)
            \<and> (\<forall>t. timely t w \<longrightarrow> (\<exists>u\<ge>t. timely u v))) w)"

definition tx_at :: "(time \<Rightarrow> 'a ledger) \<Rightarrow> bool" where
  "tx_at tx \<longleftrightarrow> (\<forall>moment. always clock_ok (tx moment)
     \<and> (\<forall>w. db_inv (the_db w) \<longrightarrow> schema_ok (the_db w) \<longrightarrow>
          wp (tx moment) (\<lambda>_ v. db_inv (the_db v) \<and> evolves (the_db w) (the_db v)
            \<and> (settled_at moment (the_db w) \<longrightarrow> settled_at moment (the_db v))) w))"

lemma tx_okD:
  "tx_ok tx \<Longrightarrow> db_inv (the_db w) \<Longrightarrow> schema_ok (the_db w) \<Longrightarrow>
    wp tx (\<lambda>_ v. db_inv (the_db v) \<and> evolves (the_db w) (the_db v) \<and> (\<forall>t. timely t w \<longrightarrow> (\<exists>u\<ge>t. timely u v))) w"
  by (simp add: tx_ok_def)

lemma tx_atD:
  "tx_at tx \<Longrightarrow> db_inv (the_db w) \<Longrightarrow> schema_ok (the_db w) \<Longrightarrow>
    wp (tx t) (\<lambda>_ v. db_inv (the_db v) \<and> evolves (the_db w) (the_db v)
      \<and> (settled_at t (the_db w) \<longrightarrow> settled_at t (the_db v))) w"
  by (simp add: tx_at_def)

lemma timely_same: "timely t w \<Longrightarrow> clock_ok w v \<Longrightarrow> the_db v = the_db w \<Longrightarrow> timely t v"
  by (auto simp: timely_def clock_ok_def)

lemma timely_simps [simp]: "timely t (w\<lparr>faults := fs\<rparr>) = timely t w"
  by (simp add: timely_def)

lemma wp_db_writeI:
  "(\<And>fs. wp tx Q (w\<lparr>faults := fs\<rparr>)) \<Longrightarrow> (\<And>x v fs. Q x v \<Longrightarrow> Q x (v\<lparr>faults := fs\<rparr>)) \<Longrightarrow> wp (db_write tx) Q w"
  by (simp add: wp_rules) (blast intro: wp_mono)

lemma db_write_refused: "db_write tx w = (Inl e, v) \<Longrightarrow> the_db v = the_db w"
  by (drule db_write_atomic) (simp add: the_db_def)

lemma body_db_write:
  assumes "tx_ok tx"
  shows "body_ok (db_write tx)"
proof -
  have c: "always clock_ok (db_write tx)" using assms by (simp add: tx_ok_def db_write_clock)
  have "db_inv (the_db v) \<and> evolves (the_db w) (the_db v) \<and> (\<forall>e. r = Inl e \<longrightarrow> the_db v = the_db w)
      \<and> (\<forall>t. timely t w \<longrightarrow> (\<exists>u\<ge>t. timely u v))"
    if w: "db_inv (the_db w)" "schema_ok (the_db w)" and r: "db_write tx w = (r, v)" for w r v
  proof (cases r)
    case (Inl e)
    then have same: "the_db v = the_db w" using db_write_refused r by blast
    show ?thesis using w same timely_same [OF _ alwaysD [OF c r] same] by (auto simp: evolves_refl)
  next
    case (Inr x)
    have "wp tx (\<lambda>_ v. db_inv (the_db v) \<and> evolves (the_db w) (the_db v)
        \<and> (\<forall>t. timely t w \<longrightarrow> (\<exists>u\<ge>t. timely u v))) (w\<lparr>faults := fs\<rparr>)" for fs
      using tx_okD [OF assms, of "w\<lparr>faults := fs\<rparr>"] w by simp
    then have "wp (db_write tx) (\<lambda>_ v. db_inv (the_db v) \<and> evolves (the_db w) (the_db v)
        \<and> (\<forall>t. timely t w \<longrightarrow> (\<exists>u\<ge>t. timely u v))) w"
      by (rule wp_db_writeI) simp
    from wpD [OF this r [unfolded Inr]] show ?thesis using Inr by simp
  qed
  then show ?thesis unfolding body_ok_def using c by blast
qed

lemma body_bind_clock:
  assumes "tx_at tx"
  shows "body_ok (bindA store_now (\<lambda>moment. db_write (tx moment)))"
proof -
  have c: "always clock_ok (bindA store_now (\<lambda>moment. db_write (tx moment)))"
    using assms by (intro clock_rules db_write_clock) (auto simp: tx_at_def)
  have "db_inv (the_db v) \<and> evolves (the_db w) (the_db v) \<and> (\<forall>e. r = Inl e \<longrightarrow> the_db v = the_db w)
      \<and> (\<forall>t. timely t w \<longrightarrow> (\<exists>u\<ge>t. timely u v))"
    if w: "db_inv (the_db w)" "schema_ok (the_db w)"
      and r: "bindA store_now (\<lambda>moment. db_write (tx moment)) w = (r, v)" for w r v
  proof -
    obtain t ts where t: "store_now w = (Inr t, w\<lparr>clock := ts\<rparr>)" using store_now_result by blast
    let ?u = "w\<lparr>clock := ts\<rparr>"
    have read: "reads_clock w t ts" using t by (simp add: reads_clock_def)
    have r': "db_write (tx t) ?u = (r, v)" using r t by (simp add: bindA_def)
    have ct: "always clock_ok (tx t)" using assms by (simp add: tx_at_def)
    have time: "timely t ?u" if s: "timely s w" "s \<le> t" for s
    proof -
      have "mono_clock s w" "printable s" "settled_at s (the_db w)" using s(1) by (simp_all add: timely_def)
      with mono_clock_read [OF this(1) read] show ?thesis
        using settled_at_mono s(2) by (simp add: timely_def)
    qed
    show ?thesis
    proof (cases r)
      case (Inl e)
      then have same: "the_db v = the_db w" using db_write_refused [of "tx t" ?u e v] r' by simp
      show ?thesis using w same timely_same [OF _ alwaysD [OF c r] same] by (auto simp: evolves_refl)
    next
      case (Inr x)
      have "wp (tx t) (\<lambda>_ v. db_inv (the_db v) \<and> evolves (the_db w) (the_db v)
          \<and> (settled_at t (the_db w) \<longrightarrow> settled_at t (the_db v))) (?u\<lparr>faults := fs\<rparr>)" for fs
        using tx_atD [OF assms, of "?u\<lparr>faults := fs\<rparr>" t] w by simp
      then have "wp (db_write (tx t)) (\<lambda>_ v. db_inv (the_db v) \<and> evolves (the_db w) (the_db v)
          \<and> (settled_at t (the_db w) \<longrightarrow> settled_at t (the_db v))) ?u"
        by (rule wp_db_writeI) simp
      from wpD [OF this r' [unfolded Inr]] have v: "db_inv (the_db v)" "evolves (the_db w) (the_db v)"
        "settled_at t (the_db w) \<longrightarrow> settled_at t (the_db v)" by auto
      have late: "timely t v" "s \<le> t" if s: "timely s w" for s
      proof -
        show le: "s \<le> t" using mono_clock_read(1) [OF _ read] s by (simp add: timely_def)
        have "mono_clock t v"
          using alwaysD [OF db_write_clock [OF ct] r'] time [OF s le] by (simp add: timely_def clock_ok_def)
        then show "timely t v" using time [OF s le] v(3) by (simp add: timely_def)
      qed
      show ?thesis using v(1,2) Inr late by (intro conjI allI impI exI [of _ t]) simp_all
    qed
  qed
  then show ?thesis unfolding body_ok_def using c by blast
qed

lemma op_rw:
  assumes "body_ok m"
  shows "ledger_op (thenA (rw b) m)"
proof -
  have c: "always clock_ok (thenA (rw b) m)" using assms by (intro clock_rules rw_clock) (simp add: body_ok_def)
  have *: "db_inv (the_db v) \<and> evolves (the_db w) (the_db v) \<and> (\<forall>e. r = Inl e \<longrightarrow> booted w v)
      \<and> (\<forall>t. timely t w \<longrightarrow> (\<exists>u\<ge>t. timely u v))"
    if w: "db_inv (the_db w)" and r: "thenA (rw b) m w = (r, v)" for w r v
  proof -
    obtain s u where s: "rw b w = (s, u)" by (cases "rw b w") auto
    have u: "db_inv (the_db u)" "evolves (the_db w) (the_db u)" "booted w u"
      using alwaysD [OF rw_booted s] w inv_boot evolves_boot evolves_refl by (auto simp: booted_def)
    have "settled_at t (boot d) = settled_at t d" for t d
      by (simp add: settled_at_def boot_def in_state_def)
    then have time: "timely t u" if "timely t w" for t
      using that u(3) alwaysD [OF rw_clock s] by (auto simp: timely_def clock_ok_def booted_def)
    show ?thesis
    proof (cases s)
      case (Inl e)
      then show ?thesis using r s u time by (auto simp: thenA_def bindA_def)
    next
      case (Inr x)
      then have mu: "m u = (r, v)" using r s by (simp add: thenA_def bindA_def)
      moreover have "schema_ok (the_db u)" using rw_spec(2) s Inr by blast
      ultimately have v: "db_inv (the_db v)" "evolves (the_db u) (the_db v)"
        "\<And>e. r = Inl e \<Longrightarrow> the_db v = the_db u" "\<And>t. timely t u \<Longrightarrow> \<exists>u\<ge>t. timely u v"
        using assms u(1) unfolding body_ok_def by blast+
      have "booted w v" if "r = Inl e" for e using u(3) v(3) [OF that] by (simp add: booted_def)
      then show ?thesis using v(1,4) time evolves_trans [OF u(2) v(2)] by blast
    qed
  qed
  show ?thesis by unfold_locales (use * c in \<open>blast+\<close>)
qed

lemma op_throw: "ledger_op (throw e)"
  by unfold_locales (rule clk.always_throw, auto simp: throw_def evolves_refl booted_def)

lemma op_if: "ledger_op m \<Longrightarrow> ledger_op n \<Longrightarrow> ledger_op (if b then m else n)"
  by simp

lemma op_check: "(\<And>x. ledger_op (k x)) \<Longrightarrow> ledger_op (bindA (liftE c) k)"
  by (cases c) (use op_throw in \<open>auto simp: bindA_def liftE_def throw_def\<close>)

section \<open>Every operation keeps the contract\<close>

lemma schema_meta: "schema_ok d \<Longrightarrow> meta d \<noteq> NoMetaTable"
  by (simp add: schema_ok_def)

lemma tables_eq [simp]:
  "meta (acquire_effect req m tok d) = meta d" "events (acquire_effect req m tok d) = events d"
  "meta (retired r s m d) = meta d" "events (retired r s m d) = events d"
  by (simp_all add: acquire_effect_def cleared_def retired_def split: option.splits)

text \<open>An effect and its event, from a database with the invariant.\<close>

definition effect_ok :: "time \<Rightarrow> db \<Rightarrow> db \<Rightarrow> bool" where
  "effect_ok t d d' \<longleftrightarrow> (db_inv d \<longrightarrow> schema_ok d \<longrightarrow>
     db_inv d' \<and> evolves d d' \<and> (settled_at t d \<longrightarrow> settled_at t d'))"

lemma effect_okI:
  assumes "added_event job kind e d" "meta c = meta d" "events c = events d"
    and "db_inv d \<Longrightarrow> schema_ok d \<Longrightarrow> db_inv c" "db_inv d \<Longrightarrow> schema_ok d \<Longrightarrow> evolves d c"
    and "db_inv d \<Longrightarrow> schema_ok d \<Longrightarrow> settled_at t d \<Longrightarrow> settled_at t c"
  shows "effect_ok t d (add_event e c)"
  unfolding effect_ok_def
proof (intro impI conjI)
  assume d: "db_inv d" "schema_ok d"
  show "db_inv (add_event e c)"
    using assms(1-3) assms(4) [OF d] schema_meta [OF d(2)] by (intro inv_add_event) (auto simp: added_event_def)
  show "evolves d (add_event e c)" using evolves_trans [OF assms(5) [OF d] evolves_add_event] .
  show "settled_at t (add_event e c)" if "settled_at t d"
    using settled_at_effects(1) [OF assms(6) [OF d that]] .
qed

lemma tx_atI:
  assumes "\<And>t. always clock_ok (tx t)" "\<And>t w. wp (tx t) (\<lambda>_ v. effect_ok t (the_db w) (the_db v)) w"
  shows "tx_at tx"
  unfolding tx_at_def
  by (intro conjI allI impI assms(1)) (rule wp_mono [OF assms(2)], simp add: effect_ok_def)

lemma lease_row_simps [simp]:
  "l_job (lease_row req m tok) = rq_Job req" "l_kind (lease_row req m tok) = rq_Kind req"
  "lease_key (lease_row req m tok) = (rq_Resource req, rq_Kind req)" "l_token (lease_row req m tok) = tok"
  by (simp_all add: lease_row_def lease_key_def)

lemma retired_facts:
  assumes "db_inv d" "meta d \<noteq> NoMetaTable" "sel lease_key k (leases d) = Some r"
  shows "db_inv (retired r s m d)" "evolves d (retired r s m d)" "settled_at t d \<Longrightarrow> settled_at t (retired r s m d)"
    "leases (retired r s m d) = del lease_key k (leases d)" "jobs (retired r s m d) = jobs d"
    "token_seq (retired r s m d) = token_seq d" "quota_pool_records (retired r s m d) = quota_pool_records d"
proof -
  have r: "r \<in> set (leases d)" "lease_key r = k" using sel_Some [OF assms(3)] by auto
  then have k: "k = (l_resource r, l_kind r)" by (simp add: lease_key_def)
  show "db_inv (retired r s m d)" "settled_at t d \<Longrightarrow> settled_at t (retired r s m d)"
    using r(1) assms by (auto simp: retired_def audit_row_def intro!: inv_rules time_rules)
  show "evolves d (retired r s m d)"
    using assms k evolves_retire [of d "l_resource r" "l_kind r" "audit_row r s m"]
    by (simp add: retired_def audit_row_def)
qed (use sel_Some [OF assms(3)] in \<open>auto simp: retired_def lease_key_def\<close>)

lemma cleared_simps [simp]: "cleared None m d = d" "cleared (Some r) m d = retired r ''superseded'' m d"
  by (simp_all add: cleared_def retired_def)

lemma cleared_facts:
  assumes "db_inv d" "meta d \<noteq> NoMetaTable" "sel lease_key k (leases d) = held"
  shows "db_inv (cleared held m d)" "evolves d (cleared held m d)" "settled_at t d \<Longrightarrow> settled_at t (cleared held m d)"
    "\<not> has_key lease_key k (leases (cleared held m d))"
    "jobs (cleared held m d) = jobs d" "token_seq (cleared held m d) = token_seq d" "meta (cleared held m d) = meta d"
  using assms retired_facts [OF assms(1,2), of k]
  by (cases held; simp add: sel_None evolves_refl)+

lemma acquire_effect_ok:
  assumes "db_inv d" "schema_ok d" "acquirable req m d" "exclusive_kind (rq_Kind req)"
    and tok: "tok = token_text (token_seq d + 1) b"
  shows "db_inv (acquire_effect req m tok d)" "evolves d (acquire_effect req m tok d)"
    "settled_at t d \<Longrightarrow> settled_at t (acquire_effect req m tok d)"
proof -
  let ?c = "cleared (sel lease_key (rq_Resource req, rq_Kind req) (leases d)) m d"
  let ?r = "lease_row req m tok"
  note c = cleared_facts [OF assms(1) schema_meta [OF assms(2)] refl, where k = "(rq_Resource req, rq_Kind req)" and m = m]
  have j: "has_key j_id (rq_Job req) (jobs d)" using assms(3) by (simp add: acquirable_def)
  have g: "db_inv (grant ?r ?c)"
    using c(1,4-7) assms(4) j schema_meta [OF assms(2)] by (intro inv_grant [of _ _ b]) (simp_all add: tok)
  then show "db_inv (acquire_effect req m tok d)"
    using schema_meta [OF assms(2)] c(7)
    by (simp add: acquire_effect_def inv_set_job_state job_states_def)
  show "evolves d (acquire_effect req m tok d)"
    unfolding acquire_effect_def
    by (intro evolves_trans [OF _ evolves_updates(1)] evolves_trans [OF _ evolves_grant] c(2))
  show "settled_at t (acquire_effect req m tok d)" if "settled_at t d"
    unfolding acquire_effect_def using settled_at_grant [of t ?c ?r] c(3) [OF that] c(5) j by simp
qed

lemmas tx_clock = clock_rules recordEvent_clock nextToken_clock

lemma acquire_tx_at:
  assumes "exclusive_kind (rq_Kind req)"
  shows "tx_at (acquire_tx req)"
proof (rule tx_atI)
  show "always clock_ok (acquire_tx req t)" for t
    unfolding acquire_tx_def requireJob_def getLease_def supersede_def archive_def insert_lease_def Let_def
    by (intro tx_clock)
  show "wp (acquire_tx req t) (\<lambda>_ v. effect_ok t (the_db w) (the_db v)) w" for t w
  proof (rule wp_mono [OF acquire_tx_effect], elim conjE exE)
    fix l v b e
    assume a: "acquirable req t (the_db w)" and tok: "gl_Token l = token_text (token_seq (the_db w) + 1) b"
      and e: "added_event (rq_Job req) ''lease.acquire'' e (the_db w)"
      and v: "the_db v = add_event e (acquire_effect req t (gl_Token l) (the_db w))"
    show "effect_ok t (the_db w) (the_db v)"
      unfolding v using acquire_effect_ok [OF _ _ a assms tok] by (intro effect_okI [OF e]) simp_all
  qed
qed

lemma release_tx_at: "tx_at (release_tx job resource kind token force)"
proof (rule tx_atI)
  show "always clock_ok (release_tx job resource kind token force t)" for t
    unfolding release_tx_def getLease_def archive_def settleJob_def Let_def by (intro tx_clock)
  show "wp (release_tx job resource kind token force t) (\<lambda>_ v. effect_ok t (the_db w) (the_db v)) w" for t w
  proof (rule wp_mono [OF release_tx_effect], elim conjE exE)
    fix v r e
    let ?s = "if force then ''force-released'' else ''released''"
    let ?k = "if force then ''lease.release.force'' else ''lease.release''"
    assume r: "releasable job resource kind token force (the_db w) r"
      and e: "added_event (l_job r) ?k e (the_db w)"
      and v: "the_db v = add_event e (settled (l_job r) t (retired r ?s t (the_db w)))"
    have s: "sel lease_key (resource, kind) (leases (the_db w)) = Some r" using r by (simp add: releasable_def)
    note f = retired_facts [OF _ schema_meta s]
    show "effect_ok t (the_db w) (the_db v)"
      unfolding v using f schema_meta
      by (intro effect_okI [OF e] inv_settled evolves_trans [OF _ evolves_settled] settled_at_settled) simp_all
  qed
qed

lemma record_quota_tx_at: "tx_at (record_quota_tx q)"
proof (rule tx_atI)
  show "always clock_ok (record_quota_tx q t)" for t
    unfolding record_quota_tx_def requireJob_def insert_quota_def Let_def by (intro tx_clock)
  show "wp (record_quota_tx q t) (\<lambda>_ v. effect_ok t (the_db w) (the_db v)) w" for t w
  proof (rule wp_mono [OF record_quota_tx_effect], elim conjE exE)
    fix v e
    assume k: "has_key j_id (qr_Job q) (jobs (the_db w))"
        "\<not> has_key quota_key (qr_Job q, g_Pool (qr_Gate q)) (quota_pool_records (the_db w))"
      and e: "added_event (qr_Job q) ''quota_pool.record'' e (the_db w)"
      and v: "the_db v = add_event e (set_job_state (qr_Job q) ''leased'' (iso t) (add_quota (quota_entry q t) (the_db w)))"
    have j: "qr_Job q = q_job (quota_entry q t)" "quota_key (quota_entry q t) = (qr_Job q, g_Pool (qr_Gate q))"
      by (simp_all add: quota_entry_def quota_key_def)
    show "effect_ok t (the_db w) (the_db v)"
      unfolding v using k j inv_add_quota [of "the_db w" "quota_entry q t"] schema_meta
      by (intro effect_okI [OF e] evolves_trans [OF _ evolves_updates(1)] evolves_add_quota settled_at_leased) simp_all
  qed
qed

lemma release_quota_tx_at: "tx_at (release_quota_tx job pool force)"
proof (rule tx_atI)
  show "always clock_ok (release_quota_tx job pool force t)" for t
    unfolding release_quota_tx_def settleJob_def Let_def by (intro tx_clock)
  show "wp (release_quota_tx job pool force t) (\<lambda>_ v. effect_ok t (the_db w) (the_db v)) w" for t w
  proof (rule wp_mono [OF release_quota_tx_effect], elim conjE exE)
    fix v e
    let ?k = "if force then ''quota_pool.release.force'' else ''quota_pool.release''"
    assume e: "added_event job ?k e (the_db w)"
      and v: "the_db v = add_event e (settled job t (delete_quota job pool (the_db w)))"
    show "effect_ok t (the_db w) (the_db v)"
      unfolding v using schema_meta
      by (intro effect_okI [OF e] inv_settled inv_delete_quota evolves_trans [OF _ evolves_settled]
          evolves_delete_quota settled_at_settled settled_at_effects) simp_all
  qed
qed

lemma released_not_leased:
  assumes "db_inv d" "sel j_id job (jobs d) = Some j" "j_state j \<noteq> ''leased''"
  shows "\<not> in_state job ''leased'' d" "\<forall>q\<in>set (quota_pool_records d). q_job q \<noteq> job"
proof -
  have "j \<in> set (jobs d)" "j_id j = job" using sel_Some [OF assms(2)] by auto
  then show n: "\<not> in_state job ''leased'' d"
    using assms(1,3) unique_eq [of j_id "jobs d"] by (auto simp: in_state_iff db_inv_parts)
  then show "\<forall>q\<in>set (quota_pool_records d). q_job q \<noteq> job" using assms(1) by (auto simp: db_inv_parts)
qed

lemma claim_tx_at: "tx_at (claim_tx cl)"
proof (rule tx_atI)
  show "always clock_ok (claim_tx cl t)" for t
    unfolding claim_tx_def insert_job_def Let_def by (intro tx_clock)
  show "wp (claim_tx cl t) (\<lambda>_ v. effect_ok t (the_db w) (the_db v)) w" for t w
  proof (rule wp_mono [OF claim_tx_effect], elim exE)
    fix res v e
    assume *: "if cr_Reclaimed res
     then cl_ReclaimReleased cl
       \<and> (\<exists>j. sel j_id (cl_Job cl) (jobs (the_db w)) = Some j \<and> j_state j = ''released'' \<and> cr_CreatedAt res = j_created_at j)
       \<and> added_event (cl_Job cl) ''job.reclaim'' e (the_db w)
       \<and> the_db v = add_event e (reclaim_job (cl_Job cl) (cl_Lane cl) (cl_T cl) (iso t) (the_db w))
     else \<not> has_key j_id (cl_Job cl) (jobs (the_db w)) \<and> added_event (cl_Job cl) ''job.claim'' e (the_db w)
       \<and> the_db v = add_event e (add_job (job_entry cl t) (the_db w))"
    show "effect_ok t (the_db w) (the_db v)"
    proof (cases "cr_Reclaimed res")
      case True
      with * obtain j where j: "sel j_id (cl_Job cl) (jobs (the_db w)) = Some j" "j_state j = ''released''"
        and e: "added_event (cl_Job cl) ''job.reclaim'' e (the_db w)"
        and v: "the_db v = add_event e (reclaim_job (cl_Job cl) (cl_Lane cl) (cl_T cl) (iso t) (the_db w))" by auto
      show ?thesis
        unfolding v using released_not_leased [OF _ j(1)] j(2) schema_meta
        by (intro effect_okI [OF e] inv_reclaim evolves_updates settled_at_reclaim) simp_all
    next
      case False
      with * have n: "\<not> has_key j_id (cl_Job cl) (jobs (the_db w))"
        and e: "added_event (cl_Job cl) ''job.claim'' e (the_db w)"
        and v: "the_db v = add_event e (add_job (job_entry cl t) (the_db w))" by simp_all
      show ?thesis
        unfolding v using n schema_meta
        by (intro effect_okI [OF e] inv_add_job evolves_add_job settled_at_effects) (simp_all add: job_entry_def)
    qed
  qed
qed

lemma effect_timely:
  assumes "db_inv (the_db w)" "schema_ok (the_db w)" "clock_at w t v" "effect_ok t (the_db w) (the_db v)"
  shows "db_inv (the_db v) \<and> evolves (the_db w) (the_db v) \<and> (\<forall>s. timely s w \<longrightarrow> (\<exists>u\<ge>s. timely u v))"
proof -
  have "s \<le> t \<and> timely t v" if s: "timely s w" for s
  proof -
    have t: "s \<le> t" "printable t" "mono_clock t v" using s assms(3) by (auto simp: clock_at_def timely_def)
    then have "settled_at t (the_db w)" using s settled_at_mono by (auto simp: timely_def)
    then show ?thesis using t assms by (simp add: timely_def effect_ok_def)
  qed
  then show ?thesis using assms by (auto simp: effect_ok_def)
qed

lemma tx_okI:
  assumes "always clock_ok tx"
    and "\<And>w. wp tx (\<lambda>_ v. \<exists>t. clock_at w t v \<and> effect_ok t (the_db w) (the_db v)) w"
  shows "tx_ok tx"
  unfolding tx_ok_def
  by (intro conjI allI impI assms(1)) (rule wp_mono [OF assms(2)], elim exE conjE, rule effect_timely)

lemma recordEvent_tx_ok: "tx_ok (recordEvent job kind payload seq)"
proof -
  have "wp (recordEvent job kind payload seq) (\<lambda>_ v. db_inv (the_db v) \<and> evolves (the_db w) (the_db v)
      \<and> (\<forall>t. timely t w \<longrightarrow> (\<exists>u\<ge>t. timely u v))) w"
    if w: "db_inv (the_db w)" "schema_ok (the_db w)" for w
  proof (rule wp_event)
    fix e v
    assume v: "the_db v = add_event e (the_db w)" and e: "\<not> has_key event_key (event_key e) (events (the_db w))"
      and c: "clock_ok w v"
    have "effect_ok s (the_db w) (the_db v)" for s
      unfolding v by (rule effect_okI [of "e_job e" "e_kind e"]) (use e in \<open>auto simp: added_event_def evolves_refl\<close>)
    then show "db_inv (the_db v) \<and> evolves (the_db w) (the_db v) \<and> (\<forall>t. timely t w \<longrightarrow> (\<exists>u\<ge>t. timely u v))"
      using w c by (auto simp: effect_ok_def timely_def clock_ok_def)
  qed
  then show ?thesis using recordEvent_clock by (simp add: tx_ok_def)
qed

lemma release_claim_tx_ok: "tx_ok (release_claim_tx job)"
proof (rule tx_okI)
  show "always clock_ok (release_claim_tx job)"
    unfolding release_claim_tx_def settleJob_def by (intro tx_clock)
  fix w
  show "wp (release_claim_tx job) (\<lambda>_ v. \<exists>t. clock_at w t v \<and> effect_ok t (the_db w) (the_db v)) w"
  proof (rule wp_mono [OF release_claim_tx_effect], elim exE conjE)
    fix v t e
    assume c: "clock_at w t v" and e: "added_event job ''job.spawn_aborted'' e (the_db w)"
      and v: "the_db v = add_event e (settled job t (the_db w))"
    have "effect_ok t (the_db w) (the_db v)"
      unfolding v using schema_meta
      by (intro effect_okI [OF e] inv_settled evolves_settled settled_at_settled) simp_all
    then show "\<exists>t. clock_at w t v \<and> effect_ok t (the_db w) (the_db v)" using c by blast
  qed
qed

lemma eligible_in_state: "eligible job d \<Longrightarrow> in_state job ''leased'' d"
  by (auto simp: eligible_def in_state_iff dest: sel_Some)

lemma release_job_facts:
  assumes "db_inv d" "schema_ok d" "eligible job d"
  shows "release_job job at d = set_job_state job ''released'' at d" "db_inv (release_job job at d)"
    "evolves d (release_job job at d)" "settled_at t d \<Longrightarrow> settled_at t (release_job job at d)"
proof -
  show r: "release_job job at d = set_job_state job ''released'' at d"
    using assms(1) eligible_in_state [OF assms(3)] by (intro release_job_eq) (simp_all add: db_inv_parts)
  show "db_inv (release_job job at d)" "evolves d (release_job job at d)"
    "settled_at t d \<Longrightarrow> settled_at t (release_job job at d)"
    unfolding r using assms schema_meta
    by (auto simp: eligible_def job_states_def intro!: inv_set_job_state evolves_updates settled_at_release)
qed

lemma release_orphan_tx_ok: "tx_ok (release_orphan_tx job snaps agents)"
proof (rule tx_okI)
  show "always clock_ok (release_orphan_tx job snaps agents)"
    unfolding release_orphan_tx_def jobSnapshot_def orphanState_def claimAgentLabel_def startupBlocker_def
      record_orphan_def Let_def by (intro tx_clock)
  fix w
  show "wp (release_orphan_tx job snaps agents) (\<lambda>_ v. \<exists>t. clock_at w t v \<and> effect_ok t (the_db w) (the_db v)) w"
  proof (rule wp_mono [OF release_orphan_tx_effect], elim exE conjE)
    fix v t e
    assume c: "clock_at w t v" and e: "added_event job ''job.orphan_release'' e (the_db w)"
      and el: "eligible job (the_db w)" and v: "the_db v = add_event e (release_job job (iso t) (the_db w))"
    have "effect_ok t (the_db w) (the_db v)"
      unfolding v by (intro effect_okI [OF e]) (use release_job_facts [OF _ _ el] in simp_all)
    then show "\<exists>t. clock_at w t v \<and> effect_ok t (the_db w) (the_db v)" using c by blast
  qed
qed

end
