(* ===== verification/Arb_Retire.thy ===== *)
theory Arb_Retire
  imports Arb_Ledger
begin

text \<open>
  What one pass of \<open>GC\<close> does to the ledger: the three loops of its transaction keep the invariant,
  leave every live lease row in place, and delete a quota-pool record or release a job only on the
  evidence \<open>retirable\<close> names.
\<close>

section \<open>The effect of a pass\<close>

text \<open>
  \<open>gc_step P d d'\<close>: leases stay, records only go, and a record or a lease state is given up only
  for a job that satisfies \<open>P\<close>; a released job holds nothing.
\<close>

definition gc_step :: "(string \<Rightarrow> bool) \<Rightarrow> db \<Rightarrow> db \<Rightarrow> bool" where
  "gc_step P d d' \<longleftrightarrow> leases d' = leases d \<and> meta d' = meta d
     \<and> set (quota_pool_records d') \<subseteq> set (quota_pool_records d)
     \<and> (\<forall>q\<in>set (quota_pool_records d). q \<in> set (quota_pool_records d') \<or> P (q_job q))
     \<and> (\<forall>job s. in_state job s d \<longrightarrow> in_state job s d'
          \<or> s = ''leased'' \<and> P job \<and> in_state job ''released'' d' \<and> (\<forall>r\<in>set (leases d'). l_job r \<noteq> job)
            \<and> (\<forall>q\<in>set (quota_pool_records d'). q_job q \<noteq> job))"

definition gc_rel :: "(string \<Rightarrow> bool) \<Rightarrow> time \<Rightarrow> world \<Rightarrow> world \<Rightarrow> bool" where
  "gc_rel P t w v \<longleftrightarrow> gc_step P (the_db w) (the_db v) \<and> effect_ok t (the_db w) (the_db v) \<and> clock_ok w v"

lemma gc_step_refl: "gc_step P d d"
  by (simp add: gc_step_def)

lemma gc_step_trans: "gc_step P a b \<Longrightarrow> gc_step P b c \<Longrightarrow> gc_step P a c"
  unfolding gc_step_def by (intro conjI allI impI ballI; elim conjE) (simp, simp, blast, blast, (smt (verit) subsetD))

lemma effect_ok_trans:
  "effect_ok t a b \<Longrightarrow> effect_ok t b c \<Longrightarrow> meta b = meta a \<Longrightarrow> effect_ok t a c"
  unfolding effect_ok_def schema_ok_def by (auto intro: evolves_trans)

lemma gc_rel_refl: "gc_rel P t w w"
  by (simp add: gc_rel_def gc_step_refl effect_ok_def evolves_refl)

lemma gc_rel_trans: "gc_rel P t w v \<Longrightarrow> gc_rel P t v u \<Longrightarrow> gc_rel P t w u"
  unfolding gc_rel_def using gc_step_trans effect_ok_trans clk.related_trans by (metis gc_step_def)

lemma gc_rel_faults [simp]: "gc_rel P t (w\<lparr>faults := fs\<rparr>) v = gc_rel P t w v" "gc_rel P t w (v\<lparr>faults := fs\<rparr>) = gc_rel P t w v"
  by (simp_all add: gc_rel_def clock_ok_def)

lemma gc_step_event [simp]: "gc_step P d (add_event e c) = gc_step P d c"
  by (simp add: gc_step_def)

text \<open>One effect with its event is such a step.\<close>

lemma gc_rel_event:
  assumes "gc_step P (the_db w) c" "added_event job kind e (the_db w)" "the_db v = add_event e c" "clock_ok w v"
    "events c = events (the_db w)"
    "db_inv (the_db w) \<Longrightarrow> schema_ok (the_db w) \<Longrightarrow> db_inv c \<and> evolves (the_db w) c \<and> (settled_at t (the_db w) \<longrightarrow> settled_at t c)"
  shows "gc_rel P t w v"
proof -
  have m: "meta c = meta (the_db w)" using assms(1) by (simp add: gc_step_def)
  have "effect_ok t (the_db w) (the_db v)"
    unfolding assms(3) by (rule effect_okI [OF assms(2) m assms(5)]) (use assms(6) in auto)
  then show ?thesis using assms(1,3,4) by (simp add: gc_rel_def)
qed


section \<open>First pass: expiry\<close>

text \<open>The tables the guards read: jobs, records, and the claim and spawn events.\<close>

definition only_expired :: "db \<Rightarrow> db \<Rightarrow> bool" where
  "only_expired d d' \<longleftrightarrow> jobs d' = jobs d \<and> quota_pool_records d' = quota_pool_records d \<and> leases d' = leases d
     \<and> (\<exists>es. events d' = events d @ es \<and> (\<forall>e\<in>set es. e_kind e = ''lease.expire''))"

lemma only_expired_refl: "only_expired d d"
  by (simp add: only_expired_def)

lemma only_expired_add:
  "only_expired d c \<Longrightarrow> e_kind e = ''lease.expire'' \<Longrightarrow> only_expired d (add_event e (archive_db h c))"
  "only_expired d c \<Longrightarrow> only_expired d (archive_db h c)"
  by (auto simp: only_expired_def)

lemma expire_lease_ok:
  assumes r: "r \<in> set (leases (the_db w))"
  shows "wp (expire_lease t acc r) (\<lambda>_ v. gc_rel P t w v
     \<and> (\<forall>d. only_expired d (the_db w) \<longrightarrow> only_expired d (the_db v))) w"
proof -
  let ?h = "audit_row r ''expired'' t"
  let ?c = "archive_db ?h (the_db w)"
  have ok: "db_inv ?c \<and> evolves (the_db w) ?c \<and> (settled_at t (the_db w) \<longrightarrow> settled_at t ?c)"
    if "db_inv (the_db w)" "schema_ok (the_db w)"
    using that r schema_meta by (auto simp: audit_row_def intro!: inv_archive evolves_archive settled_at_effects)
  have step: "gc_step P (the_db w) ?c" by (simp add: gc_step_def)
  have quiet: "gc_rel P t w (upd_db (archive_db ?h) (w\<lparr>faults := fs\<rparr>))" for fs
    using ok step by (auto simp: gc_rel_def effect_ok_def clock_ok_def)
  have loud: "gc_rel P t w v" if "the_db v = add_event e ?c" "added_event (l_job r) ''lease.expire'' e (the_db w)"
    "clock_ok w v" for e v
    using gc_rel_event [OF step that(2,1,3)] ok by simp
  show ?thesis
  proof (cases "parseISO (l_expires r)")
    case (Some until)
    then show ?thesis unfolding expire_lease_def
      by (auto simp: wp_rules gc_rel_refl added_event_def intro!: wp_event only_expired_add quiet loud)
  qed (simp add: expire_lease_def wp_rules)
qed

lemma expire_pass:
  "wp (foldA (expire_lease t) acc (exclusive_leases (the_db w)))
     (\<lambda>_ v. gc_rel P t w v \<and> only_expired (the_db w) (the_db v)) w"
proof (rule wp_foldA)
  show "gc_rel P t w w \<and> only_expired (the_db w) (the_db w)" by (simp add: gc_rel_refl only_expired_refl)
  fix s r v
  assume r: "r \<in> set (exclusive_leases (the_db w))" and v: "gc_rel P t w v \<and> only_expired (the_db w) (the_db v)"
  then have "r \<in> set (leases (the_db v))" by (simp add: exclusive_leases_def only_expired_def)
  from expire_lease_ok [OF this] show "wp (expire_lease t s r) (\<lambda>_ u. gc_rel P t w u \<and> only_expired (the_db w) (the_db u)) v"
    by (rule wp_mono) (use v gc_rel_trans in blast)
qed


section \<open>Second pass: the evidence\<close>

lemma evidence_same:
  assumes "only_expired d d'"
  shows "claim_events job d' = claim_events job d" "startup_events job d' = startup_events job d"
    "snapshot_of job d' = snapshot_of job d"
proof -
  obtain es where es: "events d' = events d @ es" "\<forall>e\<in>set es. e_kind e = ''lease.expire''" and j: "jobs d' = jobs d"
    using assms by (auto simp: only_expired_def)
  have none: "filter (\<lambda>e. e_job e = job \<and> (e_kind e = ''job.claim'' \<or> e_kind e = ''job.reclaim'')) es = []"
    "filter (\<lambda>e. e_job e = job \<and> e_kind e \<in> {''job.claim'', ''job.reclaim'', ''job.spawned''}) es = []"
    using es(2) by (auto simp: filter_empty_conv)
  show "snapshot_of job d' = snapshot_of job d" by (simp add: snapshot_of_def j es(1) none(1))
  show "startup_events job d' = startup_events job d" unfolding startup_events_def es(1) filter_append none(2) by simp
  have "claim_events job d = sort_key e_seq (filter (\<lambda>e. e_job e = job \<and> (e_kind e = ''job.claim'' \<or> e_kind e = ''job.reclaim'')) (events d))" for d
    by (simp add: claim_events_def job_events_def filter_sort conj_commute)
  then show "claim_events job d' = claim_events job d" by (simp add: es(1) none(1))
qed

lemma retirable_same: "only_expired d d' \<Longrightarrow> retirable agents snaps t d' job = retirable agents snaps t d job"
  by (simp add: retirable_def evidence_same)

text \<open>What a pass that goes through has found of every checked job: a label, and no agent of unknown status.\<close>

definition known_job :: "Agent list \<Rightarrow> db \<Rightarrow> string \<Rightarrow> bool" where
  "known_job agents d job \<longleftrightarrow> (\<exists>label. claimAgentLabel_of (claim_events job d) = Inr label \<and> label \<noteq> []
     \<and> (\<forall>a\<in>set agents. agent_matches job label a \<longrightarrow> ag_Status a \<noteq> ''unknown''))"

definition judged ::
  "Agent list \<Rightarrow> snapshots_map \<Rightarrow> time \<Rightarrow> db \<Rightarrow> (string \<times> quota_row option) list \<Rightarrow> verdicts \<Rightarrow> bool" where
  "judged agents snaps t d cks vs \<longleftrightarrow>
     (\<forall>dc\<in>set (vd_stale vs @ vd_rowless vs). retirable agents snaps t d (dc_job dc))
     \<and> (\<forall>dc\<in>set (vd_stale vs). (dc_job dc, dc_quota dc) \<in> set cks)
     \<and> (vd_unmapped vs = [] \<longrightarrow> vd_unknown vs = [] \<longrightarrow> (\<forall>ck\<in>set cks. known_job agents d (fst ck)))"

lemma judge_ok:
  assumes "judged agents snaps t (the_db w) cks vs"
  shows "wp (judge agents snaps t vs ck) (\<lambda>vs' v. judged agents snaps t (the_db w) (cks @ [ck]) vs'
     \<and> (\<exists>fs. v = w\<lparr>faults := fs\<rparr>)) w"
proof -
  have f: "\<exists>gs. w\<lparr>faults := fs\<rparr> = w\<lparr>faults := gs\<rparr>" for fs by blast
  obtain job q where ck: "ck = (job, q)" by (cases ck)
  show ?thesis
    unfolding judge_def Let_def ck using assms f
    by (auto simp: wp_rules judged_def matchedStatuses_none hasStatus_iff known_job_def retirable_def
        intro!: wp_claimAgentLabel wp_jobSnapshot wp_startupBlocker split: if_splits)
qed

lemma judge_pass:
  "wp (foldA (judge agents snaps t) no_verdicts cks)
     (\<lambda>vs v. judged agents snaps t (the_db w) cks vs \<and> (\<exists>fs. v = w\<lparr>faults := fs\<rparr>)) w"
proof (rule wp_foldA_upto)
  show "judged agents snaps t (the_db w) [] no_verdicts \<and> (\<exists>fs. w = w\<lparr>faults := fs\<rparr>)"
    by (simp add: judged_def no_verdicts_def exI [of _ "faults w"])
  fix ys ck zs vs v
  assume "judged agents snaps t (the_db w) ys vs \<and> (\<exists>fs. v = w\<lparr>faults := fs\<rparr>)"
  then obtain fs where "judged agents snaps t (the_db v) ys vs" "v = w\<lparr>faults := fs\<rparr>" by auto
  then show "wp (judge agents snaps t vs ck) (\<lambda>vs' u. judged agents snaps t (the_db w) (ys @ [ck]) vs'
      \<and> (\<exists>fs. u = w\<lparr>faults := fs\<rparr>)) v"
    by (intro wp_mono [OF judge_ok]) auto
qed


section \<open>Third pass: records and orphans\<close>

lemma clean_quota_ok:
  assumes "P (dc_job dc)" "\<And>q. dc_quota dc = Some q \<Longrightarrow> q_job q = dc_job dc"
  shows "wp (clean_quota acc dc) (\<lambda>_ v. gc_rel P t w v) w"
proof (cases "dc_quota dc")
  case (Some q)
  let ?c = "delete_quota (q_job q) (q_pool q) (the_db w)"
  have step: "gc_step P (the_db w) ?c"
    using assms(1) assms(2) [OF Some] by (auto simp: gc_step_def quota_key_def)
  have "gc_rel P t w v" if "the_db v = add_event e ?c" "added_event (dc_job dc) kind e (the_db w)" "clock_ok w v" for e v kind
    using gc_rel_event [OF step that(2,1,3)] inv_delete_quota evolves_delete_quota settled_at_effects(4) schema_meta by simp
  then show ?thesis
    unfolding clean_quota_def using Some by (auto simp: wp_rules added_event_def intro!: wp_event)
qed (simp add: clean_quota_def wp_rules gc_rel_refl)

lemma in_state_unique: "db_inv d \<Longrightarrow> in_state job s d \<Longrightarrow> in_state job s' d \<Longrightarrow> s' = s"
  using unique_eq [of j_id "jobs d"] by (fastforce simp: in_state_iff db_inv_parts)

lemma release_orphan_job_ok:
  assumes "P job" "db_inv (the_db w)" "schema_ok (the_db w)"
  shows "wp (release_orphan_job cands t acc job) (\<lambda>_ v. gc_rel P t w v) w"
proof (cases "map_of (rev cands) job")
  case (Some dc)
  let ?c = "release_job job (iso t) (the_db w)"
  have "gc_rel P t w v" if el: "eligible job (the_db w)"
    and v: "the_db v = add_event e ?c" "added_event job kind e (the_db w)" "clock_ok w v" for e v kind
  proof -
    note f = release_job_facts [OF assms(2,3) el]
    have "gc_step P (the_db w) ?c"
      unfolding f(1) using el assms(1) eligible_in_state [OF el]
      by (auto simp: gc_step_def eligible_def in_state_key dest: in_state_unique [OF assms(2)])
    from gc_rel_event [OF this v(2,1,3)] show ?thesis using f by simp
  qed
  then show ?thesis
    unfolding release_orphan_job_def using Some
    by (auto simp: wp_rules gc_rel_refl intro!: wp_orphanState wp_record_orphan)
qed (simp add: release_orphan_job_def wp_rules gc_rel_refl)

lemma gc_rel_inv: "gc_rel P t w v \<Longrightarrow> db_inv (the_db w) \<Longrightarrow> schema_ok (the_db w) \<Longrightarrow> db_inv (the_db v) \<and> schema_ok (the_db v)"
  by (auto simp: gc_rel_def effect_ok_def gc_step_def schema_ok_def)

lemma clean_pass:
  assumes "\<And>dc. dc \<in> set dcs \<Longrightarrow> P (dc_job dc)" "\<And>dc q. dc \<in> set dcs \<Longrightarrow> dc_quota dc = Some q \<Longrightarrow> q_job q = dc_job dc"
  shows "wp (foldA clean_quota acc dcs) (\<lambda>_ v. gc_rel P t w v) w"
proof (rule wp_foldA)
  show "gc_rel P t w w" by (rule gc_rel_refl)
  fix s dc v assume "dc \<in> set dcs" "gc_rel P t w v"
  then show "wp (clean_quota s dc) (\<lambda>_ u. gc_rel P t w u) v"
    using assms gc_rel_trans by (intro wp_mono [OF clean_quota_ok [of P dc s t v]]) blast+
qed

lemma release_pass:
  assumes "\<And>job. job \<in> set ids \<Longrightarrow> P job" "db_inv (the_db w)" "schema_ok (the_db w)"
  shows "wp (foldA (release_orphan_job cands t) acc ids) (\<lambda>_ v. gc_rel P t w v) w"
proof (rule wp_foldA)
  show "gc_rel P t w w" by (rule gc_rel_refl)
  fix s job v assume "job \<in> set ids" "gc_rel P t w v"
  then show "wp (release_orphan_job cands t s job) (\<lambda>_ u. gc_rel P t w u) v"
    using assms gc_rel_trans gc_rel_inv [OF \<open>gc_rel P t w v\<close> assms(2,3)]
    by (intro wp_mono [OF release_orphan_job_ok [of P job v cands t s]]) blast+
qed

text \<open>The whole transaction.\<close>

definition checked_jobs :: "db \<Rightarrow> string list" where
  "checked_jobs d = map q_job (quota_pool_records d) @ rowless_jobs d"

lemma wp_expire:
  assumes "xs = exclusive_leases (the_db w)"
    and "\<And>acc v. gc_rel P t w v \<Longrightarrow> only_expired (the_db w) (the_db v) \<Longrightarrow> Q acc v"
  shows "wp (foldA (expire_lease t) acc xs) Q w"
  unfolding assms(1) by (rule wp_mono [OF expire_pass [of t acc w P]]) (use assms(2) in blast)

lemma wp_judge:
  assumes "\<And>vs fs. judged agents snaps t (the_db w) cks vs \<Longrightarrow> Q vs (w\<lparr>faults := fs\<rparr>)"
  shows "wp (foldA (judge agents snaps t) no_verdicts cks) Q w"
  by (rule wp_mono [OF judge_pass [of agents snaps t cks w]]) (use assms in blast)

lemma gc_retire:
  assumes inv: "db_inv (the_db v)" "schema_ok (the_db v)"
    and cks: "\<And>job q. (job, Some q) \<in> set cks \<Longrightarrow> q_job q = job"
    and vs: "judged agents snaps t (the_db v) cks vs"
    and P: "\<And>job. retirable agents snaps t (the_db v) job \<Longrightarrow> P job"
  shows "wp (foldA clean_quota [] (vd_stale vs)) (\<lambda>_. wp (foldA (release_orphan_job cands t) []
      (sort (remdups (map dc_job (vd_stale vs @ vd_rowless vs))))) (\<lambda>_ u. gc_rel P t v u)) v"
proof (rule wp_mono [OF clean_pass [of _ P _ t]])
  show "P (dc_job dc)" if "dc \<in> set (vd_stale vs)" for dc using that vs P by (auto simp: judged_def)
  show "q_job q = dc_job dc" if "dc \<in> set (vd_stale vs)" "dc_quota dc = Some q" for dc q
    using that vs cks [of "dc_job dc" q] by (auto simp: judged_def)
  fix x u assume u: "gc_rel P t v u"
  have ids: "P job" if "job \<in> set (sort (remdups (map dc_job (vd_stale vs @ vd_rowless vs))))" for job
    using that vs P by (auto simp: judged_def)
  show "wp (foldA (release_orphan_job cands t) [] (sort (remdups (map dc_job (vd_stale vs @ vd_rowless vs)))))
      (\<lambda>_ u'. gc_rel P t v u') u"
    by (rule wp_mono [OF release_pass [OF ids]]) (use gc_rel_inv [OF u inv] gc_rel_trans [OF u] in blast)+
qed

lemma gc_passes_effect:
  assumes inv: "db_inv (the_db u)" "schema_ok (the_db u)"
  shows "wp (gc_passes snaps agents t) (\<lambda>_ v. gc_rel (retirable agents snaps t (the_db u)) t u v
     \<and> (\<forall>job\<in>set (checked_jobs (the_db u)). known_job agents (the_db u) job)) u" (is "wp _ (\<lambda>_. ?Q) u")
proof -
  let ?P = "retirable agents snaps t (the_db u)"
  have decide: "wp (foldA clean_quota [] (vd_stale vs)) (\<lambda>_. wp (foldA (release_orphan_job cands t) []
      (sort (remdups (map dc_job (vd_stale vs @ vd_rowless vs))))) (\<lambda>_. ?Q)) (v\<lparr>faults := fs\<rparr>)"
    if v: "gc_rel ?P t u v" "only_expired (the_db u) (the_db v)"
      and vs: "judged agents snaps t (the_db v)
        (gc_checks (sort_key quota_key (quota_pool_records (the_db v))) (rowless_jobs (the_db v))) vs"
        "vd_unmapped vs = []" "vd_unknown vs = []" for v fs vs cands
  proof -
    have "\<forall>ck\<in>set (gc_checks (sort_key quota_key (quota_pool_records (the_db v))) (rowless_jobs (the_db v))).
        known_job agents (the_db v) (fst ck)"
      using vs by (simp add: judged_def)
    moreover have "checked_jobs (the_db u) = checked_jobs (the_db v)"
      using v(2) by (simp add: checked_jobs_def only_expired_def rowless_jobs_def)
    ultimately have "\<forall>job\<in>set (checked_jobs (the_db u)). known_job agents (the_db v) job"
      by (simp add: checked_jobs_def gc_checks_def ball_Un)
    then have known: "\<forall>job\<in>set (checked_jobs (the_db u)). known_job agents (the_db u) job"
      by (simp add: known_job_def evidence_same [OF v(2)])
    have "wp (foldA clean_quota [] (vd_stale vs)) (\<lambda>_. wp (foldA (release_orphan_job cands t) []
        (sort (remdups (map dc_job (vd_stale vs @ vd_rowless vs))))) (\<lambda>_ u'. gc_rel ?P t (v\<lparr>faults := fs\<rparr>) u')) (v\<lparr>faults := fs\<rparr>)"
      by (rule gc_retire) (use gc_rel_inv [OF v(1) inv] vs(1) retirable_same [OF v(2)] in \<open>auto simp: gc_checks_def\<close>)
    then show ?thesis using known gc_rel_trans [OF v(1)] by (auto elim!: wp_mono)
  qed
  have eta: "wp (bindA m k) Q = wp m (\<lambda>x. wp (k x) Q)" "wp (ret y) R = R y"
    for m :: "Orphan list ledger" and k and Q :: "GCResult \<Rightarrow> world \<Rightarrow> bool" and y and R :: "GCResult \<Rightarrow> world \<Rightarrow> bool"
    by (rule ext, simp add: wp_rules)+
  show ?thesis
    unfolding gc_passes_def Let_def
    by (auto simp: wp_rules comp_def eta intro!: wp_expire [where P = ?P] wp_judge decide [simplified])
qed

lemma gc_tx_effect:
  assumes "db_inv (the_db w)" "schema_ok (the_db w)"
  shows "wp (gc_tx snaps agents) (\<lambda>_ v. \<exists>t. clock_at w t v
     \<and> gc_step (retirable agents snaps t (the_db w)) (the_db w) (the_db v) \<and> effect_ok t (the_db w) (the_db v)
     \<and> (\<forall>job\<in>set (checked_jobs (the_db w)). known_job agents (the_db w) job)) w"
  unfolding gc_tx_def wp_bindA wp_store_now
proof (intro allI impI)
  fix t ts assume r: "reads_clock w t ts"
  let ?u = "w\<lparr>clock := ts\<rparr>"
  have "wp (gc_passes snaps agents t) (\<lambda>_ v. gc_rel (retirable agents snaps t (the_db ?u)) t ?u v
     \<and> (\<forall>job\<in>set (checked_jobs (the_db ?u)). known_job agents (the_db ?u) job)) ?u"
    by (rule gc_passes_effect) (use assms in simp_all)
  then show "wp (gc_passes snaps agents t) (\<lambda>_ v. \<exists>t. clock_at w t v
     \<and> gc_step (retirable agents snaps t (the_db w)) (the_db w) (the_db v) \<and> effect_ok t (the_db w) (the_db v)
     \<and> (\<forall>job\<in>set (checked_jobs (the_db w)). known_job agents (the_db w) job)) ?u"
    by (rule wp_mono) (use clock_at_read [OF r] in \<open>auto simp: gc_rel_def\<close>)
qed

lemma gc_tx_ok: "tx_ok (gc_tx snaps agents)"
proof -
  have c: "always clock_ok (gc_tx snaps agents)"
    unfolding gc_tx_def gc_passes_def expire_lease_def archive_def judge_def claimAgentLabel_def jobSnapshot_def
      startupBlocker_def clean_quota_def release_orphan_job_def orphanState_def record_orphan_def Let_def
    by (intro tx_clock)
  have "wp (gc_tx snaps agents) (\<lambda>_ v. db_inv (the_db v) \<and> evolves (the_db w) (the_db v)
      \<and> (\<forall>t. timely t w \<longrightarrow> (\<exists>u\<ge>t. timely u v))) w"
    if w: "db_inv (the_db w)" "schema_ok (the_db w)" for w
  proof (rule wp_mono [OF gc_tx_effect [OF w]], elim exE conjE)
    fix v t assume "clock_at w t v" "effect_ok t (the_db w) (the_db v)"
    with w show "db_inv (the_db v) \<and> evolves (the_db w) (the_db v) \<and> (\<forall>t. timely t w \<longrightarrow> (\<exists>u\<ge>t. timely u v))"
      using effect_timely by blast
  qed
  then show ?thesis using c by (simp add: tx_ok_def)
qed

end
