(* ===== verification/Arb_System.thy ===== *)
theory Arb_System
  imports Arb_Retire
begin

text \<open>
  The ledger as a system: every operation interprets the contract of \<open>ledger_op\<close>, any sequence of
  operations and of changes around the ledger (the clock, the files, the outcomes of external calls)
  is a run of a transition system, and the properties of the ledger follow from the contract, from the
  invariant and from the effects of the operations.
\<close>

section \<open>The operations\<close>

lemma Acquire_op: "ledger_op (Acquire req)"
  unfolding Acquire_def
  by (cases "exclusive_kind (rq_Kind req)")
    (auto intro!: op_throw op_rw body_bind_clock acquire_tx_at)

lemma Release_op: "ledger_op (Release job resource kind token force)"
  unfolding Release_def by (intro op_if op_throw op_rw body_bind_clock release_tx_at)

lemma RecordQuotaPool_op: "ledger_op (RecordQuotaPool q)"
  unfolding RecordQuotaPool_def by (intro op_if op_throw op_rw body_bind_clock record_quota_tx_at)

lemma ReleaseQuotaPool_op: "ledger_op (ReleaseQuotaPool job pool force)"
  unfolding ReleaseQuotaPool_def by (intro op_rw body_bind_clock release_quota_tx_at)

lemma Claim_op_op: "ledger_op (Claim_op cl)"
  unfolding Claim_op_def by (intro op_check op_rw body_bind_clock claim_tx_at)

lemma ReleaseClaim_op: "ledger_op (ReleaseClaim job)"
  unfolding ReleaseClaim_def by (intro op_rw body_db_write release_claim_tx_ok)

lemma AppendEvent_op: "ledger_op (AppendEvent job kind payload seq)"
  unfolding AppendEvent_def with_rw_def by (intro op_if op_throw op_rw body_db_write recordEvent_tx_ok)

lemma gc_write_op: "ledger_op (gc_write snaps agents)"
  unfolding gc_write_def thenA_def [of "liftE _"] by (intro op_check op_rw body_db_write gc_tx_ok)

lemma release_orphan_write_op: "ledger_op (release_orphan_write job snaps agents)"
  unfolding release_orphan_write_def thenA_def [of "liftE _"] by (intro op_check op_rw body_db_write release_orphan_tx_ok)

interpretation acquire: ledger_op "Acquire req" for req
  by (rule Acquire_op)

interpretation release: ledger_op "Release job resource kind token force" for job resource kind token force
  by (rule Release_op)

interpretation record_quota: ledger_op "RecordQuotaPool q" for q
  by (rule RecordQuotaPool_op)

interpretation release_quota: ledger_op "ReleaseQuotaPool job pool force" for job pool force
  by (rule ReleaseQuotaPool_op)

interpretation claim: ledger_op "Claim_op cl" for cl
  by (rule Claim_op_op)

interpretation release_claim: ledger_op "ReleaseClaim job" for job
  by (rule ReleaseClaim_op)

interpretation append_event: ledger_op "AppendEvent job kind payload seq" for job kind payload seq
  by (rule AppendEvent_op)

interpretation gc: ledger_op "gc_write snaps agents" for snaps agents
  by (rule gc_write_op)

interpretation orphan: ledger_op "release_orphan_write job snaps agents" for job snaps agents
  by (rule release_orphan_write_op)


section \<open>Runs\<close>

text \<open>
  One operation of the ledger by its arguments, and the worlds an outcome leaves. The two operations
  that read the agent list are their write halves here, with any snapshot and any list: whatever
  happened between the snapshot and the write is another step of the run.
\<close>

datatype op =
    OpClaim Claim
  | OpReleaseClaim string
  | OpAcquire LeaseReq
  | OpRelease string string string string bool
  | OpRecordQuota QuotaRun
  | OpReleaseQuota string string bool
  | OpAppendEvent string string "json option" "int option"
  | OpGC snapshots_map "Agent list"
  | OpReleaseOrphan string snapshots_map "Agent list"

definition outcome :: "(aerror + 'a) \<times> world \<Rightarrow> aerror option \<times> world" where
  "outcome r = (case fst r of Inl e \<Rightarrow> Some e | Inr _ \<Rightarrow> None, snd r)"

fun run_op :: "op \<Rightarrow> world \<Rightarrow> aerror option \<times> world" where
  "run_op (OpClaim cl) w = outcome (Claim_op cl w)"
| "run_op (OpReleaseClaim job) w = outcome (ReleaseClaim job w)"
| "run_op (OpAcquire req) w = outcome (Acquire req w)"
| "run_op (OpRelease job resource kind token force) w = outcome (Release job resource kind token force w)"
| "run_op (OpRecordQuota q) w = outcome (RecordQuotaPool q w)"
| "run_op (OpReleaseQuota job pool force) w = outcome (ReleaseQuotaPool job pool force w)"
| "run_op (OpAppendEvent job kind payload seq) w = outcome (AppendEvent job kind payload seq w)"
| "run_op (OpGC snaps agents) w = outcome (gc_write snaps agents w)"
| "run_op (OpReleaseOrphan job snaps agents) w = outcome (release_orphan_write job snaps agents w)"

definition op_facts :: "aerror option \<Rightarrow> world \<Rightarrow> world \<Rightarrow> bool" where
  "op_facts r w v \<longleftrightarrow> db_inv (the_db v) \<and> evolves (the_db w) (the_db v) \<and> (r \<noteq> None \<longrightarrow> booted w v)
     \<and> (\<forall>t. timely t w \<longrightarrow> (\<exists>u\<ge>t. timely u v))"

lemma outcome_facts:
  assumes "ledger_op m" "db_inv (the_db w)" "outcome (m w) = (r, v)"
  shows "op_facts r w v"
proof -
  obtain s where s: "m w = (s, v)" "r = (case s of Inl e \<Rightarrow> Some e | Inr _ \<Rightarrow> None)"
    using assms(3) by (cases "m w") (auto simp: outcome_def)
  have "booted w v" if "r \<noteq> None" using that s ledger_op.op_refused [OF assms(1,2)] by (cases s) auto
  then show ?thesis
    using ledger_op.op_inv [OF assms(1,2) s(1)] ledger_op.op_audit [OF assms(1,2) s(1)]
      ledger_op.op_time [OF assms(1,2) _ s(1)] by (auto simp: op_facts_def)
qed

lemmas ops = Claim_op_op ReleaseClaim_op Acquire_op Release_op RecordQuotaPool_op ReleaseQuotaPool_op
  AppendEvent_op gc_write_op release_orphan_write_op

lemma run_op_facts: "run_op oper w = (r, v) \<Longrightarrow> db_inv (the_db w) \<Longrightarrow> op_facts r w v"
  by (cases oper) (auto intro: outcome_facts ops)

text \<open>Between operations the files, the clock, the random bytes and the outcomes of calls are arbitrary.\<close>

inductive ledger_step :: "world \<Rightarrow> world \<Rightarrow> bool" where
  step_op: "run_op oper w = (r, v) \<Longrightarrow> ledger_step w v"
| step_around: "state_db v = state_db w \<Longrightarrow> ledger_step w v"

inductive_cases ledger_stepE: "ledger_step w v"

definition no_ledger :: "world \<Rightarrow> bool" where
  "no_ledger w \<longleftrightarrow> state_db w = None"

definition sound_ledger :: "world \<Rightarrow> bool" where
  "sound_ledger w \<longleftrightarrow> db_inv (the_db w)"

lemma db_inv_empty: "db_inv empty_db"
  by (simp add: db_inv_parts tokens_ok_def granted_def empty_db_def)

lemma step_sound: "sound_ledger w \<Longrightarrow> ledger_step w v \<Longrightarrow> sound_ledger v \<and> evolves (the_db w) (the_db v)"
  by (auto simp: sound_ledger_def op_facts_def the_db_def evolves_refl elim!: ledger_stepE dest!: run_op_facts)

interpretation ledger: transition_system no_ledger ledger_step sound_ledger
  by unfold_locales (use step_sound in \<open>auto simp: no_ledger_def sound_ledger_def the_db_def db_inv_empty\<close>)

lemma run_evolves: "ledger_step\<^sup>*\<^sup>* w v \<Longrightarrow> sound_ledger w \<Longrightarrow> evolves (the_db w) (the_db v)"
proof (induction rule: rtranclp_induct)
  case base
  then show ?case by (simp add: evolves_refl)
next
  case (step u v)
  then show ?case using step_sound [of u v] ledger.inv_steps [of w u] evolves_trans by blast
qed

section \<open>From transactions to operations\<close>

lemma op_success:
  assumes r: "thenA (rw b) (bindA store_now (\<lambda>m. db_write (tx m))) w = (Inr x, v)"
    and tx: "\<And>t u. wp (tx t) (R t u) u"
  obtains t u v' where "the_db u = boot (the_db w)" "schema_ok (the_db u)" "R t u x v'" "the_db v = the_db v'"
    "\<And>s. mono_clock s w \<Longrightarrow> s \<le> t \<and> printable t"
proof -
  obtain y w1 where w1: "rw b w = (Inr y, w1)" "bindA store_now (\<lambda>m. db_write (tx m)) w1 = (Inr x, v)"
    using r by (cases "rw b w"; cases "fst (rw b w)") (auto simp: thenA_def bindA_def)
  obtain t ts where t: "store_now w1 = (Inr t, w1\<lparr>clock := ts\<rparr>)" using store_now_result by blast
  have read: "reads_clock w1 t ts" using t by (simp add: reads_clock_def)
  have "wp (db_write (tx t)) (\<lambda>x v. \<exists>u v'. the_db u = the_db w1 \<and> R t u x v' \<and> the_db v = the_db v') (w1\<lparr>clock := ts\<rparr>)"
  proof (rule wp_db_writeI)
    fix fs
    show "wp (tx t) (\<lambda>x v. \<exists>u v'. the_db u = the_db w1 \<and> R t u x v' \<and> the_db v = the_db v') (w1\<lparr>clock := ts\<rparr>\<lparr>faults := fs\<rparr>)"
      by (rule wp_mono [OF tx]) (metis the_db_simps(1,2))
  qed simp
  from wpD [OF this] w1(2) t obtain u v' where u: "the_db u = the_db w1" "R t u x v'" "the_db v = the_db v'"
    by (auto simp: bindA_def)
  have "s \<le> t \<and> printable t" if "mono_clock s w" for s
    using mono_clock_read(1,2) [OF _ read] rw_spec(5) [OF w1(1)] that by (auto simp: clock_ok_def)
  then show ?thesis using that u rw_spec(1,2) [OF w1(1)] by metis
qed

lemma boot_tables [simp]:
  "leases (boot d) = leases d" "jobs (boot d) = jobs d" "quota_pool_records (boot d) = quota_pool_records d"
  "lease_history (boot d) = lease_history d" "events (boot d) = events d" "in_state j s (boot d) = in_state j s d"
  "granted (boot d) = granted d" "settled_at t (boot d) = settled_at t d"
  by (simp_all add: boot_def in_state_def granted_def settled_at_def)

lemma acquire_facts:
  assumes "Acquire req w = (Inr l, v)" "db_inv (the_db w)"
  obtains t b where "exclusive_kind (rq_Kind req)" "acquirable req t (the_db w)" "gl_Token l = token_text (token_seq (boot (the_db w)) + 1) b"
    "leases (the_db v) = leases (cleared (sel lease_key (rq_Resource req, rq_Kind req) (leases (the_db w))) t (boot (the_db w)))
        @ [lease_row req t (gl_Token l)]"
    "token_seq (the_db v) = token_seq (boot (the_db w)) + 1"
    "gl_Superseded l = superseded_job (sel lease_key (rq_Resource req, rq_Kind req) (leases (the_db w)))"
    "\<And>s. mono_clock s w \<Longrightarrow> s \<le> t \<and> printable t"
proof -
  have k: "exclusive_kind (rq_Kind req)" and r: "thenA (rw False) (bindA store_now (\<lambda>m. db_write (acquire_tx req m))) w = (Inr l, v)"
    using assms(1) by (auto simp: Acquire_def throw_def split: if_splits)
  from op_success [OF r acquire_tx_effect] obtain t u v' b e where
    u: "the_db u = boot (the_db w)" "schema_ok (the_db u)" and a: "acquirable req t (the_db u)"
    and s: "gl_Superseded l = superseded_job (sel lease_key (rq_Resource req, rq_Kind req) (leases (the_db u)))"
    and tok: "gl_Token l = token_text (token_seq (the_db u) + 1) b"
    and v: "the_db v = add_event e (acquire_effect req t (gl_Token l) (the_db u))"
    and m: "\<And>s. mono_clock s w \<Longrightarrow> s \<le> t \<and> printable t" by metis
  have d: "db_inv (the_db u)" using assms(2) u(1) inv_boot by simp
  note c = cleared_facts [OF d schema_meta [OF u(2)] refl, where k = "(rq_Resource req, rq_Kind req)" and m = t]
  show ?thesis
    by (rule that [of t b]) (use k a s tok v m u c(6) in \<open>simp_all add: acquire_effect_def acquirable_def\<close>)
qed

lemma del_absent: "\<not> has_key key k t \<Longrightarrow> del key k t = t"
  by (auto simp: del_def has_key_iff filter_id_conv)

lemma cleared_leases:
  assumes "sel lease_key k (leases d) = held"
  shows "leases (cleared held t d) = del lease_key k (leases d)"
proof (cases held)
  case None
  then show ?thesis using assms by (simp add: sel_None del_absent)
next
  case (Some r)
  then have "(l_resource r, l_kind r) = k" using assms sel_Some [of lease_key k "leases d" r] by (simp add: lease_key_def)
  then show ?thesis using Some by (simp add: retired_def)
qed

lemma fresh_token:
  assumes "db_inv d" "r \<in> set (granted d)"
  shows "token_no (l_token r) < token_no (token_text (token_seq (boot d) + 1) b)"
proof -
  have t: "tokens_ok (boot d)" using inv_boot [OF assms(1)] by (simp add: db_inv_def)
  then have "int (token_no (l_token r)) \<le> token_seq (boot d)" "0 \<le> token_seq (boot d)"
    using assms(2) by (simp_all add: tokens_ok_def)
  then show ?thesis by (simp add: token_no_text)
qed


section \<open>Availability\<close>

text \<open>With no failing external call an operation whose guards hold goes through.\<close>

definition healthy :: "world \<Rightarrow> bool" where
  "healthy w \<longleftrightarrow> faults w = [] \<and> state_db w \<noteq> None \<and> schema_ok (the_db w)"

lemma healthy_rw: "healthy w \<Longrightarrow> rw b w = (Inr (), w)"
  by (auto simp: healthy_def rw_def checkSchema_def schema_ok_def calls_succeed act_defs Let_def)

lemma healthy_write: "faults w = [] \<Longrightarrow> fn w = (Inr x, v) \<Longrightarrow> faults v = [] \<Longrightarrow> db_write fn w = (Inr x, v)"
  by (simp add: db_write_def run_tx_def calls_succeed act_defs)

lemma healthy_op:
  assumes "healthy w" "store_now w = (Inr t, w')"
    and "\<And>u. the_db u = the_db w \<Longrightarrow> inbox u = inbox w \<Longrightarrow> faults u = [] \<Longrightarrow> \<exists>x v. tx t u = (Inr x, v) \<and> faults v = []"
  shows "\<exists>x v. thenA (rw b) (bindA store_now (\<lambda>m. db_write (tx m))) w = (Inr x, v)"
proof -
  have f: "faults w = []" using assms(1) by (simp add: healthy_def)
  obtain ts where u: "w' = w\<lparr>clock := ts\<rparr>" using store_now_result [of w] assms(2) by auto
  from assms(3) [of w'] u f obtain x v where "tx t w' = (Inr x, v)" "faults v = []" by auto
  then have "db_write (tx t) w' = (Inr x, v)" using f u by (intro healthy_write) simp_all
  then show ?thesis using healthy_rw [OF assms(1)] assms(2) by (simp add: thenA_def bindA_def)
qed

lemma free_seq_cong: "events (the_db v) = events (the_db w) \<Longrightarrow> inbox v = inbox w \<Longrightarrow> free_seq job v = free_seq job w"
  by (simp add: free_seq_def max_seq_def)

lemma supersede_runs:
  assumes "faults u = []" "acquirable req t (the_db u)" "held = sel lease_key (rq_Resource req, rq_Kind req) (leases (the_db u))"
  shows "\<exists>v. supersede held t u = (Inr (), v) \<and> the_db v = cleared held t (the_db u) \<and> faults v = [] \<and> inbox v = inbox u"
proof (cases held)
  case (Some r)
  then obtain until where "parseISO (l_expires r) = Some until" "until \<le> t"
    using assms by (auto simp: acquirable_def split: option.splits)
  then show ?thesis
    using assms(1) Some by (simp add: supersede_def archive_def Let_def calls_succeed act_defs retired_def audit_row_def)
qed (use assms in \<open>simp add: supersede_def ret_def\<close>)

lemma nextToken_runs:
  assumes "faults u = []"
  shows "\<exists>b v. nextToken u = (Inr (token_text (token_seq (the_db u) + 1) b), v)
     \<and> the_db v = (the_db u)\<lparr>token_seq := token_seq (the_db u) + 1\<rparr> \<and> faults v = [] \<and> inbox v = inbox u"
  using assms by (cases "rands u") (auto simp: nextToken_def rand_read_def calls_succeed act_defs)

lemma acquire_runs:
  assumes "faults u = []" "acquirable req t (the_db u)" "free_seq (rq_Job req) u \<le> max_int64"
  shows "\<exists>l v. acquire_tx req t u = (Inr l, v) \<and> faults v = []"
proof -
  let ?k = "(rq_Resource req, rq_Kind req)"
  let ?held = "sel lease_key ?k (leases (the_db u))"
  obtain u1 where u1: "supersede ?held t u = (Inr (), u1)" "the_db u1 = cleared ?held t (the_db u)" "faults u1 = []" "inbox u1 = inbox u"
    using supersede_runs [OF assms(1,2) refl] by blast
  obtain b u2 where u2: "nextToken u1 = (Inr (token_text (token_seq (the_db u1) + 1) b), u2)"
      "the_db u2 = (the_db u1)\<lparr>token_seq := token_seq (the_db u1) + 1\<rparr>" "faults u2 = []" "inbox u2 = inbox u"
    using nextToken_runs [OF u1(3)] u1(4) by auto
  have free: "\<not> has_key lease_key ?k (leases (the_db u2))"
    using cleared_leases [of ?k "the_db u" ?held t] u1(2) u2(2) by simp
  let ?tok = "token_text (token_seq (the_db u1) + 1) b"
  let ?r = "\<lparr>l_resource = rq_Resource req, l_kind = rq_Kind req, l_job = rq_Job req, l_token = ?tok,
      l_acquired = iso t, l_expires = iso (t + acquire_ttl req)\<rparr>"
  have ins: "insert_lease ?r u2 = (Inr (), upd_db (\<lambda>d. d\<lparr>leases := leases d @ [?r]\<rparr>) u2)"
    using free u2(3) by (simp add: insert_lease_def calls_succeed act_defs lease_key_def)
  let ?u3 = "upd_db (set_job_state (rq_Job req) ''leased'' (iso t)) (upd_db (\<lambda>d. d\<lparr>leases := leases d @ [?r]\<rparr>) u2)"
  have "events (the_db ?u3) = events (the_db u)"
    by (cases ?held) (simp_all add: u2(2) u1(2) retired_def)
  then have "free_seq (rq_Job req) ?u3 \<le> max_int64" using free_seq_cong [of ?u3 u] assms(3) u2(4) by simp
  from recordEvent_free [of ?u3, OF _ this] u2(3)
  have ev: "\<exists>v. recordEvent (rq_Job req) kind p None ?u3 = (Inr (free_seq (rq_Job req) ?u3), v) \<and> faults v = []" for kind p
    by simp
  have job: "has_key j_id (rq_Job req) (jobs (the_db u))" using assms(2) by (simp add: acquirable_def)
  show ?thesis
    unfolding acquire_tx_def Let_def
    using assms(1) job u1(1) u2(1,3) ins
      ev [of "''lease.acquire''" "JObj [(''resource'', JStr (rq_Resource req)), (''kind'', JStr (rq_Kind req)),
                   (''resolved_from'', JStr ''resource''), (''token'', JStr (maskToken ?tok)),
                   (''expires_at'', JStr (iso (t + acquire_ttl req))), (''superseded'', opt_str (superseded_job ?held))]"]
    by (auto simp: requireJob_def getLease_def calls_succeed act_defs)
qed


text \<open>The sample ledger: one claimed job.\<close>

definition sample_req :: LeaseReq where
  "sample_req = \<lparr>rq_Job = ''job-a'', rq_Resource = ''/repo'', rq_Kind = ''path'', rq_TTL = 0, rq_HasTTL = False\<rparr>"

lemmas sample_defs = sample_world_def sample_db_def empty_db_def event_entry_def

lemma sample_the_db [simp]: "the_db sample_world = sample_db"
  by (simp add: the_db_def sample_world_def)

lemma sample_inv: "db_inv sample_db"
  by (simp add: db_inv_parts tokens_ok_def granted_def sample_defs unique_def job_states_def in_state_def)

lemma sample_healthy: "healthy sample_world"
  by (simp add: healthy_def schema_ok_def the_db_def sample_defs SchemaVersion_def)

lemma sample_free: "free_seq ''job-a'' sample_world \<le> max_int64"
  by (simp add: free_seq_def max_seq_def sample_world_def the_db_def sample_db_def empty_db_def event_entry_def eval_numbers)

lemma sample_now: "\<exists>w'. store_now sample_world = (Inr (1798761600 * second), w')"
  by (simp add: store_now_def sample_world_def second_def)

lemma sample_acquirable: "acquirable sample_req t (the_db sample_world)"
  by (simp add: acquirable_def sample_req_def the_db_def sample_defs)

lemma sample_acquire: "\<exists>l v. Acquire sample_req sample_world = (Inr l, v)"
proof -
  obtain w' where w': "store_now sample_world = (Inr (1798761600 * second), w')" using sample_now by blast
  have "\<exists>l v. thenA (rw False) (bindA store_now (\<lambda>m. db_write (acquire_tx sample_req m))) sample_world = (Inr l, v)"
  proof (rule healthy_op [OF sample_healthy w'])
    fix u assume "the_db u = the_db sample_world" "inbox u = inbox sample_world" "faults u = []"
    then show "\<exists>l v. acquire_tx sample_req (1798761600 * second) u = (Inr l, v) \<and> faults v = []"
      using acquire_runs [of u sample_req "1798761600 * second"] free_seq_cong [of u sample_world] sample_free
        sample_acquirable by (simp add: sample_req_def)
  qed
  then show ?thesis by (simp add: Acquire_def sample_req_def exclusive_kind_def KindPath_def)
qed



end
