(* ===== verification/Arb_Props.thy ===== *)
theory Arb_Props
  imports Arb_System
begin

text \<open>
  The promises of the ledger: what holds in every reachable state, what a refusal leaves, fencing,
  the safety of reclaiming a job, of garbage collection and of the forced release, and what the
  read-only operations and the event log show.
\<close>

section \<open>Reachable states\<close>

text \<open>
  C2: in every state the operations can reach from no ledger at all, with any outcomes of the external
  calls, any clock and any files: the unique indexes hold, every lease and record belongs to a
  registered job, a job with a quota-pool record is leased, no two leases ever granted share a fencing
  number, and none is beyond the sequence of the database.
\<close>

theorem reachable_ledger_sound:
  assumes "no_ledger w" "ledger_step\<^sup>*\<^sup>* w v"
  shows "db_inv (the_db v)"
  using ledger.inv_reachable [OF assms] by (simp add: sound_ledger_def)

text \<open>A claim of a fresh job on an empty world.\<close>

definition empty_world :: world where
  "empty_world = \<lparr>state_db = None, inbox = (\<lambda>_. []), clock = [1798761600 * second], rands = [], faults = []\<rparr>"

definition sample_claim :: Claim where
  "sample_claim = \<lparr>cl_Job = ''job-a'', cl_Lane = ''lane'', cl_T = ''T1'', cl_Role = [], cl_ParentLane = [],
     cl_AgentLabel = ''agent-1'', cl_TaskID = ''17'', cl_TaskLinkOverride = [], cl_TaskInheritedFrom = [],
     cl_ReclaimReleased = False\<rparr>"

lemma sample_check: "check_claim sample_claim = Inr (sample_claim\<lparr>cl_Role := ''worker''\<rparr>)"
  by (simp add: check_claim_def claim_role_def sample_claim_def validJobID_def tLevels_def)

lemma claim_runs:
  assumes "faults u = []" "\<not> has_key j_id (cl_Job cl) (jobs (the_db u))" "free_seq (cl_Job cl) u \<le> max_int64"
  shows "\<exists>res v. claim_tx cl t u = (Inr res, v) \<and> faults v = [] \<and> \<not> cr_Reclaimed res"
proof -
  let ?j = "\<lparr>j_id = cl_Job cl, j_owner_lane = cl_Lane cl, j_state = ''claimed'', j_t_level = cl_T cl,
      j_created_at = iso t, j_updated_at = iso t\<rparr>"
  let ?u = "upd_db (\<lambda>d. d\<lparr>jobs := jobs d @ [?j]\<rparr>) u"
  have "free_seq (cl_Job cl) ?u \<le> max_int64" using free_seq_cong [of ?u u] assms(3) by simp
  from recordEvent_free [of ?u, OF _ this] assms(1)
  have ev: "\<exists>v. recordEvent (cl_Job cl) kind p None ?u = (Inr (free_seq (cl_Job cl) ?u), v) \<and> faults v = []" for kind p
    by simp
  have "sel j_id (cl_Job cl) (jobs (the_db u)) = None" using assms(2) by (simp add: sel_None)
  then show ?thesis
    unfolding claim_tx_def Let_def
    using assms(1,2) ev [of "''job.claim''" "JObj (claim_payload cl (claim_label cl))"]
    by (auto simp: insert_job_def calls_succeed act_defs)
qed

lemma empty_claim: "\<exists>res v. Claim_op sample_claim empty_world = (Inr res, v)"
proof -
  let ?cl = "sample_claim\<lparr>cl_Role := ''worker''\<rparr>"
  let ?w = "empty_world\<lparr>state_db := Some (boot empty_db)\<rparr>"
  have rw: "rw True empty_world = (Inr (), ?w)"
    by (simp add: rw_def createSchema_def checkSchema_def empty_world_def calls_succeed fails_def call_def act_defs
        Let_def store_now_def the_db_def upd_db_def boot_def empty_db_def SchemaVersion_def)
  have now: "store_now ?w = (Inr (1798761600 * second), ?w)"
    by (simp add: store_now_def empty_world_def second_def)
  have "\<exists>res v. claim_tx ?cl (1798761600 * second) ?w = (Inr res, v) \<and> faults v = [] \<and> \<not> cr_Reclaimed res"
    by (rule claim_runs) (simp_all add: empty_world_def the_db_def boot_def empty_db_def free_seq_def max_seq_def
        max_int64_def sample_claim_def)
  then obtain res v where "db_write (claim_tx ?cl (1798761600 * second)) ?w = (Inr res, v)"
    using healthy_write [of ?w "claim_tx ?cl (1798761600 * second)"] by (auto simp: empty_world_def)
  then show ?thesis
    by (simp add: Claim_op_def sample_check rw now act_defs)
qed

theorem reachable_ledger_sound_witness:
  "\<exists>v res. no_ledger empty_world \<and> Claim_op sample_claim empty_world = (Inr res, v) \<and> db_inv (the_db v)"
proof -
  obtain res v where c: "Claim_op sample_claim empty_world = (Inr res, v)" using empty_claim by blast
  then have "run_op (OpClaim sample_claim) empty_world = (None, v)" by (simp add: outcome_def)
  then have "ledger_step\<^sup>*\<^sup>* empty_world v" by (blast intro: step_op)
  moreover have "no_ledger empty_world" by (simp add: no_ledger_def empty_world_def)
  ultimately show ?thesis using reachable_ledger_sound c by blast
qed

text \<open>
  C3: the audit trail of a run. From any sound state, whatever the operations, their outcomes and what
  happens around them: recorded events and lease history only grow at their end, the fencing sequence
  never goes back, a lease that is no longer live is in the history unchanged, and no job disappears
  or changes its creation time.
\<close>

theorem audit_trail_kept:
  assumes "db_inv (the_db w)" "ledger_step\<^sup>*\<^sup>* w v"
  shows "take (length (events (the_db w))) (events (the_db v)) = events (the_db w)
     \<and> take (length (lease_history (the_db w))) (lease_history (the_db v)) = lease_history (the_db w)
     \<and> token_seq (the_db w) \<le> token_seq (the_db v)
     \<and> set (leases (the_db w)) \<subseteq> set (leases (the_db v)) \<union> h_lease ` set (lease_history (the_db v))
     \<and> take (length (jobs (the_db w))) (map job_birth (jobs (the_db v))) = map job_birth (jobs (the_db w))"
proof -
  have "evolves (the_db w) (the_db v)" using run_evolves [OF assms(2)] assms(1) by (simp add: sound_ledger_def)
  then obtain es hs js where "events (the_db v) = events (the_db w) @ es" "lease_history (the_db v) = lease_history (the_db w) @ hs"
    "map job_birth (jobs (the_db v)) = map job_birth (jobs (the_db w)) @ js" "token_seq (the_db w) \<le> token_seq (the_db v)"
    "set (leases (the_db w)) \<subseteq> set (granted (the_db v))"
    unfolding evolves_def by blast
  moreover have "set (granted (the_db v)) = set (leases (the_db v)) \<union> h_lease ` set (lease_history (the_db v))"
    by (auto simp: granted_def)
  ultimately show ?thesis by simp
qed

theorem audit_trail_kept_witness:
  "\<exists>l v. Acquire sample_req sample_world = (Inr l, v) \<and> take 1 (events (the_db v)) = events sample_db"
proof -
  obtain l v where a: "Acquire sample_req sample_world = (Inr l, v)" using sample_acquire by blast
  then have "run_op (OpAcquire sample_req) sample_world = (None, v)" by (simp add: outcome_def)
  then have s: "ledger_step\<^sup>*\<^sup>* sample_world v" by (blast intro: step_op)
  have "db_inv (the_db sample_world)" by (simp add: sample_inv)
  from audit_trail_kept [OF this s] a show ?thesis by (auto simp: sample_db_def empty_db_def)
qed

text \<open>
  C7: a refused operation changes nothing in an existing ledger: whatever it returned an error for, a
  guard or a failed external call at any point, the database is the one it started from.
\<close>

theorem refusal_changes_nothing:
  assumes "db_inv (the_db w)" "schema_ok (the_db w)" "run_op oper w = (Some e, v)"
  shows "the_db v = the_db w"
  using run_op_facts [OF assms(3,1)] boot_schema_ok [OF assms(2)] by (simp add: op_facts_def booted_def)

text \<open>For example the release of a job that was never claimed.\<close>

theorem refusal_changes_nothing_witness:
  "\<exists>v. run_op (OpReleaseClaim ''job-b'') sample_world = (Some sqlErr, v) \<and> the_db v = sample_db"
proof -
  have "\<exists>v. ReleaseClaim ''job-b'' sample_world = (Inl sqlErr, v)"
    using sample_healthy
    by (simp add: ReleaseClaim_def thenA_def bindA_def healthy_rw db_write_def run_tx_def release_claim_tx_def)
      (simp add: calls_succeed healthy_def throw_def sample_db_def empty_db_def)
  then obtain v where v: "run_op (OpReleaseClaim ''job-b'') sample_world = (Some sqlErr, v)"
    by (auto simp: outcome_def)
  have "db_inv (the_db sample_world)" "schema_ok (the_db sample_world)"
    using sample_healthy by (simp_all add: sample_inv healthy_def)
  from refusal_changes_nothing [OF this v] v show ?thesis by auto
qed

section \<open>Fencing\<close>

lemma release_facts:
  assumes "Release job resource kind token force w = (Inr x, v)"
  obtains t r where "releasable job resource kind token force (the_db w) r" "schema_ok (boot (the_db w))"
    "exclusive_kind kind"
    "\<exists>e. the_db v = add_event e (settled (l_job r) t
          (retired r (if force then ''force-released'' else ''released'') t (boot (the_db w))))"
proof -
  have r: "thenA (rw False) (bindA store_now (\<lambda>m. db_write (release_tx job resource kind token force m))) w = (Inr x, v)"
    and k: "exclusive_kind kind"
    using assms by (auto simp: Release_def throw_def split: if_splits)
  from op_success [OF r release_tx_effect] obtain t u v' e l where
    u: "the_db u = boot (the_db w)" "schema_ok (the_db u)" and l: "releasable job resource kind token force (the_db u) l"
    and v: "the_db v = add_event e (settled (l_job l) t (retired l (if force then ''force-released'' else ''released'') t (the_db u)))"
    by metis
  show ?thesis by (rule that [of l t]) (use k u l v in \<open>auto simp: releasable_def\<close>)
qed

text \<open>
  C4: a stale owner cannot release. If a lease was granted in the past and is no longer live, because
  it was released or superseded after it expired, then releasing with its token without force fails,
  whatever lease holds the resource now.
\<close>

theorem stale_token_refused:
  assumes "db_inv (the_db w)" "l \<in> set (granted (the_db w))" "l \<notin> set (leases (the_db w))"
  shows "\<exists>e v. Release job resource kind (l_token l) False w = (Inl e, v)"
proof (rule ccontr)
  assume "\<not> (\<exists>e v. Release job resource kind (l_token l) False w = (Inl e, v))"
  then obtain x v where "Release job resource kind (l_token l) False w = (Inr x, v)"
    by (cases "Release job resource kind (l_token l) False w"; cases "fst (Release job resource kind (l_token l) False w)") auto
  then obtain r where "releasable job resource kind (l_token l) False (the_db w) r" by (rule release_facts)
  then have r: "r \<in> set (leases (the_db w))" "l_token r = l_token l"
    using sel_Some by (fastforce simp: releasable_def)+
  then have "r = l" using assms(1,2) by (auto simp: db_inv_def tokens_ok_def granted_def)
  then show False using r assms(3) by simp
qed

definition fenced_db :: db where
  "fenced_db = (let old = \<lparr>l_resource = ''/repo'', l_kind = ''path'', l_job = ''job-a'', l_token = ''1-00'',
      l_acquired = ''2026-01-01T00:00:00+00:00'', l_expires = ''2026-01-01T01:30:00+00:00''\<rparr>
    in sample_db\<lparr>token_seq := 1, lease_history := [\<lparr>h_lease = old, h_state = ''superseded'', h_recorded_at = ''2026-01-01T02:00:00+00:00''\<rparr>]\<rparr>)"

theorem stale_token_refused_witness:
  "\<exists>e v. Release ''job-a'' ''/repo'' ''path'' ''1-00'' False (sample_world\<lparr>state_db := Some fenced_db\<rparr>) = (Inl e, v)"
proof -
  let ?w = "sample_world\<lparr>state_db := Some fenced_db\<rparr>"
  let ?l = "\<lparr>l_resource = ''/repo'', l_kind = ''path'', l_job = ''job-a'', l_token = ''1-00'',
      l_acquired = ''2026-01-01T00:00:00+00:00'', l_expires = ''2026-01-01T01:30:00+00:00''\<rparr>"
  have d: "the_db ?w = fenced_db" by (simp add: the_db_def)
  have "db_inv fenced_db" "?l \<in> set (granted fenced_db)" "?l \<notin> set (leases fenced_db)"
    by (simp_all add: db_inv_parts tokens_ok_def granted_def fenced_db_def sample_defs unique_def job_states_def in_state_def
        token_no_def eval_numbers Let_def)
  from stale_token_refused [of ?w ?l "''job-a''" "''/repo''" "''path''"] this d show ?thesis by simp
qed

text \<open>
  The error a wrong presentation gets. While no external call fails, a release without force whose
  job or token is not the holder's is \<open>ExitFencing\<close>, and so is the release of a lease that does not
  exist; the ledger is unchanged.
\<close>

lemma Release_fencing_error:
  assumes "healthy w" "exclusive_kind kind" "token \<noteq> []"
    and "\<forall>r. sel lease_key (resource, kind) (leases (the_db w)) = Some r \<longrightarrow> l_job r \<noteq> job \<or> l_token r \<noteq> token"
  shows "\<exists>e v. Release job resource kind token False w = (Inl e, v) \<and> Code e = ExitFencing \<and> the_db v = the_db w"
proof -
  obtain t ts where t: "store_now w = (Inr t, w\<lparr>clock := ts\<rparr>)" using store_now_result by blast
  let ?u = "w\<lparr>clock := ts\<rparr>"
  have f: "faults w = []" using assms(1) by (simp add: healthy_def)
  have "\<exists>e v. release_tx job resource kind token False t ?u = (Inl e, v) \<and> Code e = ExitFencing"
    using assms(4) f
    by (cases "sel lease_key (resource, kind) (leases (the_db w))")
      (auto simp: release_tx_def getLease_def calls_succeed bindA_def throw_def errf_def)
  then obtain e v where "release_tx job resource kind token False t ?u = (Inl e, v)" "Code e = ExitFencing" by blast
  then have e: "Release job resource kind token False w = (Inl e, rollback ?u v)" "Code e = ExitFencing"
    using assms(2,3) healthy_rw [OF assms(1)] t f
    by (simp_all add: Release_def thenA_def bindA_def db_write_def run_tx_def calls_succeed)
  moreover have "the_db (rollback ?u v) = the_db w" by (simp add: rollback_def the_db_def)
  ultimately show ?thesis by blast
qed

text \<open>
  C12: a live lease is exclusive. While no external call fails, a request for a resource whose lease has
  not expired at the reading of the clock is \<open>ExitDenied\<close>, even for the job that holds it, and
  nothing changes.
\<close>

theorem Acquire_denied:
  assumes "healthy w" "exclusive_kind (rq_Kind req)" "rq_Resource req \<noteq> []" "0 \<le> rq_TTL req"
    and "has_key j_id (rq_Job req) (jobs (the_db w))"
    and "sel lease_key (rq_Resource req, rq_Kind req) (leases (the_db w)) = Some r" "parseISO (l_expires r) = Some until"
    and "store_now w = (Inr t, w')" "t < until"
  shows "\<exists>e v. Acquire req w = (Inl e, v) \<and> Code e = ExitDenied \<and> the_db v = the_db w"
proof -
  obtain ts where u: "w' = w\<lparr>clock := ts\<rparr>" using store_now_result [of w] assms(8) by auto
  have f: "faults w = []" using assms(1) by (simp add: healthy_def)
  have "acquire_tx req t w' = (Inl (errf ExitDenied ''lease held''), w')"
    using assms(5-7,9) f
    by (simp add: u acquire_tx_def Let_def requireJob_def getLease_def supersede_def calls_succeed act_defs)
  then have "Acquire req w = (Inl (errf ExitDenied ''lease held''), rollback w' w')"
    using assms(2-4,8) healthy_rw [OF assms(1)] f
    by (simp add: Acquire_def thenA_def bindA_def db_write_def run_tx_def calls_succeed u)
  moreover have "the_db (rollback w' w') = the_db w" by (simp add: rollback_def u the_db_def)
  ultimately show ?thesis by (simp add: errf_def)
qed

lemma printable_sample: "printable (1798761600 * second)" "printable (1798765200 * second)"
  by (simp_all add: printable_def day_of_time_def year_of_def epoch_day_def second_def Let_def)

definition held_db :: db where
  "held_db = sample_db\<lparr>token_seq := 1, leases := [\<lparr>l_resource = ''/repo'', l_kind = ''path'', l_job = ''job-a'',
     l_token = ''1-00'', l_acquired = ''2026-12-31T23:00:00+00:00'', l_expires = iso (1798765200 * second)\<rparr>]\<rparr>"

lemma held_healthy: "healthy (sample_world\<lparr>state_db := Some held_db\<rparr>)"
  by (simp add: healthy_def schema_ok_def the_db_def held_db_def sample_defs SchemaVersion_def)

theorem Acquire_denied_witness:
  "\<exists>e v. Acquire sample_req (sample_world\<lparr>state_db := Some held_db\<rparr>) = (Inl e, v) \<and> Code e = ExitDenied"
proof -
  let ?w = "sample_world\<lparr>state_db := Some held_db\<rparr>"
  have d: "the_db ?w = held_db" by (simp add: the_db_def)
  have now: "store_now ?w = (Inr (1798761600 * second), ?w)" by (simp add: store_now_def sample_world_def second_def)
  have "parseISO (iso (1798765200 * second)) = Some (1798765200 * second)"
    using parseISO_iso [OF printable_sample(2)] by (simp add: second_def)
  then have "\<exists>e v. Acquire sample_req ?w = (Inl e, v) \<and> Code e = ExitDenied \<and> the_db v = the_db ?w"
    by (intro Acquire_denied [OF held_healthy, where until = "1798765200 * second" and t = "1798761600 * second" and w' = ?w
          and r = "\<lparr>l_resource = ''/repo'', l_kind = ''path'', l_job = ''job-a'', l_token = ''1-00'',
            l_acquired = ''2026-12-31T23:00:00+00:00'', l_expires = iso (1798765200 * second)\<rparr>"])
      (simp_all add: now d, simp_all add: sample_req_def exclusive_kind_def KindPath_def held_db_def sample_db_def
        empty_db_def lease_key_def second_def)
  then show ?thesis by blast
qed


section \<open>Reclaiming a job\<close>

lemma claim_facts:
  assumes "Claim_op cl0 w = (Inr res, v)"
  obtains cl t e where "check_claim cl0 = Inr cl" "\<And>s. mono_clock s w \<Longrightarrow> s \<le> t \<and> printable t"
    "schema_ok (boot (the_db w))"
    "if cr_Reclaimed res
     then cl_ReclaimReleased cl
       \<and> (\<exists>j. sel j_id (cl_Job cl) (jobs (the_db w)) = Some j \<and> j_state j = ''released'' \<and> cr_CreatedAt res = j_created_at j)
       \<and> added_event (cl_Job cl) ''job.reclaim'' e (the_db w)
       \<and> the_db v = add_event e (reclaim_job (cl_Job cl) (cl_Lane cl) (cl_T cl) (iso t) (boot (the_db w)))
     else \<not> has_key j_id (cl_Job cl) (jobs (the_db w)) \<and> added_event (cl_Job cl) ''job.claim'' e (the_db w)
       \<and> the_db v = add_event e (add_job (job_entry cl t) (boot (the_db w)))"
proof -
  obtain cl where cl: "check_claim cl0 = Inr cl"
    and r: "thenA (rw True) (bindA store_now (\<lambda>m. db_write (claim_tx cl m))) w = (Inr res, v)"
    using assms by (cases "check_claim cl0") (auto simp: Claim_op_def bindA_def liftE_def)
  from op_success [OF r claim_tx_effect] obtain t u v' where
    u: "the_db u = boot (the_db w)" "schema_ok (the_db u)" and m: "\<And>s. mono_clock s w \<Longrightarrow> s \<le> t \<and> printable t"
    and c: "\<exists>e. if cr_Reclaimed res
     then cl_ReclaimReleased cl
       \<and> (\<exists>j. sel j_id (cl_Job cl) (jobs (the_db u)) = Some j \<and> j_state j = ''released'' \<and> cr_CreatedAt res = j_created_at j)
       \<and> added_event (cl_Job cl) ''job.reclaim'' e (the_db u)
       \<and> the_db v' = add_event e (reclaim_job (cl_Job cl) (cl_Lane cl) (cl_T cl) (iso t) (the_db u))
     else \<not> has_key j_id (cl_Job cl) (jobs (the_db u)) \<and> added_event (cl_Job cl) ''job.claim'' e (the_db u)
       \<and> the_db v' = add_event e (add_job (job_entry cl t) (the_db u))" and v: "the_db v = the_db v'" by metis
  from c obtain e where e: "if cr_Reclaimed res
     then cl_ReclaimReleased cl
       \<and> (\<exists>j. sel j_id (cl_Job cl) (jobs (the_db u)) = Some j \<and> j_state j = ''released'' \<and> cr_CreatedAt res = j_created_at j)
       \<and> added_event (cl_Job cl) ''job.reclaim'' e (the_db u)
       \<and> the_db v' = add_event e (reclaim_job (cl_Job cl) (cl_Lane cl) (cl_T cl) (iso t) (the_db u))
     else \<not> has_key j_id (cl_Job cl) (jobs (the_db u)) \<and> added_event (cl_Job cl) ''job.claim'' e (the_db u)
       \<and> the_db v' = add_event e (add_job (job_entry cl t) (the_db u))" by blast
  show ?thesis by (rule that [OF cl m, of e]) (use u e v in \<open>simp_all add: added_event_def split: if_splits\<close>)
qed


definition released_db :: db where
  "released_db = sample_db\<lparr>jobs := [\<lparr>j_id = ''job-a'', j_owner_lane = ''lane'', j_state = ''released'', j_t_level = ''T1'',
       j_created_at = ''2026-01-01T00:00:00+00:00'', j_updated_at = ''2026-01-01T00:00:00+00:00''\<rparr>]\<rparr>"

abbreviation "released_world \<equiv> sample_world\<lparr>state_db := Some released_db\<rparr>"

lemma released_world_facts:
  "the_db released_world = released_db" "db_inv released_db" "healthy released_world"
  "timely (1798761600 * second) released_world"
  by (simp_all add: the_db_def db_inv_parts tokens_ok_def granted_def released_db_def sample_defs unique_def job_states_def
      in_state_def healthy_def schema_ok_def SchemaVersion_def timely_def mono_clock_def settled_at_def printable_sample
      less_imp_neq [OF second_pos, symmetric])

lemma reclaim_runs:
  assumes "faults u = []" "sel j_id (cl_Job cl) (jobs (the_db u)) = Some j" "j_state j = ''released''" "cl_ReclaimReleased cl"
    "free_seq (cl_Job cl) u \<le> max_int64"
  shows "\<exists>res v. claim_tx cl t u = (Inr res, v) \<and> faults v = [] \<and> cr_Reclaimed res"
proof -
  let ?u = "upd_db (reclaim_job (cl_Job cl) (cl_Lane cl) (cl_T cl) (iso t)) u"
  have "free_seq (cl_Job cl) ?u \<le> max_int64" using free_seq_cong [of ?u u] assms(5) by simp
  from recordEvent_free [of ?u, OF _ this] assms(1)
  have ev: "\<exists>v. recordEvent (cl_Job cl) kind p None ?u = (Inr (free_seq (cl_Job cl) ?u), v) \<and> faults v = []" for kind p
    by simp
  show ?thesis
    unfolding claim_tx_def Let_def
    using assms(1-4) ev [of "''job.reclaim''" "JObj (claim_payload cl (claim_label cl) @ [(''previous_created_at'', JStr (j_created_at j)),
                       (''previous_owner_lane'', JStr (j_owner_lane j))])"]
    by (auto simp: calls_succeed act_defs)
qed

lemma sample_reclaim:
  "\<exists>res v. Claim_op (sample_claim\<lparr>cl_ReclaimReleased := True\<rparr>) released_world = (Inr res, v) \<and> cr_Reclaimed res"
proof -
  let ?cl = "sample_claim\<lparr>cl_ReclaimReleased := True, cl_Role := ''worker''\<rparr>"
  let ?t = "1798761600 * second"
  have check: "check_claim (sample_claim\<lparr>cl_ReclaimReleased := True\<rparr>) = Inr ?cl"
    by (simp add: check_claim_def claim_role_def sample_claim_def validJobID_def tLevels_def)
  have now: "store_now released_world = (Inr ?t, released_world)"
    by (simp add: store_now_def sample_world_def second_def)
  have "events (the_db released_world) = events (the_db sample_world)"
    by (simp only: released_world_facts sample_the_db) (simp add: released_db_def)
  then have "free_seq ''job-a'' released_world \<le> max_int64"
    using free_seq_cong [of released_world sample_world "''job-a''"] sample_free by simp
  then have "\<exists>res v. claim_tx ?cl ?t released_world = (Inr res, v) \<and> faults v = [] \<and> cr_Reclaimed res"
    using sample_healthy
    by (intro reclaim_runs [where j = "hd (jobs released_db)"])
      (simp_all only: released_world_facts, simp_all add: released_db_def sample_claim_def healthy_def)
  then obtain res v where r: "claim_tx ?cl ?t released_world = (Inr res, v)" "faults v = []" "cr_Reclaimed res" by blast
  have "faults released_world = []" by (simp add: sample_world_def)
  from healthy_write [OF this, of "claim_tx ?cl ?t"] r(1,2)
  have "db_write (claim_tx ?cl ?t) released_world = (Inr res, v)" by blast
  then show ?thesis
    using r(3) healthy_rw [OF released_world_facts(3), of True] now by (simp add: Claim_op_def check act_defs)
qed


end
