(* ===== verification/Arb_Evidence.thy ===== *)
theory Arb_Evidence
  imports Arb_Props
begin

text \<open>
  Promises about evidence: what garbage collection and the forced release need before they retire
  anything, what the event log lets a caller write, what the readers see, and how stored times compare.
\<close>

section \<open>Retirement\<close>

lemma gc_facts:
  assumes "gc_write snaps agents w = (Inr res, v)" "db_inv (the_db w)"
  obtains t where "gc_step (retirable agents snaps t (boot (the_db w))) (boot (the_db w)) (the_db v)"
    "\<forall>job\<in>set (checked_jobs (boot (the_db w))). known_job agents (boot (the_db w)) job"
    "\<forall>a\<in>set agents. ag_Status a \<in> set agentStatuses"
proof -
  have ok: "\<forall>a\<in>set agents. ag_Status a \<in> set agentStatuses"
    and r: "thenA (rw False) (db_write (gc_tx snaps agents)) w = (Inr res, v)"
    using assms(1) by (auto simp: gc_write_def checkAgents_def list_ex_iff thenA_def bindA_def liftE_def split: if_splits)
  obtain y w1 where w1: "rw False w = (Inr y, w1)" "db_write (gc_tx snaps agents) w1 = (Inr res, v)"
    using r by (cases "rw False w"; cases "fst (rw False w)") (auto simp: thenA_def bindA_def)
  note u = rw_spec(1,2) [OF w1(1)]
  let ?Q = "\<lambda>v. \<exists>t. gc_step (retirable agents snaps t (boot (the_db w))) (boot (the_db w)) (the_db v)
     \<and> (\<forall>job\<in>set (checked_jobs (boot (the_db w))). known_job agents (boot (the_db w)) job)"
  have "wp (db_write (gc_tx snaps agents)) (\<lambda>_. ?Q) w1"
  proof (rule wp_db_writeI)
    fix fs
    have "db_inv (the_db (w1\<lparr>faults := fs\<rparr>))" "schema_ok (the_db (w1\<lparr>faults := fs\<rparr>))"
      using u inv_boot [OF assms(2)] by simp_all
    then show "wp (gc_tx snaps agents) (\<lambda>_. ?Q) (w1\<lparr>faults := fs\<rparr>)"
      by (rule wp_mono [OF gc_tx_effect]) (use u in auto)
  qed simp
  from wpD [OF this w1(2)] show ?thesis using that ok by blast
qed

lemma retirable_boot [simp]:
  "retirable agents snaps t (boot d) job = retirable agents snaps t d job"
  "known_job agents (boot d) job = known_job agents d job" "checked_jobs (boot d) = checked_jobs d"
  by (simp_all add: retirable_def known_job_def checked_jobs_def rowless_jobs_def claim_events_def job_events_def
      startup_events_def snapshot_of_def)



lemma ro_spec: "wp ro (\<lambda>_ v. the_db v = the_db w) w"
  by (auto simp: ro_def wp_rules split: option.splits)

lemma snapshots_pass:
  "wp (foldA (\<lambda>out id. bindA (jobSnapshot id) (\<lambda>sn. ret (out @ [(id, sn)]))) [] ids)
     (\<lambda>snaps v. the_db v = the_db w \<and> snaps = map (\<lambda>id. (id, snapshot_of id (the_db w))) ids) w"
  by (rule wp_foldA_upto [where I = "\<lambda>ys snaps v. the_db v = the_db w \<and> snaps = map (\<lambda>id. (id, snapshot_of id (the_db w))) ys"])
    (auto simp: wp_rules intro!: wp_jobSnapshot)

lemma snapshots_spec:
  assumes "snapshots [] w = (Inr snaps, v)"
  shows "the_db v = the_db w" "snap_at snaps job = snapshot_of job (the_db w)"
proof -
  have "wp (snapshots []) (\<lambda>snaps v. the_db v = the_db w \<and> snaps = map (\<lambda>id. (id, snapshot_of id (the_db w))) (map j_id (jobs (the_db w)))) w"
    unfolding snapshots_def wp_thenA
  proof (rule wp_mono [OF ro_spec])
    fix v :: world assume v: "the_db v = the_db w"
    show "wp (bindA (if [] = ([] :: string) then query (\<lambda>d. map j_id (jobs d)) else ret [[]])
        (foldA (\<lambda>out id. bindA (jobSnapshot id) (\<lambda>sn. ret (out @ [(id, sn)]))) []))
        (\<lambda>snaps v. the_db v = the_db w \<and> snaps = map (\<lambda>id. (id, snapshot_of id (the_db w))) (map j_id (jobs (the_db w)))) v"
      unfolding wp_bindA using v by (auto simp: wp_query intro!: wp_mono [OF snapshots_pass])
  qed
  from wpD [OF this assms] have s: "the_db v = the_db w"
    "snaps = map (\<lambda>id. (id, snapshot_of id (the_db w))) (map j_id (jobs (the_db w)))" by auto
  then show "the_db v = the_db w" by simp
  have "map_of (map (\<lambda>id. (id, f id)) ids) job = (if job \<in> set ids then Some (f job) else None)" for f :: "string \<Rightarrow> snapshot option" and ids
    by (induction ids) auto
  from this [of "\<lambda>id. snapshot_of id (the_db w)" "map j_id (jobs (the_db w))"]
  have m: "map_of snaps job = (if job \<in> set (map j_id (jobs (the_db w))) then Some (snapshot_of job (the_db w)) else None)"
    unfolding s(2) .
  have "job \<notin> set (map j_id (jobs (the_db w))) \<Longrightarrow> snapshot_of job (the_db w) = None"
    by (auto simp: snapshot_of_None sel_None has_key_iff)
  then show "snap_at snaps job = snapshot_of job (the_db w)" unfolding snap_at_def m by simp
qed

text \<open>
  C8: a job that is reclaimed, claimed or leased while \<open>GC\<close> reads the agent list is left alone. The
  agent source is any action, so other processes may have changed the ledger meanwhile; if the state or
  the claim sequence of a job at the write is not the one at the start, its state and its quota-pool
  records are the same after the pass.
\<close>

theorem GC_spares_changed_jobs:
  assumes "GC agents w = (Inr res, v)" "snapshots [] w = (Inr snaps, w1)" "agents w1 = (Inr listed, w2)"
    and "db_inv (the_db w2)" "snapshot_of job (the_db w) \<noteq> snapshot_of job (the_db w2)"
  shows "(\<forall>s. in_state job s (the_db w2) \<longrightarrow> in_state job s (the_db v))
     \<and> (\<forall>q\<in>set (quota_pool_records (the_db w2)). q_job q = job \<longrightarrow> q \<in> set (quota_pool_records (the_db v)))"
proof -
  have "gc_write snaps listed w2 = (Inr res, v)" using assms(1-3) by (simp add: GC_def bindA_def)
  then obtain t where g: "gc_step (retirable listed snaps t (boot (the_db w2))) (boot (the_db w2)) (the_db v)"
    using gc_facts [OF _ assms(4)] by metis
  have "\<not> retirable listed snaps t (the_db w2) job"
    using assms(5) snapshots_spec(2) [OF assms(2), of job] by (auto simp: retirable_def sameSnapshot_def)
  then show ?thesis using g unfolding gc_step_def retirable_boot boot_tables by blast
qed



section \<open>The event log\<close>

lemma append_facts:
  assumes "AppendEvent job kind payload seq w = (Inr n, v)"
  obtains e where "validJobID job" "kind \<notin> set claimKinds" "e_kind e = kind" "e_job e = job"
    "the_db v = add_event e (boot (the_db w))" "n = e_seq e" "\<not> has_key event_key (event_key e) (events (the_db w))"
proof -
  have g: "validJobID job" "kind \<notin> set claimKinds"
    and r: "thenA (rw True) (db_write (recordEvent job kind (case payload of None \<Rightarrow> JObj [] | Some p \<Rightarrow> p) seq)) w = (Inr n, v)"
    using assms by (auto simp: AppendEvent_def with_rw_def throw_def split: if_splits)
  obtain y w1 where w1: "rw True w = (Inr y, w1)"
      "db_write (recordEvent job kind (case payload of None \<Rightarrow> JObj [] | Some p \<Rightarrow> p) seq) w1 = (Inr n, v)"
    using r by (cases "rw True w"; cases "fst (rw True w)") (auto simp: thenA_def bindA_def)
  note u = rw_spec(1) [OF w1(1)]
  let ?Q = "\<lambda>n v. \<exists>e. e_kind e = kind \<and> e_job e = job \<and> the_db v = add_event e (boot (the_db w)) \<and> n = e_seq e
      \<and> \<not> has_key event_key (event_key e) (events (the_db w))"
  have "wp (db_write (recordEvent job kind (case payload of None \<Rightarrow> JObj [] | Some p \<Rightarrow> p) seq)) ?Q w1"
    by (rule wp_db_writeI, rule wp_event) (use u in auto)
  from wpD [OF this w1(2)] show ?thesis using that g by blast
qed

text \<open>
  C15: only \<open>Claim\<close> writes claim evidence. An appended event, of any kind the operation accepts, never
  changes the claim events of any job, nor any job row, so the agent label garbage collection and the
  readers resolve is the one the claims wrote.
\<close>

theorem AppendEvent_keeps_claims:
  assumes "AppendEvent job kind payload seq w = (Inr n, v)"
  shows "claim_events j (the_db v) = claim_events j (the_db w) \<and> jobs (the_db v) = jobs (the_db w)
     \<and> claimAgentLabel_of (claim_events j (the_db v)) = claimAgentLabel_of (claim_events j (the_db w))"
proof (rule append_facts [OF assms])
  fix e assume k: "kind \<notin> set claimKinds" "e_kind e = kind" and v: "the_db v = add_event e (boot (the_db w))"
  have "claim_events j d = sort_key e_seq (filter (\<lambda>e. e_job e = j \<and> (e_kind e = ''job.claim'' \<or> e_kind e = ''job.reclaim'')) (events d))" for d
    by (simp add: claim_events_def job_events_def filter_sort conj_commute)
  then show ?thesis using k v by (auto simp: claimKinds_def)
qed

lemma jobSnapshot_runs: "faults u = [] \<Longrightarrow> jobSnapshot job u = (Inr (snapshot_of job (the_db u)), u)"
  by (cases "sel j_id job (jobs (the_db u))") (simp_all add: jobSnapshot_def snapshot_of_def calls_succeed act_defs)

lemma orphanState_runs:
  assumes "faults u = []" "eligible job (the_db u)"
  shows "\<exists>i. orphanState job u = (Inr i, u) \<and> o_exists i \<and> o_eligible i \<and> o_state i = ''leased'' \<and> o_leases i = [] \<and> o_quotas i = []"
proof -
  obtain j where "sel j_id job (jobs (the_db u)) = Some j" "j_state j = ''leased''" using assms(2) by (auto simp: eligible_def)
  moreover have "orphan_leases job (the_db u) = []" "orphan_quotas job (the_db u) = []"
    using assms(2) by (simp_all add: eligible_def orphan_leases_def orphan_quotas_def filter_empty_conv)
  ultimately show ?thesis using assms(1) by (simp add: orphanState_def Let_def calls_succeed act_defs)
qed

lemma record_orphan_runs:
  assumes "faults u = []" "free_seq job u \<le> max_int64"
  shows "\<exists>out v. record_orphan job prior dc forced t u = (Inr out, v) \<and> faults v = []"
proof -
  let ?u = "upd_db (release_job job (iso t)) u"
  have "free_seq job ?u \<le> max_int64" using free_seq_cong [of ?u u] assms(2) by simp
  from recordEvent_free [of ?u, OF _ this] assms(1)
  have "\<exists>v. recordEvent job kind p None ?u = (Inr (free_seq job ?u), v) \<and> faults v = []" for kind p by simp
  from this [of "''job.orphan_release''"] show ?thesis
    unfolding record_orphan_def using assms(1)
    by (auto simp: calls_succeed act_defs split: prod.splits sum.splits) (metis Inr_inject prod.inject sum.distinct(1))+
qed

lemma release_orphan_runs:
  assumes "faults u = []" "eligible job (the_db u)" "store_now u = (Inr t, u')" "retirable agents snaps t (the_db u) job"
    "free_seq job u \<le> max_int64"
  shows "\<exists>out v. release_orphan_tx job snaps agents u = (Inr out, v) \<and> faults v = []"
proof -
  obtain ts where u': "u' = u\<lparr>clock := ts\<rparr>" using store_now_result [of u] assms(3) by auto
  have f: "faults u' = []" "the_db u' = the_db u" using assms(1) u' by simp_all
  obtain label st where r: "claimAgentLabel_of (claim_events job (the_db u)) = Inr label" "label \<noteq> []"
    "\<forall>a\<in>set agents. \<not> agent_matches job label a" "sameSnapshot (snap_at snaps job) (snapshot_of job (the_db u))"
    "startup_times (startup_events job (the_db u)) [] [] = Inr st" "blocker_text t st = []"
    using assms(4) by (auto simp: retirable_def)
  obtain i where i: "orphanState job u = (Inr i, u)" "o_exists i" "o_eligible i" "o_state i = ''leased''" "o_leases i = []" "o_quotas i = []"
    using orphanState_runs [OF assms(1,2)] by blast
  have m: "fst (matchedStatuses agents job label) = []" "\<not> snd (matchedStatuses agents job label)"
    using matchedStatuses_none r(3) by blast+
  have l: "claimAgentLabel job u' = (Inr label, u')" "startupBlocker job t u' = (Inr [], u')"
    using f r by (simp_all add: claimAgentLabel_def startupBlocker_def calls_succeed act_defs)
  have "free_seq job u' \<le> max_int64" using free_seq_cong [of u' u] f u' assms(5) by simp
  note o = record_orphan_runs [OF f(1) this]
  show ?thesis
    unfolding release_orphan_tx_def Let_def
    using o [of "''leased''" "\<lparr>dc_job = job, dc_label = label, dc_statuses = [], dc_matched = False, dc_quota = None\<rparr>" True t]
      assms(3) i r m l
    by (simp add: bindA_def ret_def jobSnapshot_runs [OF assms(1)] orphan_blockers_def hasStatus_def)
qed


text \<open>The sample orphan: leased, no row, claimed an hour ago, no agent.\<close>

definition orphan_db :: db where
  "orphan_db = sample_db\<lparr>jobs := [\<lparr>j_id = ''job-a'', j_owner_lane = ''lane'', j_state = ''leased'', j_t_level = ''T1'',
       j_created_at = ''2026-01-01T00:00:00+00:00'', j_updated_at = ''2026-01-01T00:00:00+00:00''\<rparr>],
     events := [event_entry ''job-a'' 1 ''job.claim'' (JObj [(''agent_label'', JStr ''job-a'')]) (iso (1798758000 * second))]\<rparr>"

abbreviation "orphan_world \<equiv> sample_world\<lparr>state_db := Some orphan_db\<rparr>"

abbreviation "orphan_snaps \<equiv> [(''job-a'', Some \<lparr>sn_state = ''leased'', sn_claim = Some 1\<rparr>)]"

lemma orphan_the_db [simp]: "the_db orphan_world = orphan_db"
  by (simp add: the_db_def)

lemma orphan_inv: "db_inv orphan_db" "healthy orphan_world"
  by (simp_all add: db_inv_parts tokens_ok_def granted_def orphan_db_def sample_defs unique_def job_states_def
      in_state_def healthy_def schema_ok_def SchemaVersion_def the_db_def)

lemma orphan_now: "store_now orphan_world = (Inr (1798761600 * second), orphan_world)"
  by (simp add: store_now_def sample_world_def second_def)

lemma orphan_eligible: "eligible ''job-a'' orphan_db"
  by (simp add: eligible_def orphan_db_def sample_defs)

lemma orphan_free: "free_seq ''job-a'' orphan_world \<le> max_int64"
  by (simp add: free_seq_def max_seq_def sample_world_def the_db_def orphan_db_def sample_db_def empty_db_def event_entry_def eval_numbers)

lemma printable_claimed: "printable (1798758000 * second)"
  by (simp add: printable_def day_of_time_def year_of_def epoch_day_def second_def Let_def)

lemma orphan_claims:
  "claim_events ''job-a'' orphan_db = [event_entry ''job-a'' 1 ''job.claim'' (JObj [(''agent_label'', JStr ''job-a'')]) (iso (1798758000 * second))]"
  "startup_events ''job-a'' orphan_db = [event_entry ''job-a'' 1 ''job.claim'' (JObj [(''agent_label'', JStr ''job-a'')]) (iso (1798758000 * second))]"
  "snapshot_of ''job-a'' orphan_db = Some \<lparr>sn_state = ''leased'', sn_claim = Some 1\<rparr>"
  by (simp_all add: claim_events_def job_events_def startup_events_def snapshot_of_def orphan_db_def event_entry_def max_opt_def)

lemma orphan_label: "claimAgentLabel_of (claim_events ''job-a'' orphan_db) = Inr ''job-a''"
  by (simp add: orphan_claims claimAgentLabel_of_def event_entry_def event_doc_def eventPayload_def body_payload_def obj_get_def)

lemma orphan_startup:
  "startup_times (startup_events ''job-a'' orphan_db) [] [] = Inr ([1798758000 * second], [])"
  "blocker_text (1798761600 * second) ([1798758000 * second], []) = []"
proof -
  have "parseISO (iso (1798758000 * second)) = Some (1798758000 * second)"
    using parseISO_iso [OF printable_claimed] by (simp add: second_def)
  then show "startup_times (startup_events ''job-a'' orphan_db) [] [] = Inr ([1798758000 * second], [])"
    by (simp add: orphan_claims event_entry_def)
  show "blocker_text (1798761600 * second) ([1798758000 * second], []) = []"
    by (simp add: blocker_text_def time_sub_def latest_time_def zero_time_def OrphanStartupGrace_def minute_def second_def
        max_int64_def min_int64_def)
qed

lemma orphan_retirable: "retirable [] orphan_snaps (1798761600 * second) orphan_db ''job-a''"
  unfolding retirable_def using orphan_label orphan_startup
  by (auto simp: orphan_claims(3) sameSnapshot_def snap_at_def)


lemma orphan_released: "\<exists>out v. release_orphan_write ''job-a'' orphan_snaps [] orphan_world = (Inr out, v)"
proof -
  have f: "faults orphan_world = []" by (simp add: sample_world_def)
  have "eligible ''job-a'' (the_db orphan_world)" "retirable [] orphan_snaps (1798761600 * second) (the_db orphan_world) ''job-a''"
    by (simp_all only: orphan_the_db orphan_eligible orphan_retirable)
  from release_orphan_runs [OF f this(1) orphan_now this(2) orphan_free] obtain out v where
    "release_orphan_tx ''job-a'' orphan_snaps [] orphan_world = (Inr out, v)" "faults v = []" by blast
  then have "db_write (release_orphan_tx ''job-a'' orphan_snaps []) orphan_world = (Inr out, v)" by (rule healthy_write [OF f])
  then show ?thesis using healthy_rw [OF orphan_inv(2)]
    by (simp add: release_orphan_write_def thenA_def bindA_def liftE_def checkAgents_def)
qed


theorem AppendEvent_keeps_claims_witness:
  "\<exists>n v. AppendEvent ''job-a'' ''note'' None None orphan_world = (Inr n, v)
     \<and> claimAgentLabel_of (claim_events ''job-a'' (the_db v)) = Inr ''job-a''"
proof -
  have f: "faults orphan_world = []" by (simp add: sample_world_def)
  from recordEvent_free [OF f orphan_free, of "''note''" "JObj []"] obtain n v where
    "recordEvent ''job-a'' ''note'' (JObj []) None orphan_world = (Inr n, v)" "faults v = []" by blast
  then have "db_write (recordEvent ''job-a'' ''note'' (JObj []) None) orphan_world = (Inr n, v)" by (rule healthy_write [OF f])
  moreover have "\<not> has_suffix (safeKind ''note'') ''claim''" by code_simp
  ultimately have a: "AppendEvent ''job-a'' ''note'' None None orphan_world = (Inr n, v)"
    using healthy_rw [OF orphan_inv(2)]
    by (simp add: AppendEvent_def with_rw_def thenA_def bindA_def validJobID_def claimKinds_def)
  from AppendEvent_keeps_claims [OF a, of "''job-a''"] a orphan_label show ?thesis by (simp only: orphan_the_db) blast
qed

lemma orphan_tables:
  "exclusive_leases orphan_db = []" "quota_pool_records orphan_db = []" "rowless_jobs orphan_db = [''job-a'']"
  by (simp_all add: exclusive_leases_def rowless_jobs_def orphan_db_def sample_defs)

lemma orphan_judge:
  "judge [] snaps (1798761600 * second) no_verdicts (''job-a'', None) orphan_world =
     (Inr (if sameSnapshot (snap_at snaps ''job-a'') (Some \<lparr>sn_state = ''leased'', sn_claim = Some 1\<rparr>)
       then no_verdicts\<lparr>vd_rowless := [\<lparr>dc_job = ''job-a'', dc_label = ''job-a'', dc_statuses = [], dc_matched = False, dc_quota = None\<rparr>]\<rparr>
       else no_verdicts\<lparr>vd_skipped := [(''job-a'', ''job state or claim sequence changed after Herdr snapshot'')]\<rparr>), orphan_world)"
proof -
  have f: "faults orphan_world = []" by (simp add: sample_world_def)
  have l: "claimAgentLabel ''job-a'' orphan_world = (Inr ''job-a'', orphan_world)"
    "startupBlocker ''job-a'' (1798761600 * second) orphan_world = (Inr [], orphan_world)"
    using f orphan_label orphan_startup by (simp_all add: claimAgentLabel_def startupBlocker_def calls_succeed act_defs)
  show ?thesis
    using l jobSnapshot_runs [OF f, of "''job-a''"]
    by (simp add: judge_def Let_def bindA_def ret_def matchedStatuses_def hasStatus_def no_verdicts_def orphan_claims)
qed

lemma orphan_gc:
  "\<exists>res v. gc_write snaps [] orphan_world = (Inr res, v)
     \<and> (sameSnapshot (snap_at snaps ''job-a'') (snapshot_of ''job-a'' orphan_db) \<longrightarrow> gc_OrphanReleased res \<noteq> [])"
proof -
  let ?dc = "\<lparr>dc_job = ''job-a'', dc_label = ''job-a'', dc_statuses = [], dc_matched = False, dc_quota = None\<rparr>"
  have f: "faults orphan_world = []" by (simp add: sample_world_def)
  from record_orphan_runs [OF f orphan_free] obtain out v where
    o: "record_orphan ''job-a'' ''leased'' ?dc False (1798761600 * second) orphan_world = (Inr out, v)" "faults v = []" by blast
  have "eligible ''job-a'' (the_db orphan_world)" by (simp only: orphan_the_db orphan_eligible)
  from orphanState_runs [OF f this] obtain i where i: "orphanState ''job-a'' orphan_world = (Inr i, orphan_world)"
    "o_eligible i" "o_state i = ''leased''" by blast
  have q: "query g orphan_world = (Inr (g orphan_db), orphan_world)" for g :: "db \<Rightarrow> 'b"
    using f by (simp add: calls_succeed act_defs)
  have "\<exists>res v. gc_tx snaps [] orphan_world = (Inr res, v) \<and> faults v = []
     \<and> (sameSnapshot (snap_at snaps ''job-a'') (snapshot_of ''job-a'' orphan_db) \<longrightarrow> gc_OrphanReleased res \<noteq> [])"
    using o i f
    by (simp add: gc_tx_def gc_passes_def bindA_def orphan_now q orphan_tables gc_checks_def orphan_judge [unfolded no_verdicts_def] ret_def
        no_verdicts_def Let_def release_orphan_job_def orphan_claims(3))
  then obtain res v where r: "gc_tx snaps [] orphan_world = (Inr res, v)" "faults v = []"
     "sameSnapshot (snap_at snaps ''job-a'') (snapshot_of ''job-a'' orphan_db) \<longrightarrow> gc_OrphanReleased res \<noteq> []" by blast
  from r(1,2) have "db_write (gc_tx snaps []) orphan_world = (Inr res, v)" by (rule healthy_write [OF f])
  then show ?thesis using healthy_rw [OF orphan_inv(2)] r(3)
    by (simp add: gc_write_def thenA_def bindA_def liftE_def checkAgents_def)
qed


text \<open>The agent source of the next witness lets the job be leased while the agents are listed.\<close>

theorem GC_spares_changed_jobs_witness:
  "\<exists>res v. GC (\<lambda>w. (Inr [], w\<lparr>state_db := Some orphan_db\<rparr>)) sample_world = (Inr res, v) \<and> in_state ''job-a'' ''leased'' (the_db v)"
proof -
  let ?snaps = "[(''job-a'', Some \<lparr>sn_state = ''claimed'', sn_claim = Some 1\<rparr>)]"
  let ?agents = "\<lambda>w. (Inr [], w\<lparr>state_db := Some orphan_db\<rparr>) :: (aerror + Agent list) \<times> world"
  have f: "faults sample_world = []" by (simp add: sample_world_def)
  have s: "snapshot_of ''job-a'' sample_db = Some \<lparr>sn_state = ''claimed'', sn_claim = Some 1\<rparr>"
    by (simp add: snapshot_of_def sample_db_def event_entry_def max_opt_def)
  have ro: "ro sample_world = (Inr (), sample_world)"
    using sample_healthy by (auto simp: ro_def healthy_def checkSchema_def schema_ok_def calls_succeed act_defs Let_def)
  have snaps: "snapshots [] sample_world = (Inr ?snaps, sample_world)"
    using f jobSnapshot_runs [OF f, of "''job-a''"] s
    by (simp add: snapshots_def thenA_def bindA_def ro calls_succeed ret_def) (simp add: sample_db_def bindA_def ret_def)
  from orphan_gc [of ?snaps] obtain res v where "gc_write ?snaps [] orphan_world = (Inr res, v)" by blast
  then have g: "GC ?agents sample_world = (Inr res, v)" by (simp add: GC_def bindA_def snaps)
  have "db_inv (the_db orphan_world)" "snapshot_of ''job-a'' (the_db sample_world) \<noteq> snapshot_of ''job-a'' (the_db orphan_world)"
    by (simp_all only: orphan_the_db orphan_inv sample_the_db s orphan_claims) simp
  from GC_spares_changed_jobs [OF g snaps _ this, of "[]"] g eligible_in_state [OF orphan_eligible]
  show ?thesis by (simp only: orphan_the_db) blast
qed


end
