(* ===== verification/Arb_Refine.thy ===== *)
theory Arb_Refine
  imports Arb_Evidence
begin

text \<open>
  The ledger as an implementation of a lock service: an abstract specification of what its clients rely
  on, and the proof that every operation refines it. Only \<open>Acquire\<close> and \<open>Release\<close> touch a lock.
\<close>

section \<open>Transactions that touch no lease\<close>

definition same_locks :: "world \<Rightarrow> world \<Rightarrow> bool" where
  "same_locks w v \<longleftrightarrow> leases (the_db v) = leases (the_db w) \<and> token_seq (the_db v) = token_seq (the_db w)"

interpretation lk: world_relation same_locks
  by unfold_locales (auto simp: same_locks_def)

lemma locks_fails: "always same_locks fails" and locks_now: "always same_locks store_now"
  by (auto simp: always_def fails_def store_now_def same_locks_def the_db_def split: list.splits)

lemma locks_call: "always same_locks (call e)"
  unfolding call_def by (intro lk.always_rules locks_fails always_if)

lemma locks_query: "always same_locks (query f)"
  unfolding query_def by (intro lk.always_rules locks_call)

definition leaves_locks :: "(db \<Rightarrow> db) \<Rightarrow> bool" where
  "leaves_locks f \<longleftrightarrow> (\<forall>d. leases (f d) = leases d \<and> token_seq (f d) = token_seq d)"

lemma locks_modify: "leaves_locks f \<Longrightarrow> always same_locks (modifyA (upd_db f))" and locks_file: "always same_locks (modifyA (add_file j n b))"
  by (auto simp: leaves_locks_def same_locks_def intro: always_modifyA)

lemma locks_exec: "leaves_locks f \<Longrightarrow> always same_locks (exec f)"
  unfolding exec_def by (intro lk.always_rules locks_call locks_modify)

lemma leaves:
  "leaves_locks (\<lambda>d. d\<lparr>events := events d @ [e]\<rparr>)" "leaves_locks (\<lambda>d. d\<lparr>jobs := jobs d @ [j]\<rparr>)"
  "leaves_locks (\<lambda>d. d\<lparr>quota_pool_records := quota_pool_records d @ [q]\<rparr>)" "leaves_locks (archive_db h)"
  "leaves_locks (delete_quota a b)" "leaves_locks (set_job_state a b c)" "leaves_locks (touch_job a b)"
  "leaves_locks (reclaim_job a b c e')" "leaves_locks (release_job a b)"
  by (simp_all add: leaves_locks_def archive_db_def delete_quota_def set_job_state_def touch_job_def reclaim_job_def release_job_def)

lemmas lock_rules = lk.always_rules locks_fails locks_now locks_call locks_query locks_file locks_modify locks_exec leaves always_if always_option

lemma locks_event: "always same_locks (recordEvent job kind payload seq)"
  unfolding recordEvent_def next_seq_def highestPrefix_def writeArtifact_def Let_def by (intro lock_rules)

lemma locks_tx:
  "always same_locks (claim_tx cl t)" "always same_locks (release_claim_tx job)" "always same_locks (record_quota_tx q t)"
  "always same_locks (release_quota_tx job pool force t)" "always same_locks (gc_tx snaps agents)"
  "always same_locks (release_orphan_tx job snaps agents)"
proof -
  note rules = lock_rules locks_event
  have orphan: "always same_locks (record_orphan job prior dc forced t)" for job prior dc forced t
    unfolding record_orphan_def by (intro rules)
  have reads: "always same_locks (jobSnapshot j)" "always same_locks (orphanState j)" "always same_locks (startupBlocker j t)" "always same_locks (claimAgentLabel j)" for j t
    unfolding jobSnapshot_def orphanState_def startupBlocker_def claimAgentLabel_def Let_def by (intro rules)+
  show "always same_locks (claim_tx cl t)" unfolding claim_tx_def insert_job_def Let_def by (intro rules)
  show "always same_locks (release_claim_tx job)" unfolding release_claim_tx_def settleJob_def by (intro rules)
  show "always same_locks (record_quota_tx q t)" unfolding record_quota_tx_def requireJob_def insert_quota_def Let_def by (intro rules)
  show "always same_locks (release_quota_tx job pool force t)" unfolding release_quota_tx_def settleJob_def by (intro rules)
  show "always same_locks (release_orphan_tx job snaps agents)"
    unfolding release_orphan_tx_def Let_def by (intro rules reads orphan)
  have "always same_locks (expire_lease t acc r)" "always same_locks (judge agents snaps t vs ck)" "always same_locks (clean_quota st dc)"
    "always same_locks (release_orphan_job cands t os j)" for t acc r vs ck st dc cands os j
    unfolding expire_lease_def archive_def judge_def clean_quota_def release_orphan_job_def Let_def by (intro rules reads orphan)+
  then show "always same_locks (gc_tx snaps agents)" unfolding gc_tx_def gc_passes_def Let_def by (intro rules)
qed

lemma locks_write: "always same_locks m \<Longrightarrow> always same_locks (db_write m)"
proof -
  assume m: "always same_locks m"
  have "always same_locks (run_tx m)"
  proof (rule alwaysI)
    fix w r v assume r: "run_tx m w = (r, v)"
    obtain s u where s: "m w = (s, u)" by (cases "m w") auto
    obtain s' u' where s': "call sqlErr u = (s', u')" by (cases "call sqlErr u") auto
    have "same_locks w u" "same_locks u u'" using alwaysD [OF m s] alwaysD [OF locks_call s'] by auto
    then show "same_locks w v"
      using r s s' by (auto simp: run_tx_def rollback_def same_locks_def the_db_def split: sum.splits)
  qed
  then show ?thesis unfolding db_write_def by (intro lk.always_rules locks_call)
qed


section \<open>The lock service\<close>

text \<open>
  What the ledger promises its clients: a table of exclusive locks, each with its holder and the token
  it was granted under, and a counter of grants. A grant replaces the holder and takes the next number;
  a release needs the holder's token unless it is forced, and removes that holder only; no other
  operation touches a lock.
\<close>

record locks =
  lk_holder :: "string \<times> string \<rightharpoonup> string \<times> string"
  lk_grants :: int

fun lock_op :: "op \<Rightarrow> locks \<Rightarrow> locks \<Rightarrow> bool" where
  "lock_op (OpAcquire req) l l' \<longleftrightarrow> (\<exists>token. int (token_no token) = lk_grants l + 1
     \<and> l' = \<lparr>lk_holder = (lk_holder l)((rq_Resource req, rq_Kind req) \<mapsto> (rq_Job req, token)), lk_grants = lk_grants l + 1\<rparr>)"
| "lock_op (OpRelease job resource kind token force) l l' \<longleftrightarrow> (\<exists>holder. lk_holder l (resource, kind) = Some holder
     \<and> (force \<or> holder = (job, token)) \<and> l' = l\<lparr>lk_holder := (lk_holder l)((resource, kind) := None)\<rparr>)"
| "lock_op _ l l' \<longleftrightarrow> l' = l"

definition locks_of :: "world \<Rightarrow> locks" where
  "locks_of w = \<lparr>lk_holder = (\<lambda>k. map_option (\<lambda>r. (l_job r, l_token r)) (sel lease_key k (leases (the_db w)))), lk_grants = token_seq (the_db w)\<rparr>"

lemma same_locks_of: "same_locks w v \<Longrightarrow> locks_of v = locks_of w"
  by (simp add: same_locks_def locks_of_def)

lemma boot_locks: "db_inv d \<Longrightarrow> leases (boot d) = leases d \<and> token_seq (boot d) = token_seq d"
  by (auto simp: boot_def db_inv_def empty_db_def)

lemma booted_locks: "db_inv (the_db w) \<Longrightarrow> booted w v \<Longrightarrow> same_locks w v"
  using boot_locks [of "the_db w"] by (auto simp: booted_def same_locks_def)

lemma handle_locks:
  assumes "thenA (rw b) body w = (r, v)" "always same_locks body" "db_inv (the_db w)"
  shows "same_locks w v"
proof -
  obtain s u where s: "rw b w = (s, u)" by (cases "rw b w") auto
  have u: "same_locks w u" by (rule booted_locks [OF assms(3) alwaysD [OF rw_booted s]])
  show ?thesis
  proof (cases s)
    case (Inl e)
    then show ?thesis using s u assms(1) by (simp add: thenA_def bindA_def)
  next
    case (Inr x)
    then have "body u = (r, v)" using s assms(1) by (simp add: thenA_def bindA_def)
    then show ?thesis using alwaysD [OF assms(2)] u lk.related_trans by blast
  qed
qed

lemma check_locks:
  assumes "bindA (liftE x) k w = (r, v)" "db_inv (the_db w)" "\<And>y r v. k y w = (r, v) \<Longrightarrow> same_locks w v"
  shows "same_locks w v"
  using assms by (cases x) (auto simp: bindA_def liftE_def lk.related_refl split: prod.splits)

lemma outcome_locks: "(\<And>s. m = (s, v) \<Longrightarrow> same_locks w v) \<Longrightarrow> outcome m = (r, v) \<Longrightarrow> same_locks w v"
  by (cases m) (auto simp: outcome_def)

lemma timed_locks: "(\<And>t. always same_locks (tx t)) \<Longrightarrow> always same_locks (bindA store_now (\<lambda>t. db_write (tx t)))"
  by (intro lk.always_rules locks_now locks_write)

lemma other_ops:
  assumes "run_op oper w = (r, v)" "db_inv (the_db w)" "\<nexists>req. oper = OpAcquire req" "\<nexists>j a b t f. oper = OpRelease j a b t f"
  shows "same_locks w v"
proof -
  note handle = handle_locks [OF _ _ assms(2)]
  have claim: "same_locks w v" if "Claim_op cl w = (s, v)" for cl s
    using that unfolding Claim_op_def by (rule check_locks) (auto intro: handle timed_locks locks_tx assms(2))
  have lone: "same_locks w v" if "ReleaseClaim job w = (s, v)" for job s
    using that unfolding ReleaseClaim_def by (rule handle) (intro locks_write locks_tx)
  have quota: "same_locks w v" if "RecordQuotaPool q w = (s, v)" for q s
    using that by (auto simp: RecordQuotaPool_def throw_def lk.related_refl intro: handle timed_locks locks_tx split: if_splits)
  have unquota: "same_locks w v" if "ReleaseQuotaPool job pool force w = (s, v)" for job pool force s
    using that unfolding ReleaseQuotaPool_def by (rule handle) (intro timed_locks locks_tx)
  have append: "same_locks w v" if "AppendEvent job kind payload seq w = (s, v)" for job kind payload seq s
    using that by (auto simp: AppendEvent_def with_rw_def throw_def lk.related_refl intro: handle locks_write locks_event split: if_splits)
  have gc: "same_locks w v" if "gc_write snaps agents w = (s, v)" for snaps agents s
    using that unfolding gc_write_def thenA_def [of "liftE _"] by (rule check_locks) (auto intro: handle locks_write locks_tx assms(2))
  have orphan: "same_locks w v" if "release_orphan_write job snaps agents w = (s, v)" for job snaps agents s
    using that unfolding release_orphan_write_def thenA_def [of "liftE _"] by (rule check_locks) (auto intro: handle locks_write locks_tx assms(2))
  show ?thesis
    using assms(1,3,4) by (cases oper) (auto elim!: outcome_locks [rotated] intro: claim lone quota unquota append gc orphan)
qed

text \<open>
  C6: the ledger implements the lock service. In a sound ledger, each operation that succeeds is one
  step of the abstract service on the locks the ledger holds, for any outcomes of the external calls,
  and each operation that is refused leaves the locks as they are.
\<close>

theorem ledger_refines_locks:
  assumes "db_inv (the_db w)" "run_op oper w = (r, v)"
  shows "case r of None \<Rightarrow> lock_op oper (locks_of w) (locks_of v) | Some e \<Rightarrow> locks_of v = locks_of w"
proof (cases r)
  case (Some e)
  then have "booted w v" using run_op_facts [OF assms(2,1)] by (simp add: op_facts_def)
  then show ?thesis using Some same_locks_of booted_locks assms(1) by simp
next
  case None
  note boot = boot_locks [OF assms(1)]
  show ?thesis
  proof (cases oper)
    case (OpAcquire req)
    let ?k = "(rq_Resource req, rq_Kind req)"
    obtain l where l: "Acquire req w = (Inr l, v)"
      using assms(2) None OpAcquire by (cases "Acquire req w") (auto simp: outcome_def split: sum.splits)
    from acquire_facts [OF l assms(1)] obtain t b where
      tok: "gl_Token l = token_text (token_seq (boot (the_db w)) + 1) b"
      and ls: "leases (the_db v) = leases (cleared (sel lease_key ?k (leases (the_db w))) t (boot (the_db w))) @ [lease_row req t (gl_Token l)]"
      and n: "token_seq (the_db v) = token_seq (boot (the_db w)) + 1" by metis
    have ls': "leases (the_db v) = del lease_key ?k (leases (the_db w)) @ [lease_row req t (gl_Token l)]"
      using ls cleared_leases [of ?k "boot (the_db w)"] boot by simp
    have "int (token_no (gl_Token l)) = token_seq (the_db w) + 1"
      using tok boot assms(1) by (simp add: token_no_text db_inv_def tokens_ok_def)
    then show ?thesis
      using None OpAcquire ls' n boot
      by (auto simp: locks_of_def sel_append sel_del sel_def [of _ _ "[_]"] lease_row_def lease_key_def fun_eq_iff intro!: exI [of _ "gl_Token l"] split: option.splits)
  next
    case (OpRelease job resource kind token force)
    obtain x where x: "Release job resource kind token force w = (Inr x, v)"
      using assms(2) None OpRelease by (cases "Release job resource kind token force w") (auto simp: outcome_def split: sum.splits)
    from release_facts [OF x] obtain t l where l: "releasable job resource kind token force (the_db w) l"
      and "\<exists>e. the_db v = add_event e (settled (l_job l) t (retired l (if force then ''force-released'' else ''released'') t (boot (the_db w))))"
      by metis
    moreover have "lease_key l = (resource, kind)" using l sel_Some [of lease_key "(resource, kind)"] by (auto simp: releasable_def)
    ultimately show ?thesis
      using None OpRelease boot by (auto simp: locks_of_def releasable_def sel_del retired_def lease_key_def fun_eq_iff)
  qed (use None other_ops [OF assms(2,1), THEN same_locks_of] in simp_all)
qed

theorem ledger_refines_locks_witness:
  "\<exists>v token. run_op (OpAcquire sample_req) sample_world = (None, v)
     \<and> locks_of v = \<lparr>lk_holder = (lk_holder (locks_of sample_world))((rq_Resource sample_req, rq_Kind sample_req) \<mapsto> (rq_Job sample_req, token)),
          lk_grants = lk_grants (locks_of sample_world) + 1\<rparr>"
proof -
  obtain l v where l: "Acquire sample_req sample_world = (Inr l, v)" using sample_acquire by blast
  have run: "run_op (OpAcquire sample_req) sample_world = (None, v)" using l by (simp add: outcome_def)
  have "db_inv (the_db sample_world)" by (simp add: sample_inv)
  from ledger_refines_locks [OF this run] run show ?thesis by auto
qed

end
