(* ===== verification/Relay_Lru.thy ===== *)
theory Relay_Lru
  imports Pw_Prelude
begin

text \<open>
  The recency index of the hub (\<open>src/relay_lru.go\<close>) and its first client, the memory of the
  acknowledgement timeouts already broadcast (\<open>src/hub_relay_control.go\<close>). The index is a map
  from keys to the elements of a doubly linked list. An element is a number, its address; the list is
  the sequence of its elements with their values, and a fresh number is an allocation. The lemmas
  show that the two structures agree and that a sequence of touches keeps exactly the most recent
  distinct keys.
\<close>

section \<open>The index\<close>

record 'k lruIndex =
  entries :: "'k \<Rightarrow> nat option"
  order :: "(nat \<times> 'k) list"
  next_element :: nat

definition empty_lru :: "'k lruIndex" where
  "empty_lru = \<lparr>entries = (\<lambda>_. None), order = [], next_element = 0\<rparr>"

text \<open>\<open>container/list\<close>: move an element to the front, or take it out.\<close>

definition list_Remove :: "nat \<Rightarrow> (nat \<times> 'k) list \<Rightarrow> (nat \<times> 'k) list" where
  "list_Remove el xs = filter (\<lambda>x. fst x \<noteq> el) xs"

definition list_MoveToFront :: "nat \<Rightarrow> (nat \<times> 'k) list \<Rightarrow> (nat \<times> 'k) list" where
  "list_MoveToFront el xs = filter (\<lambda>x. fst x = el) xs @ list_Remove el xs"

record 'k touched =
  already :: bool
  evicted :: "'k option"

definition touch :: "'k \<Rightarrow> int \<Rightarrow> 'k lruIndex \<Rightarrow> 'k touched \<times> 'k lruIndex" where
  "touch key maxEntries l =
     (case entries l key of
        Some element \<Rightarrow>
          (\<lparr>already = True, evicted = None\<rparr>, l\<lparr>order := list_MoveToFront element (order l)\<rparr>)
      | None \<Rightarrow>
          let element = next_element l;
              l1 = l\<lparr>entries := (entries l)(key := Some element), order := (element, key) # order l,
                     next_element := element + 1\<rparr>
          in if int (length (order l1)) \<le> maxEntries then (\<lparr>already = False, evicted = None\<rparr>, l1)
             else let oldest = last (order l1); gone = snd oldest
                  in (\<lparr>already = False, evicted = Some gone\<rparr>,
                      l1\<lparr>entries := (entries l1)(gone := None), order := list_Remove (fst oldest) (order l1)\<rparr>))"

definition forget :: "'k \<Rightarrow> 'k lruIndex \<Rightarrow> 'k lruIndex" where
  "forget key l =
     (case entries l key of
        None \<Rightarrow> l
      | Some element \<Rightarrow> l\<lparr>entries := (entries l)(key := None), order := list_Remove element (order l)\<rparr>)"


section \<open>The invariant and the recency list\<close>

text \<open>Map and list agree: a key points to the one element that holds it, and addresses are not reused.\<close>

definition lru_ok :: "'k lruIndex \<Rightarrow> bool" where
  "lru_ok l \<longleftrightarrow> distinct (map fst (order l)) \<and> distinct (map snd (order l))
     \<and> (\<forall>k el. entries l k = Some el \<longleftrightarrow> (el, k) \<in> set (order l))
     \<and> (\<forall>x\<in>set (order l). fst x < next_element l)"

definition recency :: "'k lruIndex \<Rightarrow> 'k list" where
  "recency l = map snd (order l)"

text \<open>The specification on plain lists: the key in front, the last one dropped when the list is too long.\<close>

definition lru_spec :: "nat \<Rightarrow> 'k \<Rightarrow> 'k list \<Rightarrow> 'k list" where
  "lru_spec n k ks = (if k \<in> set ks then k # remove1 k ks else if length ks < n then k # ks else butlast (k # ks))"

lemma lru_ok_empty [simp]: "lru_ok empty_lru" "recency empty_lru = []"
  by (simp_all add: lru_ok_def empty_lru_def recency_def)

lemma list_Remove_other: "el \<notin> fst ` set xs \<Longrightarrow> list_Remove el xs = xs"
  by (induction xs) (auto simp: list_Remove_def)

lemma element_splits:
  assumes "lru_ok l" "entries l k = Some el"
  obtains us vs where "order l = us @ (el, k) # vs" "el \<notin> fst ` set us" "el \<notin> fst ` set vs" "k \<notin> snd ` set us" "k \<notin> snd ` set vs"
proof -
  have "(el, k) \<in> set (order l)" using assms by (auto simp: lru_ok_def)
  then obtain us vs where s: "order l = us @ (el, k) # vs" by (auto dest: split_list)
  have "distinct (map fst (order l))" "distinct (map snd (order l))" using assms(1) by (simp_all add: lru_ok_def)
  then show ?thesis using that [OF s] by (auto simp: s)
qed

lemma moved_order:
  assumes "lru_ok l" "entries l k = Some el"
  shows "map snd (list_MoveToFront el (order l)) = k # remove1 k (recency l)"
    "map snd (list_Remove el (order l)) = remove1 k (recency l)"
    "set (list_MoveToFront el (order l)) = set (order l)" "set (list_Remove el (order l)) = set (order l) - {(el, k)}"
    "distinct (map fst (list_MoveToFront el (order l)))" "distinct (map fst (list_Remove el (order l)))"
proof -
  obtain us vs where s: "order l = us @ (el, k) # vs" and o: "el \<notin> fst ` set us" "el \<notin> fst ` set vs" "k \<notin> snd ` set us" "k \<notin> snd ` set vs"
    using element_splits [OF assms] by metis
  have r: "list_Remove el (order l) = us @ vs"
    using list_Remove_other [OF o(1)] list_Remove_other [OF o(2)] by (simp add: s list_Remove_def)
  have f: "filter (\<lambda>x. fst x = el) us = []" "filter (\<lambda>x. fst x = el) vs = []" using o by (auto simp: filter_empty_conv)
  then have m: "list_MoveToFront el (order l) = (el, k) # us @ vs" using r by (simp add: s list_MoveToFront_def)
  have d: "distinct (map fst (order l))" using assms(1) by (simp add: lru_ok_def)
  have rec: "remove1 k (recency l) = map snd us @ map snd vs" using o by (simp add: recency_def s remove1_append)
  show "map snd (list_MoveToFront el (order l)) = k # remove1 k (recency l)" "map snd (list_Remove el (order l)) = remove1 k (recency l)"
    using rec by (simp_all add: m r)
  show "set (list_MoveToFront el (order l)) = set (order l)" unfolding m by (auto simp: s)
  have "(el, k) \<notin> set us" "(el, k) \<notin> set vs" using o by force+
  then show "set (list_Remove el (order l)) = set (order l) - {(el, k)}" unfolding r by (auto simp: s)
  show "distinct (map fst (list_MoveToFront el (order l)))" "distinct (map fst (list_Remove el (order l)))"
    unfolding m r using d o by (auto simp: s)
qed

lemma entries_Some: "lru_ok l \<Longrightarrow> entries l k = Some el \<longleftrightarrow> (el, k) \<in> set (order l)"
  by (simp add: lru_ok_def)

lemma entries_None: "lru_ok l \<Longrightarrow> entries l k = None \<longleftrightarrow> k \<notin> set (recency l)"
proof -
  assume ok: "lru_ok l"
  have "k \<in> set (recency l) \<longleftrightarrow> (\<exists>el. (el, k) \<in> set (order l))" by (force simp: recency_def)
  then have "k \<in> set (recency l) \<longleftrightarrow> (\<exists>el. entries l k = Some el)" using ok by (auto simp: lru_ok_def)
  then show ?thesis by (cases "entries l k") auto
qed

lemma drop_oldest:
  assumes "distinct (map fst xs)" "distinct (map snd xs)" "xs \<noteq> []"
  shows "list_Remove (fst (last xs)) xs = butlast xs" "set xs = insert (last xs) (set (butlast xs))"
    "distinct (map fst (butlast xs))" "distinct (map snd (butlast xs))" "snd (last xs) \<notin> snd ` set (butlast xs)"
proof -
  obtain ys y where xs: "xs = ys @ [y]" using assms(3) by (cases xs rule: rev_cases) auto
  have "fst y \<notin> fst ` set ys" using assms(1) by (auto simp: xs)
  from list_Remove_other [OF this] show "list_Remove (fst (last xs)) xs = butlast xs" by (simp add: xs list_Remove_def)
  show "set xs = insert (last xs) (set (butlast xs))" "distinct (map fst (butlast xs))" "distinct (map snd (butlast xs))"
    "snd (last xs) \<notin> snd ` set (butlast xs)" using assms by (auto simp: xs)
qed

lemma touch_refines:
  assumes "lru_ok l" "touch k (int n) l = (r, l')"
  shows "lru_ok l'" "recency l' = lru_spec n k (recency l)" "already r \<longleftrightarrow> k \<in> set (recency l)"
    "evicted r = (if k \<in> set (recency l) \<or> length (recency l) < n then None else Some (last (k # recency l)))"
proof -
  note dom = entries_None [OF assms(1), of k]
  have "lru_ok l' \<and> recency l' = lru_spec n k (recency l) \<and> (already r \<longleftrightarrow> k \<in> set (recency l))
    \<and> evicted r = (if k \<in> set (recency l) \<or> length (recency l) < n then None else Some (last (k # recency l)))"
  proof (cases "entries l k")
    case (Some el)
    then have k: "k \<in> set (recency l)" using dom by simp
    have "l' = l\<lparr>order := list_MoveToFront el (order l)\<rparr>" "r = \<lparr>already = True, evicted = None\<rparr>"
      using assms(2) Some by (simp_all add: touch_def)
    moreover note m = moved_order [OF assms(1) Some]
    have "distinct (k # remove1 k (recency l))" using assms(1) by (simp add: lru_ok_def recency_def)
    ultimately show ?thesis using assms(1) m k by (simp add: lru_ok_def lru_spec_def recency_def)
  next
    case None
    then have k: "k \<notin> set (recency l)" using dom by simp
    let ?el = "next_element l"
    let ?o = "(?el, k) # order l"
    have ok: "distinct (map fst ?o)" "distinct (map snd ?o)" using assms(1) k by (auto simp: lru_ok_def recency_def)
    have new: "(((entries l)(k := Some ?el)) j = Some el) = ((el, j) \<in> set ?o)" for j el
      using assms(1) k by (force simp: lru_ok_def recency_def)
    have fresh: "fst x < ?el + 1" if "x \<in> set ?o" for x
      using assms(1) that by (auto simp: lru_ok_def)
    show ?thesis
    proof (cases "length ?o \<le> n")
      case True
      then have "l' = l\<lparr>entries := (entries l)(k := Some ?el), order := ?o, next_element := ?el + 1\<rparr>"
        "r = \<lparr>already = False, evicted = None\<rparr>"
        using assms(2) None by (auto simp: touch_def Let_def)
      moreover have "lru_ok (l\<lparr>entries := (entries l)(k := Some ?el), order := ?o, next_element := ?el + 1\<rparr>)"
        unfolding lru_ok_def using ok new fresh by simp
      ultimately show ?thesis using k True by (simp add: recency_def lru_spec_def)
    next
      case False
      let ?old = "last ?o"
      have l': "l' = l\<lparr>entries := (entries l)(k := Some ?el, snd ?old := None), order := list_Remove (fst ?old) ?o, next_element := ?el + 1\<rparr>"
        "r = \<lparr>already = False, evicted = Some (snd ?old)\<rparr>"
        using assms(2) None False by (auto simp: touch_def Let_def)
      note d = drop_oldest [OF ok list.distinct(2)]
      have ent: "(((entries l)(k := Some ?el, snd ?old := None)) j = Some el) = ((el, j) \<in> set (butlast ?o))" for j el
      proof (cases "j = snd ?old")
        case True
        then show ?thesis using d(5) by (metis fun_upd_same image_eqI option.distinct(1) snd_conv)
      next
        case False
        then show ?thesis using new [of j el] d(2) by (metis fun_upd_other insert_iff snd_conv)
      qed
      have "\<forall>x\<in>set (butlast ?o). fst x < ?el + 1" using fresh in_set_butlastD by metis
      moreover have f: "order l' = butlast ?o" "entries l' = (entries l)(k := Some ?el, snd ?old := None)" "next_element l' = ?el + 1"
        unfolding l'(1) d(1) by simp_all
      ultimately have "lru_ok l'" unfolding lru_ok_def f using d(3,4) ent by blast
      moreover have "recency l' = butlast (k # recency l)" unfolding recency_def f by (simp add: map_butlast)
      moreover have "snd ?old = last (k # recency l)" by (simp add: recency_def last_map)
      ultimately show ?thesis using l' k False by (simp add: lru_spec_def recency_def)
    qed
  qed
  then show "lru_ok l'" "recency l' = lru_spec n k (recency l)" "already r \<longleftrightarrow> k \<in> set (recency l)"
    "evicted r = (if k \<in> set (recency l) \<or> length (recency l) < n then None else Some (last (k # recency l)))" by auto
qed

lemma forget_refines:
  assumes "lru_ok l"
  shows "lru_ok (forget k l)" "recency (forget k l) = remove1 k (recency l)"
proof -
  have "lru_ok (forget k l) \<and> recency (forget k l) = remove1 k (recency l)"
  proof (cases "entries l k")
    case None
    then have "k \<notin> set (recency l)" using entries_None [OF assms] by blast
    then show ?thesis using assms None by (simp add: forget_def remove1_idem)
  next
    case (Some el)
    note m = moved_order [OF assms Some]
    have "distinct (remove1 k (recency l))" using assms by (simp add: lru_ok_def recency_def)
    moreover have "((entries l)(k := None)) j = Some el' \<longleftrightarrow> (el', j) \<in> set (order l) - {(el, k)}" for j el'
      using entries_Some [OF assms, of j el'] Some by auto
    moreover have "\<forall>x\<in>set (order l) - {(el, k)}. fst x < next_element l" using assms by (simp add: lru_ok_def)
    ultimately show ?thesis using m Some by (simp add: forget_def lru_ok_def recency_def)
  qed
  then show "lru_ok (forget k l)" "recency (forget k l) = remove1 k (recency l)" by auto
qed


section \<open>The most recent keys\<close>

definition touch_all :: "nat \<Rightarrow> 'k list \<Rightarrow> 'k lruIndex \<Rightarrow> 'k lruIndex" where
  "touch_all n ks l = fold (\<lambda>k l. snd (touch k (int n) l)) ks l"

lemma lru_spec_recent:
  assumes "distinct ks"
  shows "lru_spec n k (take n ks) = take n (k # removeAll k ks)"
proof (cases "k \<in> set (take n ks)")
  case True
  then obtain us vs where s: "take n ks = us @ k # vs" "k \<notin> set us" by (auto dest: split_list_first)
  define ws where "ws = drop n ks"
  have ks: "ks = us @ k # vs @ ws" using append_take_drop_id [of n ks] s(1) by (simp add: ws_def)
  have o: "k \<notin> set vs" "k \<notin> set ws" using assms by (auto simp: ks)
  have "length (take n ks) = min n (length ks)" by simp
  then have len: "Suc (length us + length vs) \<le> n" "ws \<noteq> [] \<longrightarrow> Suc (length us + length vs) = n"
    using s(1) unfolding ws_def by auto
  have "removeAll k ks = us @ vs @ ws" using s(2) o by (simp add: ks)
  moreover have "take n (k # us @ vs @ ws) = k # us @ vs" using len by (cases "ws = []") (auto simp: take_Cons')
  ultimately show ?thesis using s True by (simp add: lru_spec_def remove1_append)
next
  case False
  show ?thesis
  proof (cases "n \<le> length ks")
    case True
    have r: "removeAll k ks = take n ks @ removeAll k (drop n ks)"
      using append_take_drop_id [of n ks] removeAll_append [of k "take n ks" "drop n ks"] False by simp
    have "butlast (k # take n ks) = take n (k # take n ks)" using True by (simp add: butlast_conv_take)
    also have "\<dots> = take n (k # removeAll k ks)" unfolding r using True by (cases n) auto
    finally show ?thesis using False True by (simp add: lru_spec_def)
  next
    case False': False
    then have "take n ks = ks" "length ks < n" by auto
    then show ?thesis using False by (simp add: lru_spec_def)
  qed
qed

lemma remdups_snoc: "remdups (ks @ [k]) = removeAll k (remdups ks) @ [k]"
  by (induction ks) (auto simp: distinct_removeAll removeAll_filter_not_eq)

lemma touch_all_recent:
  "lru_ok (touch_all n ks empty_lru) \<and> recency (touch_all n ks empty_lru) = take n (rev (remdups ks))"
proof (induction ks rule: rev_induct)
  case Nil
  then show ?case by (simp add: touch_all_def)
next
  case (snoc k ks)
  let ?l = "touch_all n ks empty_lru"
  have t: "touch_all n (ks @ [k]) empty_lru = snd (touch k (int n) ?l)" by (simp add: touch_all_def)
  have "touch k (int n) ?l = (fst (touch k (int n) ?l), snd (touch k (int n) ?l))" by simp
  from touch_refines(1,2) [OF _ this] snoc
  have "lru_ok (snd (touch k (int n) ?l))" "recency (snd (touch k (int n) ?l)) = lru_spec n k (take n (rev (remdups ks)))" by simp_all
  moreover have "rev (remdups (ks @ [k])) = k # removeAll k (rev (remdups ks))"
    by (simp add: remdups_snoc rev_filter removeAll_filter_not_eq)
  ultimately show ?case unfolding t using lru_spec_recent [of "rev (remdups ks)" n k] by simp
qed

text \<open>
  C18: the index keeps exactly the most recently used keys. After any sequence of touches with a
  capacity of \<open>n\<close>, map and list agree and the keys, newest first, are the first \<open>n\<close> of the
  distinct keys of the sequence in the order of their last use; the map holds no other key.
\<close>

theorem touch_keeps_most_recent:
  "lru_ok (touch_all n ks empty_lru) \<and> recency (touch_all n ks empty_lru) = take n (rev (remdups ks))
   \<and> {k. entries (touch_all n ks empty_lru) k \<noteq> None} = set (take n (rev (remdups ks)))"
  using touch_all_recent [of n ks] entries_None [of "touch_all n ks empty_lru"] by auto


section \<open>The timeouts already broadcast\<close>

definition relayTimeoutsMaxEntries :: int where
  "relayTimeoutsMaxEntries = 4096"

record timeouts =
  relayTimeouts :: "string \<Rightarrow> bool"
  relayTimeoutOrder :: "string lruIndex"

definition rememberRelayTimeout :: "string \<Rightarrow> timeouts \<Rightarrow> bool \<times> timeouts" where
  "rememberRelayTimeout job s =
     (if relayTimeouts s job
      then (False, s\<lparr>relayTimeoutOrder := snd (touch job relayTimeoutsMaxEntries (relayTimeoutOrder s))\<rparr>)
      else let (r, ord) = touch job relayTimeoutsMaxEntries (relayTimeoutOrder s);
               kept = (case evicted r of None \<Rightarrow> relayTimeouts s | Some gone \<Rightarrow> (relayTimeouts s)(gone := False))
           in (True, s\<lparr>relayTimeouts := kept(job := True), relayTimeoutOrder := ord\<rparr>))"

definition forgetRelayTimeout :: "string \<Rightarrow> timeouts \<Rightarrow> timeouts" where
  "forgetRelayTimeout job s =
     s\<lparr>relayTimeouts := (relayTimeouts s)(job := False), relayTimeoutOrder := forget job (relayTimeoutOrder s)\<rparr>"

definition no_timeouts :: timeouts where
  "no_timeouts = \<lparr>relayTimeouts = (\<lambda>_. False), relayTimeoutOrder = empty_lru\<rparr>"

text \<open>The set and its index hold the same keys, at most the capacity of them.\<close>

definition timeouts_ok :: "timeouts \<Rightarrow> bool" where
  "timeouts_ok s \<longleftrightarrow> lru_ok (relayTimeoutOrder s) \<and> (\<forall>k. relayTimeouts s k \<longleftrightarrow> k \<in> set (recency (relayTimeoutOrder s)))
     \<and> length (recency (relayTimeoutOrder s)) \<le> 4096"


text \<open>
  What a client of an index relies on: it keeps a set beside the index, removes the evicted key from
  it and adds the touched one, and the two stay the same set.
\<close>

locale recency_index =
  fixes ok :: "'l \<Rightarrow> bool"
    and keys :: "'l \<Rightarrow> 'k list"
    and touch_key :: "'k \<Rightarrow> int \<Rightarrow> 'l \<Rightarrow> 'k touched \<times> 'l"
    and forget_key :: "'k \<Rightarrow> 'l \<Rightarrow> 'l"
  assumes distinct_keys: "ok l \<Longrightarrow> distinct (keys l)"
    and touch_ok: "ok l \<Longrightarrow> touch_key k (int n) l = (r, l') \<Longrightarrow> ok l'"
    and touch_keys: "ok l \<Longrightarrow> touch_key k (int n) l = (r, l') \<Longrightarrow> keys l' = lru_spec n k (keys l)"
    and touch_evicts: "ok l \<Longrightarrow> touch_key k (int n) l = (r, l') \<Longrightarrow>
      evicted r = (if k \<in> set (keys l) \<or> length (keys l) < n then None else Some (last (k # keys l)))"
    and forget_ok: "ok l \<Longrightarrow> ok (forget_key k l)"
    and forget_keys: "ok l \<Longrightarrow> keys (forget_key k l) = remove1 k (keys l)"
begin

lemma spec_length: "length ks \<le> n \<Longrightarrow> length (lru_spec n k ks) \<le> n"
proof (cases "k \<in> set ks")
  case True
  then have "length ks \<noteq> 0" by auto
  then show "length ks \<le> n \<Longrightarrow> ?thesis" using True by (simp add: lru_spec_def length_remove1)
qed (auto simp: lru_spec_def)

lemma touch_same_set:
  assumes "ok l" "0 < n" "length (keys l) \<le> n" "touch_key k (int n) l = (r, l')" "k \<notin> set (keys l)"
  shows "j \<in> set (keys l') \<longleftrightarrow> j = k \<or> j \<in> set (keys l) \<and> evicted r \<noteq> Some j"
proof (cases "length (keys l) < n")
  case True
  then show ?thesis using touch_keys [OF assms(1,4)] touch_evicts [OF assms(1,4)] assms(5) by (auto simp: lru_spec_def)
next
  case False
  then have ne: "keys l \<noteq> []" using assms(2) by auto
  then obtain xs x where x: "keys l = xs @ [x]" by (cases "keys l" rule: rev_cases) auto
  have "x \<notin> set xs" using distinct_keys [OF assms(1)] by (simp add: x)
  then show ?thesis using touch_keys [OF assms(1,4)] touch_evicts [OF assms(1,4)] assms(5) False
    by (auto simp: lru_spec_def x butlast_append)
qed

end

interpretation lru: recency_index lru_ok recency touch forget
proof
  fix l :: "'k lruIndex" and k :: 'k and n r l'
  assume ok: "lru_ok l"
  show "distinct (recency l)" using ok by (simp add: lru_ok_def recency_def)
  show "lru_ok (forget k l)" "recency (forget k l) = remove1 k (recency l)" using forget_refines [OF ok] by simp_all
  assume t: "touch k (int n) l = (r, l')"
  show "lru_ok l'" "recency l' = lru_spec n k (recency l)"
    "evicted r = (if k \<in> set (recency l) \<or> length (recency l) < n then None else Some (last (k # recency l)))"
    using touch_refines [OF ok t] by simp_all
qed

lemma timeouts_ok_none: "timeouts_ok no_timeouts"
  by (simp add: timeouts_ok_def no_timeouts_def)

lemma touch_timeout:
  assumes "lru_ok l" "touch k relayTimeoutsMaxEntries l = (r, l')" "length (recency l) \<le> 4096"
  shows "lru_ok l'" "length (recency l') \<le> 4096" "k \<in> set (recency l) \<Longrightarrow> set (recency l') = set (recency l)"
    "k \<notin> set (recency l) \<Longrightarrow> j \<in> set (recency l') \<longleftrightarrow> j = k \<or> j \<in> set (recency l) \<and> evicted r \<noteq> Some j"
    "evicted r = (if k \<in> set (recency l) \<or> length (recency l) < 4096 then None else Some (last (k # recency l)))"
proof -
  have t: "touch k (int 4096) l = (r, l')" using assms(2) by (simp add: relayTimeoutsMaxEntries_def)
  show "lru_ok l'" by (rule lru.touch_ok [OF assms(1) t])
  show "length (recency l') \<le> 4096" using lru.touch_keys [OF assms(1) t] lru.spec_length [OF assms(3)] by simp
  show "k \<in> set (recency l) \<Longrightarrow> set (recency l') = set (recency l)"
    using lru.touch_keys [OF assms(1) t] lru.distinct_keys [OF assms(1)] by (auto simp: lru_spec_def)
  show "k \<notin> set (recency l) \<Longrightarrow> j \<in> set (recency l') \<longleftrightarrow> j = k \<or> j \<in> set (recency l) \<and> evicted r \<noteq> Some j"
    using lru.touch_same_set [OF assms(1) _ assms(3) t] by simp
  show "evicted r = (if k \<in> set (recency l) \<or> length (recency l) < 4096 then None else Some (last (k # recency l)))"
    by (rule lru.touch_evicts [OF assms(1) t])
qed

text \<open>
  C19: the memory of broadcast timeouts is bounded and only forgets the oldest. In a state where set
  and index agree, \<open>rememberRelayTimeout\<close> allows a broadcast exactly when the key is not remembered,
  remembers it, keeps set and index equal and at most 4096 keys, and drops at most the key that was
  used longest ago, and that only when the memory is full.
\<close>

theorem rememberRelayTimeout_bounded:
  assumes "timeouts_ok s" "rememberRelayTimeout job s = (broadcast, s')"
  shows "timeouts_ok s' \<and> (broadcast \<longleftrightarrow> \<not> relayTimeouts s job)
     \<and> (\<forall>k. relayTimeouts s' k \<longleftrightarrow> k = job \<or> relayTimeouts s k
            \<and> \<not> (broadcast \<and> length (recency (relayTimeoutOrder s)) = 4096 \<and> k = last (recency (relayTimeoutOrder s))))"
proof -
  have ok: "lru_ok (relayTimeoutOrder s)" "length (recency (relayTimeoutOrder s)) \<le> 4096"
    and mem: "relayTimeouts s k \<longleftrightarrow> k \<in> set (recency (relayTimeoutOrder s))" for k
    using assms(1) by (simp_all add: timeouts_ok_def)
  obtain r ord where t: "touch job relayTimeoutsMaxEntries (relayTimeoutOrder s) = (r, ord)" by fastforce
  note f = touch_timeout [OF ok(1) t ok(2)]
  show ?thesis
  proof (cases "relayTimeouts s job")
    case True
    then have "broadcast = False" "s' = s\<lparr>relayTimeoutOrder := ord\<rparr>" using assms(2) t by (simp_all add: rememberRelayTimeout_def)
    then show ?thesis using f(1-3) True mem by (auto simp: timeouts_ok_def)
  next
    case False
    let ?kept = "case evicted r of None \<Rightarrow> relayTimeouts s | Some gone \<Rightarrow> (relayTimeouts s)(gone := False)"
    have s': "broadcast = True" "s' = s\<lparr>relayTimeouts := ?kept(job := True), relayTimeoutOrder := ord\<rparr>"
      using assms(2) t False by (simp_all add: rememberRelayTimeout_def)
    have kept: "?kept k \<longleftrightarrow> relayTimeouts s k \<and> evicted r \<noteq> Some k" for k by (cases "evicted r") auto
    have full: "recency (relayTimeoutOrder s) \<noteq> []" if "length (recency (relayTimeoutOrder s)) = 4096" using that by auto
    have "timeouts_ok s'" using f(1,2) f(4) mem False kept by (simp add: timeouts_ok_def s')
    then show ?thesis using f(5) s' kept mem False ok(2) full by auto
  qed
qed

theorem rememberRelayTimeout_bounded_witness:
  "\<exists>s. rememberRelayTimeout ''id:1'' no_timeouts = (True, s) \<and> timeouts_ok s \<and> relayTimeouts s ''id:1''"
proof -
  obtain s where r: "rememberRelayTimeout ''id:1'' no_timeouts = (True, s)"
    by (cases "rememberRelayTimeout ''id:1'' no_timeouts")
      (auto simp: rememberRelayTimeout_def no_timeouts_def split: prod.splits)
  from rememberRelayTimeout_bounded [OF timeouts_ok_none r] r show ?thesis by auto
qed

end
