(* ===== verification/Relay_Store.thy ===== *)
theory Relay_Store
  imports Go_Time "HOL-Library.Word"
begin

text \<open>
  The relay tables of a node's SQLite store: what was sent to the hub (\<open>src/relay_outbox.go\<close>), what
  is held for a busy pane (\<open>src/relay_held_store.go\<close>) and what reached a pane
  (\<open>src/relay_delivered_store.go\<close>), with the tables and unique indexes of \<open>src/store.go\<close>. A table
  is the list of its rows. The outcome of every SQL call is an input, so an error can come at any
  statement; a transaction that fails leaves the tables as they were. Times are nanoseconds and are
  stored in milliseconds.
\<close>

section \<open>Tables\<close>

record sent_row =
  sr_kind :: string
  sr_job :: string
  sr_epoch :: int
  sr_path :: string
  sr_reason :: string
  sr_lane :: string
  sr_event :: string
  sr_sent :: "int option"
  sr_persisted :: "int option"
  sr_suppressed :: "int option"

record held_row =
  hr_pane :: string
  hr_lane :: string
  hr_event :: int
  hr_job :: string
  hr_text :: string
  hr_since :: int
  hr_policy :: string
  hr_wait :: int
  hr_seq :: int
  hr_edited :: int
  hr_attempts :: int
  hr_lease :: string

record delivered_row =
  dr_lane :: string
  dr_event :: int
  dr_pane :: string
  dr_sha :: string
  dr_at :: int

record node_store =
  relay_sent :: "sent_row list"
  relay_held :: "held_row list"
  relay_delivered :: "delivered_row list"
  relay_meta :: "(string \<times> int) list"
  sql_faults :: "bool list"

datatype store_error = SqlError | UniqueError

type_synonym 'a store_act = "(node_store, store_error, 'a) act"

definition sql :: "unit store_act" where
  "sql = (\<lambda>s. case sql_faults s of [] \<Rightarrow> (Inr (), s)
      | f # fs \<Rightarrow> (if f then Inl SqlError else Inr (), s\<lparr>sql_faults := fs\<rparr>))"

definition node_tx :: "'a store_act \<Rightarrow> 'a store_act" where
  "node_tx body = thenA sql (\<lambda>s. case bindA body (\<lambda>x. thenA sql (ret x)) s of
      (Inl e, v) \<Rightarrow> (Inl e, s\<lparr>sql_faults := sql_faults v\<rparr>) | (Inr x, v) \<Rightarrow> (Inr x, v))"

definition UnixMilli :: "time \<Rightarrow> int" where
  "UnixMilli t = t div 1000000"

definition time_UnixMilli :: "int \<Rightarrow> time" where
  "time_UnixMilli ms = ms * 1000000"

text \<open>\<open>Duration.Milliseconds\<close> rounds toward zero.\<close>

definition Milliseconds :: "int \<Rightarrow> int" where
  "Milliseconds d = (if 0 \<le> d then d div 1000000 else - ((- d) div 1000000))"

definition boolInt :: "bool \<Rightarrow> int" where
  "boolInt v = (if v then 1 else 0)"


section \<open>Delivered records\<close>

definition relayDeliveredMaxAge :: int where
  "relayDeliveredMaxAge = 3 * 24 * 60 * minute"

record relayDelivered =
  rd_Pane :: string
  rd_PayloadSHA :: string
  rd_DeliveredAt :: time

definition delivered_key :: "delivered_row \<Rightarrow> string \<times> int" where
  "delivered_key r = (dr_lane r, dr_event r)"

definition RecordRelayDelivered :: "string \<Rightarrow> int \<Rightarrow> string \<Rightarrow> string \<Rightarrow> time \<Rightarrow> unit store_act" where
  "RecordRelayDelivered lane eventID pane payloadSHA at =
     node_tx
      (thenA sql (thenA (modifyA (\<lambda>s. s\<lparr>relay_delivered := ins_ignore delivered_key
          \<lparr>dr_lane = lane, dr_event = eventID, dr_pane = pane, dr_sha = payloadSHA, dr_at = UnixMilli at\<rparr> (relay_delivered s)\<rparr>))
      (thenA sql (modifyA (\<lambda>s. s\<lparr>relay_delivered :=
          filter (\<lambda>r. \<not> dr_at r < UnixMilli (at - relayDeliveredMaxAge)) (relay_delivered s)\<rparr>)))))"

definition delivered_of :: "delivered_row \<Rightarrow> relayDelivered" where
  "delivered_of r = \<lparr>rd_Pane = dr_pane r, rd_PayloadSHA = dr_sha r, rd_DeliveredAt = time_UnixMilli (dr_at r)\<rparr>"

definition RelayDeliveredByKey :: "string \<Rightarrow> int \<Rightarrow> relayDelivered option store_act" where
  "RelayDeliveredByKey lane eventID =
     thenA sql (getA (\<lambda>s. map_option delivered_of (sel delivered_key (lane, eventID) (relay_delivered s))))"

definition DeleteRelayDelivered :: "string \<Rightarrow> int \<Rightarrow> bool store_act" where
  "DeleteRelayDelivered lane eventID =
     thenA sql (bindA (getA (\<lambda>s. length (filter (\<lambda>r. delivered_key r = (lane, eventID)) (relay_delivered s)))) (\<lambda>n.
       thenA (modifyA (\<lambda>s. s\<lparr>relay_delivered := del delivered_key (lane, eventID) (relay_delivered s)\<rparr>))
      (thenA sql (ret (n = 1)))))"


section \<open>Held rows\<close>

record relayHeld =
  rh_Pane :: string
  rh_Lane :: string
  rh_JobID :: string
  rh_Text :: string
  rh_DeliverPolicy :: string
  rh_EventID :: int
  rh_HeldSince :: time
  rh_MaxWait :: int
  rh_RecvSeq :: int
  rh_Edited :: bool
  rh_fresh :: bool
  rh_Attempts :: int
  rh_Lease :: string

definition held_key :: "held_row \<Rightarrow> string \<times> int" where
  "held_key r = (hr_lane r, hr_event r)"

definition held_row_of :: "relayHeld \<Rightarrow> int \<Rightarrow> held_row" where
  "held_row_of h next =
     \<lparr>hr_pane = rh_Pane h, hr_lane = rh_Lane h, hr_event = rh_EventID h, hr_job = rh_JobID h, hr_text = rh_Text h,
      hr_since = UnixMilli (rh_HeldSince h), hr_policy = rh_DeliverPolicy h, hr_wait = Milliseconds (rh_MaxWait h),
      hr_seq = next, hr_edited = boolInt (rh_Edited h), hr_attempts = rh_Attempts h, hr_lease = rh_Lease h\<rparr>"

definition max_recv_seq :: "held_row list \<Rightarrow> int" where
  "max_recv_seq rows = (case map hr_seq rows of [] \<Rightarrow> 0 | n # ns \<Rightarrow> fold max ns n)"

text \<open>A sum past the type is a real number for SQLite, which the scan into an \<open>int64\<close> refuses.\<close>

definition next_recv_seq :: "relayHeld \<Rightarrow> int store_act" where
  "next_recv_seq h =
     (if rh_RecvSeq h \<noteq> 0 then ret (rh_RecvSeq h)
      else thenA sql (bindA (getA (\<lambda>s. max_recv_seq (relay_held s) + 1)) (\<lambda>n.
             if n > max_int64 then throw SqlError else ret n)))"

definition InsertRelayHeld :: "relayHeld \<Rightarrow> bool store_act" where
  "InsertRelayHeld h =
     bindA (node_tx (bindA (next_recv_seq h) (\<lambda>n.
        thenA sql (bindA (getA (\<lambda>s. \<not> has_key held_key (rh_Lane h, rh_EventID h) (relay_held s))) (\<lambda>inserted.
          thenA (modifyA (\<lambda>s. s\<lparr>relay_held := ins_ignore held_key (held_row_of h n) (relay_held s)\<rparr>))
            (ret inserted))))))
       (\<lambda>inserted. thenA sql (ret inserted))"

definition scan_held :: "held_row \<Rightarrow> relayHeld" where
  "scan_held r =
     \<lparr>rh_Pane = hr_pane r, rh_Lane = hr_lane r, rh_JobID = hr_job r, rh_Text = hr_text r, rh_DeliverPolicy = hr_policy r,
      rh_EventID = hr_event r, rh_HeldSince = time_UnixMilli (hr_since r), rh_MaxWait = hr_wait r * 1000000,
      rh_RecvSeq = hr_seq r, rh_Edited = (hr_edited r \<noteq> 0), rh_fresh = False, rh_Attempts = hr_attempts r, rh_Lease = hr_lease r\<rparr>"

definition RelayHeldForPane :: "string \<Rightarrow> relayHeld list store_act" where
  "RelayHeldForPane pane =
     thenA sql (getA (\<lambda>s. map scan_held (sort_key hr_seq (filter (\<lambda>r. hr_pane r = pane) (relay_held s)))))"

definition RelayHeldAll :: "relayHeld list store_act" where
  "RelayHeldAll = thenA sql (getA (\<lambda>s. map scan_held (sort_key hr_pane (sort_key hr_seq (relay_held s)))))"

definition RelayHeldByKey :: "string \<Rightarrow> int \<Rightarrow> relayHeld option store_act" where
  "RelayHeldByKey lane eventID =
     thenA sql (getA (\<lambda>s. map_option scan_held (sel held_key (lane, eventID) (relay_held s))))"

text \<open>An \<^verbatim>\<open>UPDATE\<close> or \<^verbatim>\<open>DELETE\<close> of the rows a predicate selects reports how many there were.\<close>

definition held_stmt :: "(held_row \<Rightarrow> bool) \<Rightarrow> (held_row list \<Rightarrow> held_row list) \<Rightarrow> bool store_act" where
  "held_stmt P f =
     thenA sql (bindA (getA (\<lambda>s. length (filter P (relay_held s)))) (\<lambda>n.
       thenA (modifyA (\<lambda>s. s\<lparr>relay_held := f (relay_held s)\<rparr>)) (thenA sql (ret (n = 1)))))"

definition UpdateRelayHeldText :: "int \<Rightarrow> string \<Rightarrow> bool store_act" where
  "UpdateRelayHeldText eventID text =
     held_stmt (\<lambda>r. hr_event r = eventID)
       (upd (\<lambda>r. hr_event r = eventID) (\<lambda>r. r\<lparr>hr_text := text, hr_edited := 1\<rparr>))"

definition ExtendRelayHeldMaxWait :: "int \<Rightarrow> int \<Rightarrow> bool store_act" where
  "ExtendRelayHeldMaxWait eventID maxWait =
     held_stmt (\<lambda>r. hr_event r = eventID \<and> hr_wait r < Milliseconds maxWait)
       (upd (\<lambda>r. hr_event r = eventID \<and> hr_wait r < Milliseconds maxWait) (\<lambda>r. r\<lparr>hr_wait := Milliseconds maxWait\<rparr>))"

definition DeleteRelayHeld :: "int \<Rightarrow> bool store_act" where
  "DeleteRelayHeld eventID =
     held_stmt (\<lambda>r. hr_event r = eventID) (filter (\<lambda>r. hr_event r \<noteq> eventID))"


section \<open>The outbox\<close>

definition relayEventOutboxKey :: "string \<Rightarrow> string \<Rightarrow> 64 word \<Rightarrow> string \<Rightarrow> string \<Rightarrow> string" where
  "relayEventOutboxKey kind jobID epoch reportPath reason =
     kind @ [CHR 0x00] @ jobID @ [CHR 0x00] @ decimal (unat epoch) @ [CHR 0x00] @ reportPath @ [CHR 0x00] @ reason"

definition relayLaneEventOutboxKey :: "string \<Rightarrow> string \<Rightarrow> string" where
  "relayLaneEventOutboxKey lane eventID = ''lane.event'' @ [CHR 0x00] @ lane @ [CHR 0x00] @ eventID"

record relayOutboxKey =
  ok_Kind :: string
  ok_JobID :: string
  ok_Epoch :: "64 word"
  ok_ReportPath :: string
  ok_Reason :: string
  ok_Lane :: string
  ok_EventID :: string

definition outbox_key_String :: "relayOutboxKey \<Rightarrow> string" where
  "outbox_key_String k =
     (if ok_Kind k = ''lane.event'' then relayLaneEventOutboxKey (ok_Lane k) (ok_EventID k)
      else relayEventOutboxKey (ok_Kind k) (ok_JobID k) (ok_Epoch k) (ok_ReportPath k) (ok_Reason k) @ [CHR 0x00] @ ok_EventID k)"

record relayOutboxState =
  os_SentAt :: "time option"
  os_Persisted :: bool
  os_Suppressed :: bool
  os_Found :: bool

text \<open>The primary key and the two partial unique indexes; None where a row is not in the index.\<close>

definition pk_index :: "sent_row \<Rightarrow> (string \<times> string \<times> int \<times> string \<times> string \<times> string) option" where
  "pk_index r = Some (sr_kind r, sr_job r, sr_epoch r, sr_path r, sr_reason r, sr_event r)"

definition lane_index :: "sent_row \<Rightarrow> (string \<times> string) option" where
  "lane_index r = (if sr_kind r = ''lane.event'' then Some (sr_lane r, sr_event r) else None)"

definition job_index :: "sent_row \<Rightarrow> (string \<times> string \<times> string) option" where
  "job_index r = (if sr_kind r \<noteq> ''lane.event'' \<and> sr_event r \<noteq> [] then Some (sr_kind r, sr_job r, sr_event r) else None)"

definition clash :: "(sent_row \<Rightarrow> 'k option) \<Rightarrow> sent_row \<Rightarrow> sent_row list \<Rightarrow> bool" where
  "clash idx r rows \<longleftrightarrow> idx r \<noteq> None \<and> list_ex (\<lambda>x. idx x = idx r) rows"

definition any_clash :: "sent_row \<Rightarrow> sent_row list \<Rightarrow> bool" where
  "any_clash r rows \<longleftrightarrow> clash pk_index r rows \<or> clash lane_index r rows \<or> clash job_index r rows"

text \<open>
  \<^verbatim>\<open>INSERT ... ON CONFLICT(target) DO UPDATE\<close>: a row equal on the target index is updated; a row that
  clashes on another index only makes the statement fail.
\<close>

definition upsert :: "(sent_row \<Rightarrow> 'k option) \<Rightarrow> sent_row \<Rightarrow> (sent_row \<Rightarrow> sent_row) \<Rightarrow> unit store_act" where
  "upsert idx r f =
     thenA sql (bindA (getA relay_sent) (\<lambda>rows.
       if clash idx r rows then modifyA (\<lambda>s. s\<lparr>relay_sent := upd (\<lambda>x. idx x = idx r) f rows\<rparr>)
       else if any_clash r rows then throw UniqueError
       else modifyA (\<lambda>s. s\<lparr>relay_sent := rows @ [r]\<rparr>)))"

definition sent_row_of :: "relayOutboxKey \<Rightarrow> sent_row" where
  "sent_row_of k =
     \<lparr>sr_kind = ok_Kind k, sr_job = ok_JobID k, sr_epoch = sint (ok_Epoch k), sr_path = ok_ReportPath k, sr_reason = ok_Reason k,
      sr_lane = (if ok_Kind k = ''lane.event'' then ok_Lane k else []), sr_event = ok_EventID k,
      sr_sent = None, sr_persisted = None, sr_suppressed = None\<rparr>"

text \<open>The three shapes of a key pick the conflict target: a lane event, an identified event, a legacy one.\<close>

definition record_outbox :: "relayOutboxKey \<Rightarrow> sent_row \<Rightarrow> (sent_row \<Rightarrow> sent_row) \<Rightarrow> unit store_act" where
  "record_outbox k r f =
     (if ok_Kind k = ''lane.event'' then upsert lane_index r f
      else if ok_EventID k \<noteq> [] then upsert job_index r f
      else upsert pk_index r f)"

definition RecordRelaySent :: "relayOutboxKey \<Rightarrow> time \<Rightarrow> unit store_act" where
  "RecordRelaySent k at =
     record_outbox k ((sent_row_of k)\<lparr>sr_sent := Some (UnixMilli at)\<rparr>) (\<lambda>x. x\<lparr>sr_sent := Some (UnixMilli at)\<rparr>)"

definition RecordRelayPersisted :: "relayOutboxKey \<Rightarrow> time \<Rightarrow> unit store_act" where
  "RecordRelayPersisted k at =
     record_outbox k ((sent_row_of k)\<lparr>sr_sent := Some (UnixMilli at), sr_persisted := Some (UnixMilli at)\<rparr>)
       (\<lambda>x. x\<lparr>sr_persisted := Some (UnixMilli at)\<rparr>)"

definition RecordRelaySuppressed :: "relayOutboxKey \<Rightarrow> time \<Rightarrow> bool store_act" where
  "RecordRelaySuppressed k at =
     (if ok_Kind k = ''lane.event'' \<or> ok_EventID k = [] then ret False
      else let r = (sent_row_of k)\<lparr>sr_suppressed := Some (UnixMilli at)\<rparr>
           in thenA sql (bindA (getA relay_sent) (\<lambda>rows.
                if any_clash r rows then ret False
                else thenA (modifyA (\<lambda>s. s\<lparr>relay_sent := rows @ [r]\<rparr>)) (ret True))))"

text \<open>Which row a state lookup reads; a legacy key reads in the order of the primary key.\<close>

definition outbox_row :: "relayOutboxKey \<Rightarrow> sent_row list \<Rightarrow> sent_row option" where
  "outbox_row k rows =
     (if ok_Kind k = ''lane.event'' then sel lane_index (Some (ok_Lane k, ok_EventID k)) rows
      else if ok_EventID k \<noteq> []
      then find (\<lambda>r. sr_kind r = ok_Kind k \<and> sr_job r = ok_JobID k \<and> sr_event r = ok_EventID k) rows
      else find (\<lambda>r. sr_kind r = ok_Kind k \<and> sr_job r = ok_JobID k \<and> sr_epoch r = sint (ok_Epoch k)
             \<and> sr_path r = ok_ReportPath k \<and> sr_reason r = ok_Reason k) (sort_key sr_event rows))"

definition outbox_state_of :: "sent_row option \<Rightarrow> relayOutboxState" where
  "outbox_state_of found =
     (case found of
        None \<Rightarrow> \<lparr>os_SentAt = None, os_Persisted = False, os_Suppressed = False, os_Found = False\<rparr>
      | Some r \<Rightarrow> \<lparr>os_SentAt = (case sr_sent r of Some ms \<Rightarrow> if ms > 0 then Some (time_UnixMilli ms) else None | None \<Rightarrow> None),
          os_Persisted = (sr_persisted r \<noteq> None), os_Suppressed = (sr_suppressed r \<noteq> None), os_Found = True\<rparr>)"

definition RelayOutboxState :: "relayOutboxKey \<Rightarrow> relayOutboxState store_act" where
  "RelayOutboxState k = thenA sql (getA (\<lambda>s. outbox_state_of (outbox_row k (relay_sent s))))"

definition outstanding :: "relayOutboxKey \<Rightarrow> sent_row list \<Rightarrow> sent_row list" where
  "outstanding k rows =
     filter (\<lambda>r. sr_kind r = ok_Kind k \<and> sr_job r = ok_JobID k \<and> sr_persisted r = None \<and> sr_suppressed r = None
       \<and> (if ok_EventID k \<noteq> [] then sr_event r = ok_EventID k
          else sr_path r = ok_ReportPath k \<and> sr_reason r = ok_Reason k)) rows"

definition raise_epoch :: "relayOutboxKey \<Rightarrow> int \<Rightarrow> relayOutboxKey option" where
  "raise_epoch k epoch =
     (if (word_of_int epoch :: 64 word) < ok_Epoch k then None else Some (k\<lparr>ok_Epoch := word_of_int epoch\<rparr>))"

definition UnpersistedRelayOutboxKey :: "relayOutboxKey \<Rightarrow> relayOutboxKey option store_act" where
  "UnpersistedRelayOutboxKey k =
     (if ok_Kind k = ''lane.event'' then ret None
      else thenA sql (getA (\<lambda>s.
        case outstanding k (relay_sent s) of
          [] \<Rightarrow> None
        | [r] \<Rightarrow> raise_epoch k (sr_epoch r)
        | r # _ \<Rightarrow> if ok_EventID k \<noteq> [] then raise_epoch k (sr_epoch r) else None)))"

definition RelayEventIDMigrationAt :: "time option store_act" where
  "RelayEventIDMigrationAt = thenA sql (getA (\<lambda>s. map_option time_UnixMilli (map_of (relay_meta s) ''event_id_since'')))"


section \<open>Relations between stores\<close>

text \<open>
  A relation the outcomes of the calls to come do not matter for: it holds across a statement, across
  a transaction whose body it holds for, committed or not, and across the choice of a receive number.
\<close>

locale store_relation = world_relation R for R :: "node_store \<Rightarrow> node_store \<Rightarrow> bool" +
  assumes faults: "R s (s\<lparr>sql_faults := fs\<rparr>)"
begin

lemma always_sql: "always R sql"
proof (rule alwaysI)
  fix w r v assume "sql w = (r, v)"
  then have "\<exists>fs. v = w\<lparr>sql_faults := fs\<rparr>" by (cases "sql_faults w"; cases w) (auto simp: sql_def)
  then show "R w v" using faults by auto
qed

lemma always_node_tx: "always R body \<Longrightarrow> always R (node_tx body)"
proof -
  assume body: "always R body"
  let ?m = "bindA body (\<lambda>x. thenA sql (ret x))"
  have m: "always R ?m" by (intro always_bindA always_thenA always_ret always_sql body)
  have "always R (\<lambda>s. case ?m s of (Inl e, v) \<Rightarrow> (Inl e, s\<lparr>sql_faults := sql_faults v\<rparr>) | (Inr x, v) \<Rightarrow> (Inr x, v))"
  proof (rule alwaysI)
    fix w r v
    assume "(case ?m w of (Inl e, v) \<Rightarrow> (Inl e, w\<lparr>sql_faults := sql_faults v\<rparr>) | (Inr x, v) \<Rightarrow> (Inr x, v)) = (r, v)"
    then show "R w v" using alwaysD [OF m, of w] faults by (cases "?m w"; cases "fst (?m w)") auto
  qed
  then show ?thesis unfolding node_tx_def by (intro always_thenA always_sql)
qed

lemma always_next: "always R (next_recv_seq h)"
proof -
  have "always R (if b then throw SqlError else ret n)" for b :: bool and n :: int
    by (simp add: always_throw always_ret)
  then show ?thesis unfolding next_recv_seq_def by (simp add: always_thenA always_bindA always_sql always_getA always_ret)
qed

lemmas store_rules = always_rules always_sql always_node_tx always_next

end

end
