(* ===== verification/Relay_Records.thy ===== *)
theory Relay_Records
  imports Relay_Store
begin

text \<open>
  What the relay tables promise: the unique indexes hold after every operation and every failure,
  terminal marks of the outbox are never cleared, a held row and a delivered record read back as they
  were written, the queue of a pane is first in first out, and outbox keys name one event.
\<close>

section \<open>The indexes\<close>

definition idx_ok :: "(sent_row \<Rightarrow> 'k option) \<Rightarrow> sent_row list \<Rightarrow> bool" where
  "idx_ok idx rows \<longleftrightarrow> distinct (map idx (filter (\<lambda>r. idx r \<noteq> None) rows))"

definition sent_ok :: "sent_row list \<Rightarrow> bool" where
  "sent_ok rows \<longleftrightarrow> idx_ok pk_index rows \<and> idx_ok lane_index rows \<and> idx_ok job_index rows"

definition store_ok :: "node_store \<Rightarrow> bool" where
  "store_ok s \<longleftrightarrow> sent_ok (relay_sent s) \<and> unique held_key (relay_held s) \<and> unique delivered_key (relay_delivered s)"

lemma idx_ok_snoc: "idx_ok idx rows \<Longrightarrow> \<not> clash idx r rows \<Longrightarrow> idx_ok idx (rows @ [r])"
  by (auto simp: idx_ok_def clash_def list_ex_iff)

lemma idx_ok_upd:
  assumes "\<And>x. idx (f x) = idx x"
  shows "idx_ok idx (upd P f rows) = idx_ok idx rows"
proof -
  have "map idx (filter (\<lambda>r. idx r \<noteq> None) (upd P f rows)) = map idx (filter (\<lambda>r. idx r \<noteq> None) rows)"
    by (induction rows) (auto simp: assms)
  then show ?thesis by (simp add: idx_ok_def)
qed

text \<open>What an operation may do to a row of the outbox: its identity stays, and no terminal mark is cleared.\<close>

definition row_kept :: "sent_row \<Rightarrow> sent_row \<Rightarrow> bool" where
  "row_kept r r' \<longleftrightarrow> pk_index r' = pk_index r \<and> sr_lane r' = sr_lane r
     \<and> (sr_persisted r \<noteq> None \<longrightarrow> sr_persisted r' \<noteq> None) \<and> sr_suppressed r' = sr_suppressed r"

definition outbox_kept :: "sent_row list \<Rightarrow> sent_row list \<Rightarrow> bool" where
  "outbox_kept rows rows' \<longleftrightarrow> (\<exists>ys zs. rows' = ys @ zs \<and> list_all2 row_kept rows ys)"

lemma row_kept_refl [simp]: "row_kept r r"
  by (simp add: row_kept_def)

lemma row_kept_trans: "row_kept r s \<Longrightarrow> row_kept s t \<Longrightarrow> row_kept r t"
  by (simp add: row_kept_def)

lemma outbox_kept_refl [simp]: "outbox_kept rows rows"
  unfolding outbox_kept_def by (intro exI [of _ rows] exI [of _ "[]"]) (simp add: list_all2_same)

lemma outbox_kept_snoc [simp]: "outbox_kept rows (rows @ zs)"
  unfolding outbox_kept_def by (intro exI [of _ rows] exI [of _ zs]) (simp add: list_all2_same)

lemma outbox_kept_upd: "(\<And>x. row_kept x (f x)) \<Longrightarrow> outbox_kept rows (upd P f rows)"
  unfolding outbox_kept_def by (intro exI [of _ "upd P f rows"] exI [of _ "[]"])
    (simp add: upd_def list_all2_map2 list_all2_same)

lemma outbox_kept_trans:
  assumes "outbox_kept a b" "outbox_kept b c"
  shows "outbox_kept a c"
proof -
  obtain ys zs where b: "b = ys @ zs" "list_all2 row_kept a ys" using assms(1) by (auto simp: outbox_kept_def)
  obtain us vs where c: "c = us @ vs" "list_all2 row_kept b us" using assms(2) by (auto simp: outbox_kept_def)
  obtain us1 us2 where u: "us = us1 @ us2" "list_all2 row_kept ys us1"
    using c(2) unfolding b(1) list_all2_append1 by blast
  have "list_all2 row_kept a us1" by (rule list_all2_trans [OF _ b(2) u(2)]) (rule row_kept_trans)
  then show ?thesis unfolding outbox_kept_def c(1) u(1) by (intro exI [of _ us1] exI [of _ "us2 @ vs"]) simp
qed

definition kept :: "node_store \<Rightarrow> node_store \<Rightarrow> bool" where
  "kept s v \<longleftrightarrow> (store_ok s \<longrightarrow> store_ok v) \<and> outbox_kept (relay_sent s) (relay_sent v)"

interpretation kp: store_relation kept
  by unfold_locales (auto simp: kept_def store_ok_def intro: outbox_kept_trans)

lemma kept_held: "(\<And>rows. unique held_key rows \<Longrightarrow> unique held_key (f rows)) \<Longrightarrow> always kept (modifyA (\<lambda>s. s\<lparr>relay_held := f (relay_held s)\<rparr>))"
  by (rule always_modifyA) (simp add: kept_def store_ok_def)

lemma kept_delivered:
  "(\<And>rows. unique delivered_key rows \<Longrightarrow> unique delivered_key (f rows)) \<Longrightarrow> always kept (modifyA (\<lambda>s. s\<lparr>relay_delivered := f (relay_delivered s)\<rparr>))"
  by (rule always_modifyA) (simp add: kept_def store_ok_def)

lemma kept_append:
  assumes "\<not> any_clash r (relay_sent s)"
  shows "kept s (s\<lparr>relay_sent := relay_sent s @ [r]\<rparr>)"
  using assms by (simp add: kept_def store_ok_def sent_ok_def any_clash_def idx_ok_snoc)

lemma kept_update:
  assumes "\<And>x. row_kept x (f x)" "\<And>x. sr_kind (f x) = sr_kind x"
  shows "kept s (s\<lparr>relay_sent := upd P f (relay_sent s)\<rparr>)"
proof -
  have "pk_index (f x) = pk_index x" "lane_index (f x) = lane_index x" "job_index (f x) = job_index x" for x
    using assms [of x] by (auto simp: row_kept_def pk_index_def lane_index_def job_index_def)
  then show ?thesis by (simp add: kept_def store_ok_def sent_ok_def idx_ok_upd outbox_kept_upd [OF assms(1)])
qed

lemma kept_upsert:
  assumes "\<And>x. row_kept x (f x)" "\<And>x. sr_kind (f x) = sr_kind x"
  shows "always kept (upsert idx r f)"
proof -
  have "always kept (bindA (getA relay_sent) (\<lambda>rows.
       if clash idx r rows then modifyA (\<lambda>s. s\<lparr>relay_sent := upd (\<lambda>x. idx x = idx r) f rows\<rparr>)
       else if any_clash r rows then throw UniqueError
       else modifyA (\<lambda>s. s\<lparr>relay_sent := rows @ [r]\<rparr>)))"
    by (rule alwaysI) (auto simp: act_defs intro: kept_update [OF assms] kept_append kp.related_refl split: if_splits)
  then show ?thesis unfolding upsert_def by (intro kp.always_thenA kp.always_sql)
qed

lemma kept_outbox:
  "always kept (RecordRelaySent k at)" "always kept (RecordRelayPersisted k at)" "always kept (RecordRelaySuppressed k at)"
proof -
  show "always kept (RecordRelaySent k at)" "always kept (RecordRelayPersisted k at)"
    by (auto simp: RecordRelaySent_def RecordRelayPersisted_def record_outbox_def row_kept_def pk_index_def intro!: kept_upsert)
  let ?r = "(sent_row_of k)\<lparr>sr_suppressed := Some (UnixMilli at)\<rparr>"
  have "always kept (bindA (getA relay_sent) (\<lambda>rows. if any_clash ?r rows then ret False
      else thenA (modifyA (\<lambda>s. s\<lparr>relay_sent := rows @ [?r]\<rparr>)) (ret True)))"
    by (rule alwaysI) (auto simp: act_defs intro: kept_append kp.related_refl split: if_splits)
  then show "always kept (RecordRelaySuppressed k at)"
    unfolding RecordRelaySuppressed_def Let_def by (auto intro: kp.always_thenA kp.always_sql kp.always_ret)
qed

lemma unique_filter: "unique key rows \<Longrightarrow> unique key (filter P rows)"
  by (simp add: unique_def distinct_map_filter)

lemma kept_held_stmt: "(\<And>rows. unique held_key rows \<Longrightarrow> unique held_key (f rows)) \<Longrightarrow> always kept (held_stmt P f)"
  unfolding held_stmt_def by (intro kp.always_rules kp.always_sql kept_held)

lemma held_key_updates [simp]:
  "held_key (r\<lparr>hr_text := t, hr_edited := e\<rparr>) = held_key r" "held_key (r\<lparr>hr_wait := m\<rparr>) = held_key r"
  by (simp_all add: held_key_def)

lemma kept_tables:
  "always kept (InsertRelayHeld h)" "always kept (UpdateRelayHeldText ev txt)" "always kept (ExtendRelayHeldMaxWait ev wait)"
  "always kept (DeleteRelayHeld ev)" "always kept (RecordRelayDelivered lane ev pane sha at)" "always kept (DeleteRelayDelivered lane ev)"
proof -
  show "always kept (InsertRelayHeld h)"
    unfolding InsertRelayHeld_def
    by (intro kp.always_rules kp.always_node_tx kp.always_sql kp.always_next kept_held unique_ins_ignore)
  show "always kept (UpdateRelayHeldText ev txt)" "always kept (ExtendRelayHeldMaxWait ev wait)" "always kept (DeleteRelayHeld ev)"
    by (simp_all add: UpdateRelayHeldText_def ExtendRelayHeldMaxWait_def DeleteRelayHeld_def kept_held_stmt unique_upd unique_filter)
  show "always kept (RecordRelayDelivered lane ev pane sha at)" "always kept (DeleteRelayDelivered lane ev)"
    unfolding RecordRelayDelivered_def DeleteRelayDelivered_def
    by (intro kp.always_rules kp.always_node_tx kp.always_sql kept_delivered unique_ins_ignore unique_filter unique_del; assumption)+
qed


section \<open>Runs of the store\<close>

datatype store_op =
    SentOp relayOutboxKey time | PersistedOp relayOutboxKey time | SuppressedOp relayOutboxKey time
  | HoldOp relayHeld | EditOp int string | ExtendOp int int | UnholdOp int
  | DeliveredOp string int string string time | UndeliverOp string int

fun run_store :: "store_op \<Rightarrow> node_store \<Rightarrow> node_store" where
  "run_store (SentOp k at) s = snd (RecordRelaySent k at s)"
| "run_store (PersistedOp k at) s = snd (RecordRelayPersisted k at s)"
| "run_store (SuppressedOp k at) s = snd (RecordRelaySuppressed k at s)"
| "run_store (HoldOp h) s = snd (InsertRelayHeld h s)"
| "run_store (EditOp ev txt) s = snd (UpdateRelayHeldText ev txt s)"
| "run_store (ExtendOp ev wait) s = snd (ExtendRelayHeldMaxWait ev wait s)"
| "run_store (UnholdOp ev) s = snd (DeleteRelayHeld ev s)"
| "run_store (DeliveredOp lane ev pane sha at) s = snd (RecordRelayDelivered lane ev pane sha at s)"
| "run_store (UndeliverOp lane ev) s = snd (DeleteRelayDelivered lane ev s)"

lemma run_store_kept: "kept s (run_store oper s)"
  using kept_outbox kept_tables by (cases oper) (simp_all add: always_def)

text \<open>An operation with any outcome, and any other outcomes of the calls to come.\<close>

inductive store_step :: "node_store \<Rightarrow> node_store \<Rightarrow> bool" where
  store_op: "store_step s (run_store oper s)"
| store_faults: "store_step s (s\<lparr>sql_faults := fs\<rparr>)"

definition store_empty :: "node_store \<Rightarrow> bool" where
  "store_empty s \<longleftrightarrow> relay_sent s = [] \<and> relay_held s = [] \<and> relay_delivered s = []"

lemma store_step_kept: "store_step s v \<Longrightarrow> kept s v"
  by (induction rule: store_step.induct) (simp_all add: run_store_kept kp.faults)

lemma store_run_kept: "store_step\<^sup>*\<^sup>* s v \<Longrightarrow> kept s v"
  by (induction rule: rtranclp_induct) (auto intro: kp.related_refl kp.related_trans store_step_kept)

interpretation node_tables: transition_system store_empty store_step store_ok
proof
  show "store_ok s" if "store_empty s" for s
    using that by (simp add: store_empty_def store_ok_def sent_ok_def idx_ok_def)
  show "store_ok v" if "store_ok s" "store_step s v" for s v
    using store_step_kept [OF that(2)] that(1) by (simp add: kept_def)
qed


definition empty_store :: node_store where
  "empty_store = \<lparr>relay_sent = [], relay_held = [], relay_delivered = [], relay_meta = [], sql_faults = []\<rparr>"

definition sample_key :: relayOutboxKey where
  "sample_key = \<lparr>ok_Kind = ''job.completed'', ok_JobID = ''job-a'', ok_Epoch = 3, ok_ReportPath = ''r.md'', ok_Reason = [],
     ok_Lane = [], ok_EventID = ''ev-1''\<rparr>"


section \<open>Terminal marks\<close>

lemma find_kept:
  assumes "outbox_kept rows rows'" "\<And>r r'. row_kept r r' \<Longrightarrow> P r' = P r" "find P rows = Some r"
  shows "\<exists>r'. find P rows' = Some r' \<and> row_kept r r'"
proof -
  obtain ys zs where y: "rows' = ys @ zs" "list_all2 row_kept rows ys" using assms(1) by (auto simp: outbox_kept_def)
  have "\<exists>r'. find P (ys @ zs) = Some r' \<and> row_kept r r'"
    using y(2) assms(3)
  proof (induction rule: list_all2_induct)
    case (Cons x xs y ys)
    then show ?case using assms(2) [of x y] by (auto split: if_splits)
  qed simp
  then show ?thesis by (simp add: y(1))
qed

definition named_key :: "relayOutboxKey \<Rightarrow> bool" where
  "named_key k \<longleftrightarrow> ok_Kind k = ''lane.event'' \<or> ok_EventID k \<noteq> []"

lemma outbox_row_kept:
  assumes "outbox_kept rows rows'" "named_key k" "outbox_row k rows = Some r"
  shows "\<exists>r'. outbox_row k rows' = Some r' \<and> row_kept r r'"
proof (cases "ok_Kind k = ''lane.event''")
  case True
  let ?P = "\<lambda>r. lane_index r = Some (ok_Lane k, ok_EventID k)"
  have p: "?P r' = ?P r" if "row_kept r r'" for r r'
    using that by (simp add: row_kept_def lane_index_def pk_index_def)
  have o: "outbox_row k rows = find ?P rows" for rows using True by (simp add: outbox_row_def sel_def)
  show ?thesis using assms(3) unfolding o by (intro find_kept [OF assms(1), where P = ?P] p)
next
  case False
  let ?P = "\<lambda>r. sr_kind r = ok_Kind k \<and> sr_job r = ok_JobID k \<and> sr_event r = ok_EventID k"
  have p: "?P r' = ?P r" if "row_kept r r'" for r r'
    using that by (simp add: row_kept_def pk_index_def)
  have o: "outbox_row k rows = find ?P rows" for rows using False assms(2) by (simp add: outbox_row_def named_key_def)
  show ?thesis using assms(3) unfolding o by (intro find_kept [OF assms(1), where P = ?P] p)
qed




section \<open>Reading back\<close>

lemma wp_sqlI: "(\<And>fs. Q () (s\<lparr>sql_faults := fs\<rparr>)) \<Longrightarrow> wp sql Q s"
proof (rule wpI)
  fix x v assume q: "\<And>fs. Q () (s\<lparr>sql_faults := fs\<rparr>)" and v: "sql s = (Inr x, v)"
  have "\<exists>fs. v = s\<lparr>sql_faults := fs\<rparr>" using v by (cases "sql_faults s"; cases s) (auto simp: sql_def split: if_splits)
  then show "Q x v" using q by auto
qed

lemma wp_node_txI:
  assumes "\<And>fs. wp body (\<lambda>x v. \<forall>fs. Q x (v\<lparr>sql_faults := fs\<rparr>)) (s\<lparr>sql_faults := fs\<rparr>)"
  shows "wp (node_tx body) Q s"
  unfolding node_tx_def wp_thenA
proof (rule wp_sqlI, rule wpI)
  fix fs x v
  let ?m = "bindA body (\<lambda>x. thenA sql (ret x))"
  assume "(case ?m (s\<lparr>sql_faults := fs\<rparr>) of (Inl e, v) \<Rightarrow> (Inl e, s\<lparr>sql_faults := fs\<rparr>\<lparr>sql_faults := sql_faults v\<rparr>) | (Inr x, v) \<Rightarrow> (Inr x, v)) = (Inr x, v)"
  then have m: "?m (s\<lparr>sql_faults := fs\<rparr>) = (Inr x, v)" by (auto split: prod.splits sum.splits)
  have "wp ?m Q (s\<lparr>sql_faults := fs\<rparr>)"
    unfolding wp_bindA by (rule wp_mono [OF assms]) (auto simp: wp_rules intro: wp_sqlI)
  from wpD [OF this m] show "Q x v" .
qed

lemma fold_max_ge: "(x :: int) \<in> set (n # ns) \<Longrightarrow> x \<le> fold max ns n"
  by (metis Max_ge List.finite_set Max.set_eq_fold)

lemma max_recv_seq_ge: "r \<in> set rows \<Longrightarrow> hr_seq r \<le> max_recv_seq rows"
proof (cases rows)
  case (Cons x xs)
  assume "r \<in> set rows"
  then have "hr_seq r \<in> set (hr_seq x # map hr_seq xs)" using Cons by auto
  from fold_max_ge [OF this] show ?thesis by (simp add: max_recv_seq_def Cons)
qed simp

definition inserted_held :: "relayHeld \<Rightarrow> node_store \<Rightarrow> bool \<Rightarrow> node_store \<Rightarrow> bool" where
  "inserted_held h s b v \<longleftrightarrow> (b \<longleftrightarrow> \<not> has_key held_key (rh_Lane h, rh_EventID h) (relay_held s))
     \<and> (\<exists>n. relay_held v = ins_ignore held_key (held_row_of h n) (relay_held s)
          \<and> (rh_RecvSeq h \<noteq> 0 \<longrightarrow> n = rh_RecvSeq h) \<and> (rh_RecvSeq h = 0 \<longrightarrow> (\<forall>r\<in>set (relay_held s). hr_seq r < n)))"

lemma inserted_heldI:
  assumes "relay_held v = ins_ignore held_key (held_row_of h n) (relay_held s)"
    "b \<longleftrightarrow> \<not> has_key held_key (rh_Lane h, rh_EventID h) (relay_held s)"
    "rh_RecvSeq h \<noteq> 0 \<longrightarrow> n = rh_RecvSeq h" "rh_RecvSeq h = 0 \<longrightarrow> (\<forall>r\<in>set (relay_held s). hr_seq r < n)"
  shows "inserted_held h s b v"
  unfolding inserted_held_def using assms by blast

lemma wp_next_recv_seq:
  assumes "\<And>n fs. (rh_RecvSeq h \<noteq> 0 \<Longrightarrow> n = rh_RecvSeq h) \<Longrightarrow> (rh_RecvSeq h = 0 \<Longrightarrow> n = max_recv_seq (relay_held s) + 1) \<Longrightarrow>
    Q n (s\<lparr>sql_faults := fs\<rparr>)"
  shows "wp (next_recv_seq h) Q s"
proof (cases "rh_RecvSeq h = 0")
  case True
  then show ?thesis using assms by (simp add: next_recv_seq_def wp_rules) (rule wp_sqlI, simp add: wp_rules)
next
  case False
  have "s = s\<lparr>sql_faults := sql_faults s\<rparr>" by simp
  then show ?thesis using assms [of "rh_RecvSeq h" "sql_faults s"] False by (simp add: next_recv_seq_def wp_rules)
qed

lemma InsertRelayHeld_effect: "wp (InsertRelayHeld h) (inserted_held h s) s"
  unfolding InsertRelayHeld_def wp_bindA
proof (rule wp_node_txI)
  fix fs
  let ?k = "(rh_Lane h, rh_EventID h)"
  show "wp (bindA (next_recv_seq h) (\<lambda>n. thenA sql (bindA (getA (\<lambda>s. \<not> has_key held_key ?k (relay_held s))) (\<lambda>inserted.
      thenA (modifyA (\<lambda>s. s\<lparr>relay_held := ins_ignore held_key (held_row_of h n) (relay_held s)\<rparr>)) (ret inserted)))))
     (\<lambda>x v. \<forall>fs. wp (thenA sql (ret x)) (inserted_held h s) (v\<lparr>sql_faults := fs\<rparr>)) (s\<lparr>sql_faults := fs\<rparr>)"
    unfolding wp_bindA
  proof (rule wp_next_recv_seq)
    fix n fs'
    assume "rh_RecvSeq h \<noteq> 0 \<Longrightarrow> n = rh_RecvSeq h"
      "rh_RecvSeq h = 0 \<Longrightarrow> n = max_recv_seq (relay_held (s\<lparr>sql_faults := fs\<rparr>)) + 1"
    then have "rh_RecvSeq h \<noteq> 0 \<longrightarrow> n = rh_RecvSeq h" "rh_RecvSeq h = 0 \<longrightarrow> (\<forall>r\<in>set (relay_held s). hr_seq r < n)"
      using max_recv_seq_ge by fastforce+
    then show "wp (thenA sql (bindA (getA (\<lambda>s. \<not> has_key held_key ?k (relay_held s))) (\<lambda>inserted.
      thenA (modifyA (\<lambda>s. s\<lparr>relay_held := ins_ignore held_key (held_row_of h n) (relay_held s)\<rparr>)) (ret inserted))))
     (\<lambda>x v. \<forall>fs. wp (thenA sql (ret x)) (inserted_held h s) (v\<lparr>sql_faults := fs\<rparr>)) (s\<lparr>sql_faults := fs\<rparr>\<lparr>sql_faults := fs'\<rparr>)"
      by (auto simp: wp_rules intro!: wp_sqlI inserted_heldI [where n = n])
  qed
qed

lemma sel_ins_ignore:
  "sel key k (ins_ignore key r t) = (case sel key k t of Some x \<Rightarrow> Some x | None \<Rightarrow> if key r = k then Some r else None)"
proof (cases "sel key k t")
  case None
  then show ?thesis using sel_None [of key k t] by (auto simp: ins_ignore_def sel_append)
next
  case (Some x)
  then show ?thesis by (simp add: ins_ignore_def sel_append)
qed

text \<open>
  C20: a held row reads back as it was written. When \<open>InsertRelayHeld\<close> reports an insert, a lookup
  by lane and event finds the row with its times cut to milliseconds, the receive number of the
  caller or, without one, a number past every held row; a second insert of the same lane and event
  reports False and changes nothing.
\<close>

theorem held_reads_back:
  assumes "InsertRelayHeld h s = (Inr True, v)" "RelayHeldByKey (rh_Lane h) (rh_EventID h) v = (Inr found, u)"
    "InsertRelayHeld h' u = (Inr b, w)" "rh_Lane h' = rh_Lane h" "rh_EventID h' = rh_EventID h"
  shows "(\<exists>n. found = Some (h\<lparr>rh_HeldSince := time_UnixMilli (UnixMilli (rh_HeldSince h)),
       rh_MaxWait := Milliseconds (rh_MaxWait h) * 1000000, rh_RecvSeq := n, rh_fresh := False\<rparr>)
     \<and> (rh_RecvSeq h \<noteq> 0 \<longrightarrow> n = rh_RecvSeq h) \<and> (rh_RecvSeq h = 0 \<longrightarrow> (\<forall>r\<in>set (relay_held s). hr_seq r < n)))
     \<and> \<not> b \<and> relay_held w = relay_held v"
proof -
  have i: "inserted_held h s True v" using wpD [OF InsertRelayHeld_effect assms(1)] .
  then obtain n where n: "relay_held v = ins_ignore held_key (held_row_of h n) (relay_held s)"
    "\<not> has_key held_key (rh_Lane h, rh_EventID h) (relay_held s)"
    "rh_RecvSeq h \<noteq> 0 \<longrightarrow> n = rh_RecvSeq h" "rh_RecvSeq h = 0 \<longrightarrow> (\<forall>r\<in>set (relay_held s). hr_seq r < n)"
    by (auto simp: inserted_held_def)
  have k: "held_key (held_row_of h n) = (rh_Lane h, rh_EventID h)" by (simp add: held_key_def held_row_of_def)
  have sel: "sel held_key (rh_Lane h, rh_EventID h) (relay_held v) = Some (held_row_of h n)"
    using n(1,2) k by (simp add: sel_ins_ignore sel_None [symmetric])
  have "wp (RelayHeldByKey (rh_Lane h) (rh_EventID h))
     (\<lambda>x u. x = Some (scan_held (held_row_of h n)) \<and> relay_held u = relay_held v) v"
    unfolding RelayHeldByKey_def by (auto simp: wp_rules sel intro!: wp_sqlI)
  from wpD [OF this assms(2)] have f: "found = Some (scan_held (held_row_of h n))" "relay_held u = relay_held v" by auto
  have "has_key held_key (rh_Lane h', rh_EventID h') (relay_held u)" using sel f(2) assms(4,5) by (metis option.distinct(1) sel_None)
  moreover have "inserted_held h' u b w" using wpD [OF InsertRelayHeld_effect assms(3)] .
  ultimately have "\<not> b" "relay_held w = relay_held u"
    by (auto simp: inserted_held_def ins_ignore_def held_key_def held_row_of_def)
  moreover have "scan_held (held_row_of h n) = h\<lparr>rh_HeldSince := time_UnixMilli (UnixMilli (rh_HeldSince h)),
       rh_MaxWait := Milliseconds (rh_MaxWait h) * 1000000, rh_RecvSeq := n, rh_fresh := False\<rparr>"
    by (simp add: scan_held_def held_row_of_def boolInt_def)
  ultimately show ?thesis using f n(3,4) by auto
qed

definition sample_held :: relayHeld where
  "sample_held = \<lparr>rh_Pane = ''w1:p1'', rh_Lane = ''desk'', rh_JobID = ''job-a'', rh_Text = ''note'', rh_DeliverPolicy = ''idle'',
     rh_EventID = 7, rh_HeldSince = 5000001, rh_MaxWait = 3000000, rh_RecvSeq = 0, rh_Edited = False, rh_fresh = True,
     rh_Attempts = 0, rh_Lease = []\<rparr>"

lemmas store_run_defs = InsertRelayHeld_def node_tx_def next_recv_seq_def act_defs sql_def empty_store_def RelayHeldByKey_def
  max_recv_seq_def ins_ignore_def held_key_def held_row_of_def max_int64_def RelayHeldForPane_def

theorem held_reads_back_witness:
  "\<exists>v u w found. InsertRelayHeld sample_held empty_store = (Inr True, v) \<and> RelayHeldByKey ''desk'' 7 v = (Inr (Some found), u)
     \<and> rh_HeldSince found = 5000000 \<and> InsertRelayHeld sample_held u = (Inr False, w) \<and> relay_held w = relay_held v"
proof -
  let ?v = "snd (InsertRelayHeld sample_held empty_store)"
  let ?u = "snd (RelayHeldByKey ''desk'' 7 ?v)"
  let ?w = "snd (InsertRelayHeld sample_held ?u)"
  have v: "InsertRelayHeld sample_held empty_store = (Inr True, ?v)"
    and u: "\<exists>found. RelayHeldByKey ''desk'' 7 ?v = (Inr found, ?u)"
    and w: "\<exists>b. InsertRelayHeld sample_held ?u = (Inr b, ?w)"
    by (auto simp: store_run_defs sample_held_def)
  from u w obtain found b where ub: "RelayHeldByKey ''desk'' 7 ?v = (Inr found, ?u)" "InsertRelayHeld sample_held ?u = (Inr b, ?w)" by blast
  have l: "rh_Lane sample_held = ''desk''" "rh_EventID sample_held = 7" by (simp_all add: sample_held_def)
  have "RelayHeldByKey (rh_Lane sample_held) (rh_EventID sample_held) ?v = (Inr found, ?u)" unfolding l by (rule ub(1))
  from held_reads_back [OF v this ub(2) refl refl] obtain x where x: "found = Some x" "\<not> b" "relay_held ?w = relay_held ?v"
    "rh_HeldSince x = time_UnixMilli (UnixMilli (rh_HeldSince sample_held))" by auto
  then have "rh_HeldSince x = 5000000" "b = False" by (simp_all add: sample_held_def time_UnixMilli_def UnixMilli_def)
  then show ?thesis using v ub x by blast
qed


text \<open>A row with the greatest key sorts last.\<close>

lemma insort_before: "f x \<le> f y \<Longrightarrow> insort_key f x (xs @ [y]) = insort_key f x xs @ [y]"
  by (induction xs) auto

lemma sort_key_last: "\<forall>x\<in>set xs. f x \<le> f y \<Longrightarrow> sort_key f (xs @ [y]) = sort_key f xs @ [y]"
  by (induction xs) (simp_all add: insort_before)

text \<open>
  C21: the queue of a pane is first in, first out. A row held without a receive number joins the end
  of its pane's queue, and the queue of every other pane stays as it was.
\<close>

theorem held_queue_fifo:
  assumes "RelayHeldForPane pane s = (Inr queue, s')" "rh_RecvSeq h = 0"
    "InsertRelayHeld h s = (Inr True, v)" "RelayHeldForPane pane v = (Inr queue', v')"
  shows "if rh_Pane h = pane then \<exists>x. queue' = queue @ [x] \<and> rh_EventID x = rh_EventID h \<and> rh_Text x = rh_Text h
         else queue' = queue"
proof -
  have i: "inserted_held h s True v" using wpD [OF InsertRelayHeld_effect assms(3)] .
  then obtain n where n: "relay_held v = relay_held s @ [held_row_of h n]" "\<forall>r\<in>set (relay_held s). hr_seq r < n"
    using assms(2) by (auto simp: inserted_held_def ins_ignore_def held_key_def held_row_of_def)
  have q: "RelayHeldForPane pane s = (Inr q, t) \<Longrightarrow> q = map scan_held (sort_key hr_seq (filter (\<lambda>r. hr_pane r = pane) (relay_held s)))"
    for s q t
    by (cases "sql_faults s") (auto simp: RelayHeldForPane_def act_defs sql_def split: if_splits)
  have "hr_pane (held_row_of h n) = rh_Pane h" "hr_seq (held_row_of h n) = n" by (simp_all add: held_row_of_def)
  then have "queue' = (if rh_Pane h = pane then queue @ [scan_held (held_row_of h n)] else queue)"
    using q [OF assms(1)] q [OF assms(4)] n by (simp add: sort_key_last less_imp_le)
  then show ?thesis by (auto simp: scan_held_def held_row_of_def)
qed

theorem held_queue_fifo_witness:
  "\<exists>v v' x. InsertRelayHeld sample_held empty_store = (Inr True, v) \<and> RelayHeldForPane ''w1:p1'' v = (Inr [x], v') \<and> rh_Text x = ''note''"
proof -
  let ?v = "snd (InsertRelayHeld sample_held empty_store)"
  have v: "InsertRelayHeld sample_held empty_store = (Inr True, ?v)" "\<exists>q v'. RelayHeldForPane ''w1:p1'' ?v = (Inr q, v')"
    "RelayHeldForPane ''w1:p1'' empty_store = (Inr [], empty_store)" "rh_RecvSeq sample_held = 0"
    by (auto simp: store_run_defs sample_held_def)
  then obtain q v' where q: "RelayHeldForPane ''w1:p1'' ?v = (Inr q, v')" by blast
  from held_queue_fifo [OF v(3,4,1) q] have "\<exists>x. q = [x] \<and> rh_Text x = ''note''" by (auto simp: sample_held_def)
  then show ?thesis using v(1) q by blast
qed

text \<open>
  C23: a deadline is never pulled earlier. Whatever its outcome, \<open>ExtendRelayHeldMaxWait\<close> keeps the
  rows and their order, changes nothing but the wait of rows of the given event, and only raises it.
\<close>

theorem extend_never_shortens:
  assumes "ExtendRelayHeldMaxWait ev wait s = (r, v)"
  shows "list_all2 (\<lambda>a b. hr_wait a \<le> hr_wait b \<and> b = a\<lparr>hr_wait := hr_wait b\<rparr> \<and> (b \<noteq> a \<longrightarrow> hr_event a = ev \<and> hr_wait b = Milliseconds wait))
     (relay_held s) (relay_held v)"
proof -
  have "relay_held v = relay_held s \<or> relay_held v = upd (\<lambda>r. hr_event r = ev \<and> hr_wait r < Milliseconds wait)
      (\<lambda>r. r\<lparr>hr_wait := Milliseconds wait\<rparr>) (relay_held s)"
    using assms by (cases "sql_faults s"; cases "tl (sql_faults s)")
      (auto simp: ExtendRelayHeldMaxWait_def held_stmt_def act_defs sql_def split: if_splits)
  then show ?thesis by (auto simp: upd_def list_all2_map2 list_all2_same)
qed

theorem extend_never_shortens_witness:
  "\<exists>r v. ExtendRelayHeldMaxWait 7 9000000 (empty_store\<lparr>relay_held := [held_row_of sample_held 1]\<rparr>) = (r, v)
     \<and> list_all2 (\<lambda>a b. hr_wait a \<le> hr_wait b) [held_row_of sample_held 1] (relay_held v)"
proof -
  let ?s = "empty_store\<lparr>relay_held := [held_row_of sample_held 1]\<rparr>"
  obtain r v where e: "ExtendRelayHeldMaxWait 7 9000000 ?s = (r, v)" by fastforce
  from extend_never_shortens [OF e] have "list_all2 (\<lambda>a b. hr_wait a \<le> hr_wait b) (relay_held ?s) (relay_held v)"
    by (rule list_all2_mono) simp
  then show ?thesis using e by (simp add: empty_store_def)
qed


section \<open>Delivered records\<close>

definition cutoff :: "time \<Rightarrow> int" where
  "cutoff at = UnixMilli (at - relayDeliveredMaxAge)"

lemma RecordRelayDelivered_effect:
  "wp (RecordRelayDelivered lane ev pane sha at) (\<lambda>_ v. relay_delivered v = filter (\<lambda>r. \<not> dr_at r < cutoff at)
     (ins_ignore delivered_key \<lparr>dr_lane = lane, dr_event = ev, dr_pane = pane, dr_sha = sha, dr_at = UnixMilli at\<rparr> (relay_delivered s))) s"
  unfolding RecordRelayDelivered_def by (rule wp_node_txI) (auto simp: wp_rules cutoff_def intro!: wp_sqlI)

lemma sel_filter:
  assumes "unique key t"
  shows "sel key k (filter P t) = (case sel key k t of Some r \<Rightarrow> if P r then Some r else None | None \<Rightarrow> None)"
  using assms
proof (induction t)
  case (Cons a t)
  have "sel key (key a) t = None" using Cons.prems unfolding sel_None has_key_iff unique_def by (auto, metis image_eqI)
  then show ?case using Cons by (auto simp: unique_def)
qed simp

lemma RelayDeliveredByKey_result:
  "RelayDeliveredByKey lane ev s = (Inr found, u) \<Longrightarrow> found = map_option delivered_of (sel delivered_key (lane, ev) (relay_delivered s))"
  by (cases "sql_faults s") (auto simp: RelayDeliveredByKey_def act_defs sql_def split: if_splits)

lemma cutoff_before: "cutoff at < UnixMilli at"
  by (simp add: cutoff_def UnixMilli_def relayDeliveredMaxAge_def minute_def second_def)

text \<open>
  C22: the first delivery of an event is the one on record. After \<open>RecordRelayDelivered\<close>, a lookup of
  the event finds the record it had before, unchanged, as long as that is at most three days old;
  an event that had none is found with the pane, the fingerprint and the time of this delivery, cut
  to milliseconds; and no record of another event changes, except that records older than three days
  are gone.
\<close>

theorem delivered_first_writer_wins:
  assumes "store_ok s" "RecordRelayDelivered lane ev pane sha at s = (Inr x, v)" "RelayDeliveredByKey l e v = (Inr found, u)"
  shows "found = (case sel delivered_key (l, e) (relay_delivered s) of
       Some r \<Rightarrow> if dr_at r < cutoff at then None else Some (delivered_of r)
     | None \<Rightarrow> if (l, e) = (lane, ev) then Some \<lparr>rd_Pane = pane, rd_PayloadSHA = sha, rd_DeliveredAt = time_UnixMilli (UnixMilli at)\<rparr> else None)"
proof -
  let ?r = "\<lparr>dr_lane = lane, dr_event = ev, dr_pane = pane, dr_sha = sha, dr_at = UnixMilli at\<rparr>"
  have u: "unique delivered_key (ins_ignore delivered_key ?r (relay_delivered s))"
    using assms(1) by (simp add: store_ok_def unique_ins_ignore)
  have v: "relay_delivered v = filter (\<lambda>r. \<not> dr_at r < cutoff at) (ins_ignore delivered_key ?r (relay_delivered s))"
    using wpD [OF RecordRelayDelivered_effect assms(2)] .
  have k: "delivered_key ?r = (lane, ev)" by (simp add: delivered_key_def)
  show ?thesis
    unfolding RelayDeliveredByKey_result [OF assms(3)] v sel_filter [OF u] sel_ins_ignore k
    using cutoff_before [of at] by (auto simp: delivered_of_def split: option.splits)
qed

theorem delivered_first_writer_wins_witness:
  "\<exists>v w u x. RecordRelayDelivered ''desk'' 7 ''w1:p1'' ''aa'' 5000000 empty_store = (Inr (), v)
     \<and> RecordRelayDelivered ''desk'' 7 ''w2:p2'' ''bb'' 9000000 v = (Inr (), w)
     \<and> RelayDeliveredByKey ''desk'' 7 w = (Inr (Some x), u) \<and> rd_Pane x = ''w1:p1''"
proof -
  let ?v = "snd (RecordRelayDelivered ''desk'' 7 ''w1:p1'' ''aa'' 5000000 empty_store)"
  let ?w = "snd (RecordRelayDelivered ''desk'' 7 ''w2:p2'' ''bb'' 9000000 ?v)"
  let ?r = "\<lparr>dr_lane = ''desk'', dr_event = 7, dr_pane = ''w1:p1'', dr_sha = ''aa'', dr_at = 5\<rparr>"
  have v: "RecordRelayDelivered ''desk'' 7 ''w1:p1'' ''aa'' 5000000 empty_store = (Inr (), ?v)" "relay_delivered ?v = [?r]"
    "sql_faults ?v = []" "relay_sent ?v = []" "relay_held ?v = []"
    by (simp_all add: RecordRelayDelivered_def node_tx_def act_defs sql_def empty_store_def ins_ignore_def UnixMilli_def
        relayDeliveredMaxAge_def minute_def second_def)
  have w: "RecordRelayDelivered ''desk'' 7 ''w2:p2'' ''bb'' 9000000 ?v = (Inr (), ?w)" "sql_faults ?w = []"
    using v(2,3) by (simp_all add: RecordRelayDelivered_def [of _ _ "''w2:p2''"] node_tx_def act_defs sql_def)
  obtain found where f: "RelayDeliveredByKey ''desk'' 7 ?w = (Inr found, ?w)"
    using w(2) by (auto simp: RelayDeliveredByKey_def act_defs sql_def)
  have ok: "store_ok ?v" using v by (simp add: store_ok_def sent_ok_def idx_ok_def unique_def)
  have "\<not> (5 :: int) < cutoff 9000000"
    by (simp add: cutoff_def UnixMilli_def relayDeliveredMaxAge_def minute_def second_def)
  then have "\<exists>x. found = Some x \<and> rd_Pane x = ''w1:p1''"
    using delivered_first_writer_wins [OF ok w(1) f] v(2) by (simp add: delivered_key_def delivered_of_def)
  then show ?thesis using v(1) w(1) f by blast
qed

section \<open>Outbox keys\<close>

definition no_nul :: "string \<Rightarrow> bool" where
  "no_nul s \<longleftrightarrow> CHR 0x00 \<notin> set s"

lemma nul_split:
  assumes "no_nul a" "no_nul b" "a @ [CHR 0x00] @ x = b @ [CHR 0x00] @ y"
  shows "a = b" "x = y"
proof -
  have "cut_head (CHR 0x00) (a @ [CHR 0x00] @ x) = a" "cut_head (CHR 0x00) (b @ [CHR 0x00] @ y) = b"
    using assms(1,2) by (simp_all add: no_nul_def cut_head_append)
  then show "a = b" using assms(3) by simp
  then show "x = y" using assms(3) by simp
qed

definition clean_key :: "relayOutboxKey \<Rightarrow> bool" where
  "clean_key k \<longleftrightarrow> no_nul (ok_Kind k) \<and> no_nul (ok_JobID k) \<and> no_nul (ok_ReportPath k) \<and> no_nul (ok_Reason k)
     \<and> no_nul (ok_Lane k) \<and> no_nul (ok_EventID k)"

lemma no_nul_decimal: "no_nul (decimal n)"
  using set_decimal_digits [of "CHR 0x00" n] by (auto simp: no_nul_def is_digit_def)

lemma key_head: "clean_key k \<Longrightarrow> cut_head (CHR 0x00) (outbox_key_String k) = ok_Kind k"
proof -
  assume "clean_key k"
  then have "CHR 0x00 \<notin> set (ok_Kind k)" by (simp add: clean_key_def no_nul_def)
  moreover have "\<exists>rest. outbox_key_String k = ok_Kind k @ CHR 0x00 # rest"
    by (auto simp: outbox_key_String_def relayEventOutboxKey_def relayLaneEventOutboxKey_def)
  ultimately show ?thesis using cut_head_append by fastforce
qed

text \<open>
  C24: the text of an outbox key names one event. Two keys whose fields hold no NUL byte and whose
  texts are equal are of the same kind and agree on lane and event for a lane event, and on all of
  job, epoch, report path, reason and event otherwise; the epoch of 64 bits is read back exactly.
\<close>

theorem outbox_key_String_injective:
  assumes "clean_key k" "clean_key k'" "outbox_key_String k = outbox_key_String k'"
  shows "ok_Kind k = ok_Kind k' \<and> ok_EventID k = ok_EventID k'
     \<and> (if ok_Kind k = ''lane.event'' then ok_Lane k = ok_Lane k'
        else ok_JobID k = ok_JobID k' \<and> ok_Epoch k = ok_Epoch k' \<and> ok_ReportPath k = ok_ReportPath k' \<and> ok_Reason k = ok_Reason k')"
proof -
  have kind: "ok_Kind k = ok_Kind k'" using key_head assms by metis
  show ?thesis
  proof (cases "ok_Kind k = ''lane.event''")
    case True
    then have "ok_Lane k @ [CHR 0x00] @ ok_EventID k = ok_Lane k' @ [CHR 0x00] @ ok_EventID k'"
      using assms(3) kind by (simp add: outbox_key_String_def relayLaneEventOutboxKey_def)
    from nul_split [OF _ _ this] show ?thesis using assms(1,2) True kind by (simp add: clean_key_def)
  next
    case False
    then have e: "ok_JobID k @ [CHR 0x00] @ decimal (unat (ok_Epoch k)) @ [CHR 0x00] @ ok_ReportPath k @ [CHR 0x00] @ ok_Reason k @ [CHR 0x00] @ ok_EventID k
       = ok_JobID k' @ [CHR 0x00] @ decimal (unat (ok_Epoch k')) @ [CHR 0x00] @ ok_ReportPath k' @ [CHR 0x00] @ ok_Reason k' @ [CHR 0x00] @ ok_EventID k'"
      using assms(3) kind by (simp add: outbox_key_String_def relayEventOutboxKey_def)
    have n: "no_nul (ok_JobID k)" "no_nul (ok_JobID k')" "no_nul (ok_ReportPath k)" "no_nul (ok_ReportPath k')"
      "no_nul (ok_Reason k)" "no_nul (ok_Reason k')" using assms(1,2) by (simp_all add: clean_key_def)
    note e1 = nul_split [OF n(1,2) e]
    note e2 = nul_split [OF no_nul_decimal no_nul_decimal e1(2)]
    note e3 = nul_split [OF n(3,4) e2(2)]
    note e4 = nul_split [OF n(5,6) e3(2)]
    have "ok_Epoch k = ok_Epoch k'" using decimal_inj [OF e2(1)] by (rule unsigned_word_eqI)
    then show ?thesis using e1(1) e3(1) e4 kind False by simp
  qed
qed

theorem outbox_key_String_injective_witness:
  "clean_key sample_key \<and> clean_key (sample_key\<lparr>ok_Lane := ''ops''\<rparr>) \<and> clean_key (sample_key\<lparr>ok_Epoch := 4\<rparr>)
   \<and> outbox_key_String sample_key = outbox_key_String (sample_key\<lparr>ok_Lane := ''ops''\<rparr>)
   \<and> ok_Epoch sample_key = ok_Epoch (sample_key\<lparr>ok_Lane := ''ops''\<rparr>)
   \<and> outbox_key_String (sample_key\<lparr>ok_Epoch := 4\<rparr>) \<noteq> outbox_key_String sample_key"
proof -
  have c: "clean_key sample_key" "clean_key (sample_key\<lparr>ok_Lane := ''ops''\<rparr>)" "clean_key (sample_key\<lparr>ok_Epoch := 4\<rparr>)"
    by (simp_all add: clean_key_def sample_key_def no_nul_def)
  have e: "outbox_key_String sample_key = outbox_key_String (sample_key\<lparr>ok_Lane := ''ops''\<rparr>)"
    by (simp add: outbox_key_String_def relayEventOutboxKey_def sample_key_def)
  have "outbox_key_String (sample_key\<lparr>ok_Epoch := 4\<rparr>) \<noteq> outbox_key_String sample_key"
    using outbox_key_String_injective [OF c(3,1)] by (auto simp: sample_key_def)
  then show ?thesis using outbox_key_String_injective [OF c(1,2) e] c e by (simp add: sample_key_def)
qed

end
