(* ===== verification/Go_Text.thy ===== *)
theory Go_Text
  imports Utf8
begin

text \<open>
  What the program uses of Go's \<open>strings\<close> package and of \<open>filepath.Base\<close>, on byte strings: fields,
  trimming, splitting into lines, search. White space is that of Unicode, as Go has it.
\<close>

text \<open>\<open>strings.Fields\<close> over the white space of Unicode, and \<open>filepath.Base\<close>.\<close>

definition space_runes :: "string list" where
  "space_runes =
     map (\<lambda>c. [char_of (c :: nat)]) [9, 10, 11, 12, 13, 32]
     @ map (map (char_of :: nat \<Rightarrow> char)) ([[0xC2, 0x85], [0xC2, 0xA0], [0xE1, 0x9A, 0x80]]
         @ map (\<lambda>b. [0xE2, 0x80, b]) [0x80, 0x81, 0x82, 0x83, 0x84, 0x85, 0x86, 0x87, 0x88, 0x89, 0x8A, 0xA8, 0xA9, 0xAF]
         @ [[0xE2, 0x81, 0x9F], [0xE3, 0x80, 0x80]])"

fun fields_of :: "string list \<Rightarrow> string \<Rightarrow> string list" where
  "fields_of [] cur = (if cur = [] then [] else [cur])"
| "fields_of (r # rs) cur =
     (if r \<in> set space_runes then (if cur = [] then fields_of rs [] else cur # fields_of rs [])
      else fields_of rs (cur @ r))"

definition Fields :: "string \<Rightarrow> string list" where
  "Fields s = fields_of (runes s) []"

definition Base :: "string \<Rightarrow> string" where
  "Base path =
     (if path = [] then ''.''
      else let trimmed = rev (dropWhile (\<lambda>c. c = CHR ''/'') (rev path));
               name = rev (takeWhile (\<lambda>c. c \<noteq> CHR ''/'') (rev trimmed))
           in if name = [] then ''/'' else name)"

text \<open>\<open>strings.TrimSpace\<close>, \<open>strings.Split(s, "\n")\<close> and \<open>strings.Contains\<close>.\<close>

definition TrimSpace :: "string \<Rightarrow> string" where
  "TrimSpace s =
     (let width = (\<lambda>rs. sum_list (map length (takeWhile (\<lambda>r. r \<in> set space_runes) rs)));
          t = drop (width (runes s)) s
      in take (length t - width (rev (runes t))) t)"

fun split_lines :: "string \<Rightarrow> string list" where
  "split_lines [] = [[]]"
| "split_lines (c # cs) = (if c = CHR 0x0A then [] # split_lines cs
     else case split_lines cs of [] \<Rightarrow> [[c]] | l # ls \<Rightarrow> (c # l) # ls)"

fun Contains :: "string \<Rightarrow> string \<Rightarrow> bool" where
  "Contains [] sub = (sub = [])"
| "Contains (c # cs) sub = (take (length sub) (c # cs) = sub \<or> Contains cs sub)"

text \<open>\<open>strings.ToLower\<close> on the letters of ASCII and on the two other runes it maps to one; the rest is kept.\<close>

definition lower_rune :: "string \<Rightarrow> string" where
  "lower_rune r =
     (case r of [c] \<Rightarrow> if 65 \<le> byte c \<and> byte c \<le> 90 then [char_of (byte c + 32)] else r
      | _ \<Rightarrow> if r = [char_of (0xE2 :: nat), char_of (0x84 :: nat), char_of (0xAA :: nat)] then ''k''
             else if r = [char_of (0xC4 :: nat), char_of (0xB0 :: nat)] then ''i'' else r)"

definition ToLower :: "string \<Rightarrow> string" where
  "ToLower s = concat (map lower_rune (runes s))"

definition lower_char :: "char \<Rightarrow> char" where
  "lower_char c = (if 65 \<le> byte c \<and> byte c \<le> 90 then char_of (byte c + 32) else c)"

text \<open>\<open>strings.EqualFold\<close>: the letters of ASCII and the two other runes that fold to one; the rest compares as it is.\<close>

definition fold_rune :: "string \<Rightarrow> string" where
  "fold_rune r =
     (case r of [c] \<Rightarrow> [lower_char c]
      | _ \<Rightarrow> if r = [char_of (0xE2 :: nat), char_of (0x84 :: nat), char_of (0xAA :: nat)] then ''k''
             else if r = [char_of (0xC5 :: nat), char_of (0xBF :: nat)] then ''s'' else r)"

definition EqualFold :: "string \<Rightarrow> string \<Rightarrow> bool" where
  "EqualFold s t \<longleftrightarrow> map fold_rune (runes s) = map fold_rune (runes t)"

text \<open>A literal outside ASCII, by its bytes; \<open>strings.Join\<close> with line feeds and \<open>strings.Join(strings.Fields(s), "")\<close>.\<close>

definition utf8 :: "nat list \<Rightarrow> string" where
  "utf8 ns = map (char_of :: nat \<Rightarrow> char) ns"

fun join_lines :: "string list \<Rightarrow> string" where
  "join_lines [] = []"
| "join_lines [l] = l"
| "join_lines (l # ls) = l @ CHR 0x0A # join_lines ls"

definition compactWhitespace :: "string \<Rightarrow> string" where
  "compactWhitespace v = concat (Fields v)"

lemma split_lines_not_Nil [simp]: "split_lines s \<noteq> []"
  by (induction s) (auto split: list.splits)

lemma join_split_lines [simp]: "join_lines (split_lines s) = s"
proof (induction s)
  case (Cons c cs)
  obtain l ls where l: "split_lines cs = l # ls" by (cases "split_lines cs") simp_all
  then show ?case using Cons by (cases ls) auto
qed simp

lemma Contains_iff: "Contains s sub \<longleftrightarrow> (\<exists>pre post. s = pre @ sub @ post)"
proof (induction s)
  case (Cons c cs)
  have "(\<exists>pre post. c # cs = pre @ sub @ post) \<longleftrightarrow> take (length sub) (c # cs) = sub \<or> (\<exists>pre post. cs = pre @ sub @ post)"
  proof
    assume "\<exists>pre post. c # cs = pre @ sub @ post"
    then obtain pre post where e: "c # cs = pre @ sub @ post" by blast
    show "take (length sub) (c # cs) = sub \<or> (\<exists>pre post. cs = pre @ sub @ post)"
      using e by (cases pre) auto
  next
    assume "take (length sub) (c # cs) = sub \<or> (\<exists>pre post. cs = pre @ sub @ post)"
    then show "\<exists>pre post. c # cs = pre @ sub @ post"
    proof
      assume "take (length sub) (c # cs) = sub"
      then have "c # cs = [] @ sub @ drop (length sub) (c # cs)" by (metis append_Nil append_take_drop_id)
      then show ?thesis by blast
    next
      assume "\<exists>pre post. cs = pre @ sub @ post"
      then obtain pre post where "cs = pre @ sub @ post" by blast
      then have "c # cs = (c # pre) @ sub @ post" by simp
      then show ?thesis by blast
    qed
  qed
  then show ?case using Cons.IH by simp
qed auto

text \<open>Texts of ASCII.\<close>

lemma runes_ascii: "list_all (\<lambda>c. byte c < 128) s \<Longrightarrow> runes s = map (\<lambda>c. [c]) s"
proof (induction s)
  case (Cons c cs)
  then have "rune_len (c # cs) = 1" by (simp add: rune_len_def)
  then show ?case using Cons by (subst runes.simps) simp
qed (simp add: runes.simps)

lemma char_of_byte: "n < 256 \<Longrightarrow> c = char_of n \<longleftrightarrow> byte c = n"
  unfolding byte_def by (metis char_of_char of_char_of mod_less)

lemma space_ascii: "[c] \<in> set space_runes \<longleftrightarrow> byte c \<in> {9, 10, 11, 12, 13, 32}"
proof -
  have "[c] \<in> set space_runes \<longleftrightarrow> (\<exists>n\<in>{9, 10, 11, 12, 13, 32 :: nat}. c = char_of n)" by (auto simp: space_runes_def)
  then show ?thesis by (auto simp: char_of_byte)
qed

lemma TrimSpace_ascii:
  assumes "list_all (\<lambda>c. byte c < 128) s" "s = [] \<or> (byte (hd s) \<notin> {9, 10, 11, 12, 13, 32} \<and> byte (last s) \<notin> {9, 10, 11, 12, 13, 32})"
  shows "TrimSpace s = s"
proof (cases s rule: rev_cases)
  case (snoc ys y)
  then obtain c cs where s: "s = c # cs" by (metis neq_Nil_conv snoc_eq_iff_butlast)
  have r: "runes s = map (\<lambda>c. [c]) s" by (rule runes_ascii [OF assms(1)])
  have "takeWhile (\<lambda>r. r \<in> set space_runes) (runes s) = []" using assms(2) by (simp add: r) (simp add: s space_ascii)
  moreover have "takeWhile (\<lambda>r. r \<in> set space_runes) (rev (runes s)) = []" using assms(2) by (simp add: r) (simp add: snoc space_ascii)
  ultimately show ?thesis by (simp add: TrimSpace_def)
qed (simp add: TrimSpace_def)

end
