(* ===== verification/Idle_Shutdown.thy ===== *)
theory Idle_Shutdown
  imports Go_Time Go_Text
begin

text \<open>
  The power-off of an idle node: \<open>src/idle_shutdown.go\<close>. The manager polls probes and powers the
  machine off once the machine has been idle for a configured time. The probes, the outcomes of the
  notice and of the command, and the clock are inputs of a tick; what a tick does to the world is its
  list of effects. The lemmas show when nothing blocks, and that a command is only issued after an
  unbroken stretch of clear observations.
\<close>

section \<open>Configuration and probes\<close>

record IdleShutdownConfig =
  cfg_After :: int
  cfg_PollInterval :: int
  cfg_Lane :: string
  cfg_NotifySettle :: int

definition idle_defaults :: "IdleShutdownConfig \<Rightarrow> IdleShutdownConfig" where
  "idle_defaults cfg =
     cfg\<lparr>cfg_PollInterval := (if cfg_PollInterval cfg \<le> 0 then minute else cfg_PollInterval cfg),
         cfg_Lane := (if cfg_Lane cfg = [] then ''operator-desk'' else cfg_Lane cfg),
         cfg_NotifySettle := (if cfg_NotifySettle cfg \<le> 0 then 2 * second else cfg_NotifySettle cfg)\<rparr>"

record agent_session =
  as_Status :: string
  as_PaneID :: string
  as_AgentName :: string
  as_Label :: string

record job_lease =
  jl_Pane :: string
  jl_AgentLabel :: string

text \<open>One reading of the probes; None is a probe that failed.\<close>

record probes =
  pr_sessions :: "agent_session list option"
  pr_jobLeases :: "job_lease list option"
  pr_procs :: "string list option"
  pr_interactive :: "int option"
  pr_keepAwake :: bool

definition idleShutdownRunnerProc :: "string \<Rightarrow> bool" where
  "idleShutdownRunnerProc line = list_ex (\<lambda>field. Base field = ''Runner.Worker'') (Fields line)"

definition held_names :: "job_lease list \<Rightarrow> string list" where
  "held_names jobs = concat (map (\<lambda>j. (if jl_Pane j \<noteq> [] then [jl_Pane j] else [])
      @ (if jl_AgentLabel j \<noteq> [] then [jl_AgentLabel j] else [])) jobs)"

fun session_block :: "string list \<Rightarrow> agent_session list \<Rightarrow> string" where
  "session_block held [] = []"
| "session_block held (a # rest) =
     (if as_Status a = ''working'' \<or> as_Status a = ''blocked'' then ''pane_active''
      else if \<not> (as_Status a = ''idle'' \<or> as_Status a = ''done'') then ''pane_unknown''
      else if as_PaneID a \<in> set held \<or> as_AgentName a \<in> set held \<or> as_Label a \<in> set held then ''pane_holding_job''
      else session_block held rest)"

definition blockedReason :: "probes \<Rightarrow> string" where
  "blockedReason p =
     (case pr_sessions p of None \<Rightarrow> ''sessions_unavailable''
      | Some sessions \<Rightarrow>
        (case pr_jobLeases p of None \<Rightarrow> ''jobs_unavailable''
         | Some jobs \<Rightarrow>
           if session_block (held_names jobs) sessions \<noteq> [] then session_block (held_names jobs) sessions
           else if jobs \<noteq> [] then ''jobs_active''
           else (case pr_procs p of None \<Rightarrow> ''procs_unavailable''
             | Some procs \<Rightarrow>
               if list_ex idleShutdownRunnerProc procs then ''ci_runner''
               else (case pr_interactive p of None \<Rightarrow> ''users_unavailable''
                 | Some users \<Rightarrow> if users > 0 then ''user_session'' else if pr_keepAwake p then ''keep_awake'' else []))))"

definition idleShutdownKeepAwake :: "string \<Rightarrow> bool \<Rightarrow> bool \<Rightarrow> bool" where
  "idleShutdownKeepAwake path stat_ok not_exist = (path \<noteq> [] \<and> (stat_ok \<or> \<not> not_exist))"


section \<open>The manager\<close>

record idle_manager =
  idleSince :: "time option"
  lastBlock :: string
  committed :: bool

definition newIdleShutdownManager :: idle_manager where
  "newIdleShutdownManager = \<lparr>idleSince = None, lastBlock = [], committed = False\<rparr>"

datatype idle_effect = Notice string time int | Enqueue string time | PowerOff

text \<open>What the world answers during one tick.\<close>

record tick_input =
  ti_now :: time
  ti_probes :: probes
  ti_write1 :: bool
  ti_write2 :: bool
  ti_enqueue :: bool
  ti_cancelled :: bool
  ti_probes_after :: probes
  ti_shutdown_ok :: bool
  ti_now_after :: time

definition notice_effects :: "IdleShutdownConfig \<Rightarrow> tick_input \<Rightarrow> int \<Rightarrow> idle_effect list" where
  "notice_effects cfg i idleFor =
     (let secs = (if 0 \<le> idleFor then idleFor div second else - ((- idleFor) div second));
          n = Notice (cfg_Lane cfg) (ti_now i) secs;
          q = (if ti_enqueue i then [Enqueue (cfg_Lane cfg) (ti_now i)] else [])
      in if ti_write1 i then n # q else if ti_write2 i then [n, n] @ q else [n, n])"

definition decide :: "IdleShutdownConfig \<Rightarrow> tick_input \<Rightarrow> int \<Rightarrow> idle_manager \<Rightarrow> idle_effect list \<times> idle_manager" where
  "decide cfg i idleFor m =
     (let fx = notice_effects cfg i idleFor
      in if cfg_NotifySettle cfg > 0 \<and> ti_cancelled i then (fx, m\<lparr>committed := False\<rparr>)
         else if blockedReason (ti_probes_after i) \<noteq> []
         then (fx, m\<lparr>committed := False, idleSince := None, lastBlock := blockedReason (ti_probes_after i)\<rparr>)
         else if \<not> ti_shutdown_ok i
         then (fx @ [PowerOff], m\<lparr>committed := False, idleSince := Some (ti_now_after i)\<rparr>)
         else (fx @ [PowerOff], m))"

definition tick :: "IdleShutdownConfig \<Rightarrow> tick_input \<Rightarrow> idle_manager \<Rightarrow> idle_effect list \<times> idle_manager" where
  "tick cfg i m =
     (let blocker = blockedReason (ti_probes i)
      in if committed m then ([], m)
         else if blocker \<noteq> [] then ([], m\<lparr>idleSince := None, lastBlock := blocker\<rparr>)
         else case idleSince m of
           None \<Rightarrow> ([], m\<lparr>idleSince := Some (ti_now i), lastBlock := []\<rparr>)
         | Some since \<Rightarrow>
             let elapsed = time_sub (ti_now i) since; m1 = m\<lparr>committed := (elapsed \<ge> cfg_After cfg)\<rparr>
             in if \<not> committed m1 then ([], m1) else decide cfg i elapsed m1)"

text \<open>\<open>Run\<close>: one tick after the other.\<close>

fun run_ticks :: "IdleShutdownConfig \<Rightarrow> tick_input list \<Rightarrow> idle_manager \<Rightarrow> idle_effect list \<times> idle_manager" where
  "run_ticks cfg [] m = ([], m)"
| "run_ticks cfg (i # is) m =
     (let (fx, m1) = tick cfg i m; (fx', m2) = run_ticks cfg is m1 in (fx @ fx', m2))"


section \<open>When nothing blocks\<close>

lemma session_block_clear:
  "session_block held ss = [] \<longleftrightarrow> (\<forall>a\<in>set ss. (as_Status a = ''idle'' \<or> as_Status a = ''done'')
     \<and> as_PaneID a \<notin> set held \<and> as_AgentName a \<notin> set held \<and> as_Label a \<notin> set held)"
  by (induction ss) auto

text \<open>
  C26: the probes clear a power-off only on positive evidence. Nothing blocks exactly when every probe
  answered, every session is idle or done, no job is leased, no process is a CI runner, no user is
  logged in, and the keep-awake marker is absent. So a failed probe, and a session status this build
  does not know, keep the machine on.
\<close>

theorem blockedReason_clear:
  "blockedReason p = [] \<longleftrightarrow>
     (\<exists>sessions procs users. pr_sessions p = Some sessions \<and> pr_jobLeases p = Some [] \<and> pr_procs p = Some procs
        \<and> pr_interactive p = Some users \<and> (\<forall>a\<in>set sessions. as_Status a = ''idle'' \<or> as_Status a = ''done'')
        \<and> (\<forall>line\<in>set procs. \<not> idleShutdownRunnerProc line) \<and> users \<le> 0 \<and> \<not> pr_keepAwake p)"
  by (auto simp: blockedReason_def session_block_clear held_names_def list_ex_iff split: option.splits if_splits)

definition quiet_probes :: probes where
  "quiet_probes = \<lparr>pr_sessions = Some [\<lparr>as_Status = ''idle'', as_PaneID = ''w1:p1'', as_AgentName = ''a'', as_Label = []\<rparr>],
     pr_jobLeases = Some [], pr_procs = Some [], pr_interactive = Some 0, pr_keepAwake = False\<rparr>"

lemma quiet_probes_clear: "blockedReason quiet_probes = []"
  by (simp add: blockedReason_def quiet_probes_def held_names_def)

theorem blockedReason_clear_witness:
  "blockedReason quiet_probes = [] \<and> blockedReason (quiet_probes\<lparr>pr_interactive := None\<rparr>) \<noteq> []"
  using blockedReason_clear [of quiet_probes] blockedReason_clear [of "quiet_probes\<lparr>pr_interactive := None\<rparr>"]
  by (simp add: quiet_probes_def)


section \<open>Continuous idleness\<close>

definition clear_tick :: "tick_input \<Rightarrow> bool" where
  "clear_tick i \<longleftrightarrow> blockedReason (ti_probes i) = []"

text \<open>
  Since when a history of ticks is quiet: a clear tick, at its time or, when its command failed, at the
  time after the command, and only clear ticks from there on.
\<close>

definition quiet_since :: "time \<Rightarrow> tick_input list \<Rightarrow> bool" where
  "quiet_since t is \<longleftrightarrow> (\<exists>pre j post. is = pre @ j # post \<and> clear_tick j \<and> (\<forall>k\<in>set post. clear_tick k)
     \<and> (t = ti_now j \<or> t = ti_now_after j \<and> \<not> ti_shutdown_ok j))"

definition window_ok :: "tick_input list \<Rightarrow> idle_manager \<Rightarrow> bool" where
  "window_ok is m \<longleftrightarrow> committed m \<or> (\<forall>t. idleSince m = Some t \<longrightarrow> quiet_since t is)"

lemma quiet_since_snoc: "quiet_since t is \<Longrightarrow> clear_tick i \<Longrightarrow> quiet_since t (is @ [i])"
  unfolding quiet_since_def by (elim exE conjE) (rule exI, rule exI, rule_tac x = "post @ [i]" in exI, auto)

lemma quiet_since_start: "clear_tick i \<Longrightarrow> t = ti_now i \<or> t = ti_now_after i \<and> \<not> ti_shutdown_ok i \<Longrightarrow> quiet_since t (is @ [i])"
  unfolding quiet_since_def by (rule exI [of _ "is"], rule exI [of _ i], rule exI [of _ "[]"]) auto

lemma tick_window: "window_ok is m \<Longrightarrow> window_ok (is @ [i]) (snd (tick cfg i m))"
  unfolding window_ok_def tick_def decide_def Let_def
  by (auto simp: clear_tick_def quiet_since_snoc quiet_since_start split: option.splits if_splits)

lemma run_ticks_snoc: "snd (run_ticks cfg (is @ [i]) m) = snd (tick cfg i (snd (run_ticks cfg is m)))"
  by (induction "is" arbitrary: m) (simp_all add: split_beta)

lemma run_window: "window_ok is (snd (run_ticks cfg is newIdleShutdownManager))"
proof (induction "is" rule: rev_induct)
  case Nil
  then show ?case by (simp add: window_ok_def newIdleShutdownManager_def)
next
  case (snoc i "is")
  then show ?case unfolding run_ticks_snoc by (rule tick_window)
qed

lemma no_power_off_notice: "PowerOff \<notin> set (notice_effects cfg i n)"
  by (simp add: notice_effects_def Let_def)

lemma tick_power_off:
  assumes "tick cfg i m = (fx, m')" "PowerOff \<in> set fx"
  shows "\<exists>since. \<not> committed m \<and> idleSince m = Some since \<and> clear_tick i \<and> cfg_After cfg \<le> time_sub (ti_now i) since
     \<and> blockedReason (ti_probes_after i) = [] \<and> (ti_shutdown_ok i \<longrightarrow> committed m')"
  using assms no_power_off_notice [of cfg i]
  by (auto simp: tick_def decide_def Let_def clear_tick_def split: if_splits option.splits)

lemma committed_run: "committed m \<Longrightarrow> run_ticks cfg is m = ([], m)"
  by (induction "is") (simp_all add: tick_def Let_def)

text \<open>
  C25: the machine is powered off only after it was idle without a break. When a tick issues the
  command, the probes were clear at that tick and again after the notice had settled; there is an
  earlier tick from which every tick was clear, and the configured time has passed since then. If the
  command succeeded, no later tick does anything: neither the notice nor the command is repeated.
\<close>

theorem power_off_after_idle:
  assumes "m = snd (run_ticks cfg is newIdleShutdownManager)" "tick cfg i m = (fx, m')" "PowerOff \<in> set fx"
  shows "clear_tick i \<and> blockedReason (ti_probes_after i) = []
     \<and> (\<exists>since. quiet_since since is \<and> cfg_After cfg \<le> time_sub (ti_now i) since)
     \<and> (ti_shutdown_ok i \<longrightarrow> (\<forall>later. run_ticks cfg later m' = ([], m')))"
proof -
  obtain since where s: "\<not> committed m" "idleSince m = Some since" "clear_tick i" "cfg_After cfg \<le> time_sub (ti_now i) since"
    "blockedReason (ti_probes_after i) = []" "ti_shutdown_ok i \<longrightarrow> committed m'"
    using tick_power_off [OF assms(2,3)] by blast
  have "quiet_since since is" using run_window [of "is" cfg] s(1,2) by (simp add: assms(1) window_ok_def)
  then show ?thesis using s committed_run by blast
qed

definition quiet_tick :: "time \<Rightarrow> tick_input" where
  "quiet_tick t = \<lparr>ti_now = t, ti_probes = quiet_probes, ti_write1 = True, ti_write2 = True, ti_enqueue = True, ti_cancelled = False,
     ti_probes_after = quiet_probes, ti_shutdown_ok = True, ti_now_after = t\<rparr>"

definition sample_cfg :: IdleShutdownConfig where
  "sample_cfg = idle_defaults \<lparr>cfg_After = 10, cfg_PollInterval = 0, cfg_Lane = [], cfg_NotifySettle = 0\<rparr>"

theorem power_off_after_idle_witness:
  "\<exists>fx m'. tick sample_cfg (quiet_tick 15) (snd (run_ticks sample_cfg [quiet_tick 5] newIdleShutdownManager)) = (fx, m')
     \<and> PowerOff \<in> set fx \<and> (\<exists>since. quiet_since since [quiet_tick 5] \<and> 10 \<le> time_sub 15 since)"
proof -
  let ?m = "snd (run_ticks sample_cfg [quiet_tick 5] newIdleShutdownManager)"
  obtain fx m' where t: "tick sample_cfg (quiet_tick 15) ?m = (fx, m')" "PowerOff \<in> set fx"
    by (simp add: tick_def decide_def Let_def quiet_tick_def quiet_probes_clear newIdleShutdownManager_def time_sub_def
        sample_cfg_def idle_defaults_def max_int64_def min_int64_def)
  have "cfg_After sample_cfg = 10" "ti_now (quiet_tick 15) = 15" by (simp_all add: sample_cfg_def idle_defaults_def quiet_tick_def)
  then show ?thesis using power_off_after_idle [OF refl t] t by auto
qed

end
