(* ===== verification/Burst.thy ===== *)
theory Burst
  imports Complex_Main Go_Time
begin

text \<open>
  Burst capacity: the hub wakes a target machine when a source machine is under pressure and lets it
  go when it has been idle (\<open>src/burst.go\<close>), and an operator can hold the target awake for a while
  (\<open>src/hub_burst_ondemand.go\<close>). The policy file is an input: what a read of it would decode to. A
  measured load is a finite floating-point number, which is a rational; it is only compared. The
  lemmas show when a wake-up and when a release is decided along a sequence of heartbeats.
\<close>

section \<open>The policy\<close>

record BurstPolicy =
  bp_SourceMachine :: string
  bp_SwapGB :: rat
  bp_Load5 :: rat
  bp_Consecutive :: int
  bp_WakeVia :: string
  bp_WakeMAC :: string
  bp_TargetMachine :: string
  bp_IdleMinutes :: int
  bp_CooldownMinutes :: int

definition lower_or_digit :: "char \<Rightarrow> bool" where
  "lower_or_digit c \<longleftrightarrow> is_digit c \<or> (97 \<le> (of_char c :: nat) \<and> (of_char c :: nat) \<le> 122)"

text \<open>\<^verbatim>\<open>^[a-z0-9][a-z0-9._-]{0,62}$\<close>\<close>

definition machineIDPattern :: "string \<Rightarrow> bool" where
  "machineIDPattern s \<longleftrightarrow> s \<noteq> [] \<and> length s \<le> 63 \<and> lower_or_digit (hd s)
     \<and> list_all (\<lambda>c. lower_or_digit c \<or> c \<in> set ''._-'') (tl s)"

definition hubOperatorMachineID :: string where
  "hubOperatorMachineID = ''operator''"

text \<open>\<open>net.ParseMAC\<close> with a result of six bytes: pairs of hex digits with \<open>:\<close> or \<open>-\<close>, or groups of four with a dot.\<close>

definition hex_digit :: "char \<Rightarrow> bool" where
  "hex_digit c \<longleftrightarrow> is_digit c \<or> (97 \<le> (of_char c :: nat) \<and> (of_char c :: nat) \<le> 102)
     \<or> (65 \<le> (of_char c :: nat) \<and> (of_char c :: nat) \<le> 70)"

definition mac48 :: "string \<Rightarrow> bool" where
  "mac48 s \<longleftrightarrow>
     (length s = 17 \<and> (s ! 2 = CHR '':'' \<or> s ! 2 = CHR ''-'')
        \<and> list_all (\<lambda>i. if i mod 3 = 2 then s ! i = s ! 2 else hex_digit (s ! i)) [0..<17])
     \<or> (length s = 14 \<and> list_all (\<lambda>i. if i mod 5 = 4 then s ! i = CHR ''.'' else hex_digit (s ! i)) [0..<14])"

definition policy_valid :: "BurstPolicy \<Rightarrow> bool" where
  "policy_valid p \<longleftrightarrow>
     \<not> (\<not> machineIDPattern (bp_SourceMachine p) \<or> \<not> machineIDPattern (bp_WakeVia p) \<or> \<not> machineIDPattern (bp_TargetMachine p)
        \<or> bp_SourceMachine p = hubOperatorMachineID \<or> bp_WakeVia p = hubOperatorMachineID \<or> bp_TargetMachine p = hubOperatorMachineID
        \<or> bp_SwapGB p \<le> 0 \<or> bp_Load5 p \<le> 0 \<or> bp_Consecutive p < 1 \<or> bp_Consecutive p > 10000
        \<or> bp_IdleMinutes p < 1 \<or> bp_IdleMinutes p > 10080 \<or> bp_CooldownMinutes p < 0 \<or> bp_CooldownMinutes p > 10080)
     \<and> mac48 (bp_WakeMAC p)"

text \<open>A file: whether it is a regular one, what its bytes decode to, and its modification time.\<close>

record policy_file =
  pf_regular :: bool
  pf_decoded :: "BurstPolicy option"
  pf_modtime :: time

definition ParseBurstPolicy :: "BurstPolicy option \<Rightarrow> string + BurstPolicy" where
  "ParseBurstPolicy decoded =
     (case decoded of
        None \<Rightarrow> Inl ''burst policy is invalid''
      | Some p \<Rightarrow> if policy_valid p then Inr p else Inl ''burst policy is invalid'')"

definition LoadBurstPolicy :: "string \<Rightarrow> policy_file option \<Rightarrow> string + (BurstPolicy \<times> time)" where
  "LoadBurstPolicy path file =
     (if path = [] then Inl ''burst policy path is required''
      else case file of
        None \<Rightarrow> Inl ''burst policy must be a regular file''
      | Some f \<Rightarrow>
          if \<not> pf_regular f then Inl ''burst policy must be a regular file''
          else case ParseBurstPolicy (pf_decoded f) of Inl e \<Rightarrow> Inl e | Inr p \<Rightarrow> Inr (p, pf_modtime f))"


section \<open>Heartbeats\<close>

record HubHostLoad =
  hl_Load5 :: rat
  hl_SwapUsedGB :: rat
  hl_WorkerProcs :: int

record hubBurstState =
  SourceRuns :: int
  IdleRuns :: int
  IdleSince :: "time option"
  LastUp :: "time option"
  LastDown :: "time option"
  UpCompleted :: bool
  LastLoad :: HubHostLoad

record hubBurstHold =
  bh_Target :: string
  bh_Reason :: string
  bh_ExpiresAt :: time
  bh_Status :: string

record hub_burst =
  burstPolicyPath :: string
  burstPolicyFile :: "policy_file option"
  burstPolicy :: BurstPolicy
  burstPolicyModTime :: time
  burstState :: hubBurstState
  holds :: "(string \<times> hubBurstHold) list"

datatype hubBurstEvent = BurstUp string time string | BurstDown string time

definition reloadBurstPolicyLocked :: "hub_burst \<Rightarrow> hub_burst" where
  "reloadBurstPolicyLocked h =
     (if burstPolicyPath h = [] then h
      else case LoadBurstPolicy (burstPolicyPath h) (burstPolicyFile h) of
        Inl _ \<Rightarrow> h
      | Inr (p, t) \<Rightarrow> h\<lparr>burstPolicy := p, burstPolicyModTime := t\<rparr>)"

definition sweep_hold :: "time \<Rightarrow> hubBurstHold \<Rightarrow> hubBurstHold" where
  "sweep_hold now x = (if bh_Status x = ''active'' \<and> \<not> now < bh_ExpiresAt x then x\<lparr>bh_Status := ''expired''\<rparr> else x)"

definition sweepBurstHoldsLocked :: "time \<Rightarrow> hub_burst \<Rightarrow> hub_burst" where
  "sweepBurstHoldsLocked now h =
     h\<lparr>holds := filter (\<lambda>x. bh_Status (snd x) \<noteq> ''expired'') (map (\<lambda>x. (fst x, sweep_hold now (snd x))) (holds h))\<rparr>"

definition markBurstHoldsLostLocked :: "string \<Rightarrow> hub_burst \<Rightarrow> hub_burst" where
  "markBurstHoldsLostLocked target h =
     h\<lparr>holds := map (\<lambda>x. if bh_Target (snd x) = target \<and> bh_Status (snd x) = ''active''
        then (fst x, (snd x)\<lparr>bh_Status := ''lost''\<rparr>) else x) (holds h)\<rparr>"

definition active_hold :: "string \<Rightarrow> hub_burst \<Rightarrow> bool" where
  "active_hold target h = list_ex (\<lambda>x. bh_Target (snd x) = target \<and> bh_Status (snd x) = ''active'') (holds h)"

definition holdsActiveLocked :: "string \<Rightarrow> time \<Rightarrow> hub_burst \<Rightarrow> bool \<times> hub_burst" where
  "holdsActiveLocked target now h = (let h1 = sweepBurstHoldsLocked now h in (active_hold target h1, h1))"

definition cooled :: "time \<Rightarrow> time option \<Rightarrow> int \<Rightarrow> bool" where
  "cooled now before minutes = (case before of None \<Rightarrow> True | Some t \<Rightarrow> time_sub now t \<ge> minutes * minute)"

definition over_pressure :: "BurstPolicy \<Rightarrow> HubHostLoad \<Rightarrow> bool" where
  "over_pressure p l \<longleftrightarrow> hl_SwapUsedGB l \<ge> bp_SwapGB p \<or> hl_Load5 l \<ge> bp_Load5 p"

definition observe_source :: "time \<Rightarrow> HubHostLoad \<Rightarrow> BurstPolicy \<Rightarrow> hubBurstState \<Rightarrow> hubBurstEvent list \<times> hubBurstState" where
  "observe_source now load p st =
     (let st1 = st\<lparr>LastLoad := load, SourceRuns := (if over_pressure p load then SourceRuns st + 1 else 0)\<rparr>
      in if SourceRuns st1 \<ge> bp_Consecutive p \<and> cooled now (LastUp st1) (bp_CooldownMinutes p)
         then ([BurstUp (bp_TargetMachine p) now (bp_WakeMAC p)], st1\<lparr>LastUp := Some now, UpCompleted := False\<rparr>)
         else ([], st1))"

definition observe_target :: "time \<Rightarrow> HubHostLoad \<Rightarrow> BurstPolicy \<Rightarrow> bool \<Rightarrow> hubBurstState \<Rightarrow> hubBurstEvent list \<times> hubBurstState" where
  "observe_target now load p held st =
     (let st1 = st\<lparr>LastLoad := load\<rparr>
      in if held then ([], st1\<lparr>IdleRuns := 0, IdleSince := None\<rparr>)
         else let st2 = (if hl_WorkerProcs load = 0
                then st1\<lparr>IdleSince := (if IdleRuns st1 = 0 then Some now else IdleSince st1), IdleRuns := IdleRuns st1 + 1\<rparr>
                else st1\<lparr>IdleRuns := 0, IdleSince := None\<rparr>)
              in (case IdleSince st2 of
                    None \<Rightarrow> ([], st2)
                  | Some since \<Rightarrow>
                      if hl_WorkerProcs load = 0 \<and> time_sub now since \<ge> bp_IdleMinutes p * minute
                         \<and> cooled now (LastDown st2) (bp_CooldownMinutes p)
                      then ([BurstDown (bp_TargetMachine p) now], st2\<lparr>LastDown := Some now\<rparr>)
                      else ([], st2)))"

text \<open>A wake-up ends the observation; only otherwise is the machine looked at as a target.\<close>

definition observeBurstLocked :: "time \<Rightarrow> string \<Rightarrow> HubHostLoad \<Rightarrow> hub_burst \<Rightarrow> hubBurstEvent list \<times> hub_burst" where
  "observeBurstLocked now machineID load h0 =
     (if burstPolicyPath h0 = [] then ([], h0)
      else let h = reloadBurstPolicyLocked h0; p = burstPolicy h;
               (ups, st) = (if machineID = bp_SourceMachine p then observe_source now load p (burstState h) else ([], burstState h));
               h1 = h\<lparr>burstState := st\<rparr>
           in if ups \<noteq> [] then (ups, h1)
              else if machineID = bp_TargetMachine p
              then let (held, h2) = holdsActiveLocked machineID now h1;
                       (downs, st2) = observe_target now load p held (burstState h2)
                   in (downs, h2\<lparr>burstState := st2\<rparr>)
              else ([], h1))"


section \<open>Holds on demand\<close>

definition validBurstHold :: "string \<Rightarrow> int \<Rightarrow> bool" where
  "validBurstHold reason hold \<longleftrightarrow> hold > 0 \<and> hold \<le> 24 * 60 * minute \<and> length reason > 0 \<and> length reason \<le> 256
     \<and> \<not> list_ex (\<lambda>c. c = CHR 0x0D \<or> c = CHR 0x0A \<or> c = CHR 0x00) reason"

definition put_hold :: "string \<Rightarrow> hubBurstHold \<Rightarrow> (string \<times> hubBurstHold) list \<Rightarrow> (string \<times> hubBurstHold) list" where
  "put_hold i x hs = filter (\<lambda>y. fst y \<noteq> i) hs @ [(i, x)]"

text \<open>
  The checks of \<open>requestBurst\<close> before it waits: the reason of a refusal, or the wake-up. Whether the
  machine to wake through is connected is an input.
\<close>

definition request_wake :: "string \<Rightarrow> string \<Rightarrow> int \<Rightarrow> time \<Rightarrow> bool \<Rightarrow> hub_burst \<Rightarrow> (string + hubBurstEvent) \<times> hub_burst" where
  "request_wake target reason hold now wake_connected h0 =
     (if \<not> machineIDPattern target \<or> \<not> validBurstHold reason hold then (Inl ''invalid_request'', h0)
      else let h = reloadBurstPolicyLocked h0; p = burstPolicy h; st = burstState h
           in if burstPolicyPath h = [] \<or> bp_TargetMachine p \<noteq> target then (Inl ''target_unavailable'', h)
              else if \<not> wake_connected then (Inl ''wake_via_unavailable'', h)
              else if bp_CooldownMinutes p > 0 \<and> LastUp st \<noteq> None \<and> \<not> cooled now (LastUp st) (bp_CooldownMinutes p)
              then (Inl ''cooldown_active'', h)
              else (Inr (BurstUp target now (bp_WakeMAC p)), h\<lparr>burstState := st\<lparr>LastUp := Some now, UpCompleted := False\<rparr>\<rparr>))"

text \<open>The waiting loop: whether the target is connected at each poll, and the clock there.\<close>

fun request_wait :: "string \<Rightarrow> string \<Rightarrow> int \<Rightarrow> string \<Rightarrow> (bool \<times> time) list \<Rightarrow> hub_burst \<Rightarrow> (string + hubBurstHold) \<times> hub_burst" where
  "request_wait target reason hold i [] h = (Inl ''target_timeout'', h)"
| "request_wait target reason hold i ((up, now) # polls) h =
     (if up
      then let lease = \<lparr>bh_Target = target, bh_Reason = reason, bh_ExpiresAt = now + hold, bh_Status = ''active''\<rparr>
           in (Inr lease, h\<lparr>holds := put_hold i lease (holds h)\<rparr>)
      else request_wait target reason hold i polls h)"

definition requestBurst ::
  "string \<Rightarrow> string \<Rightarrow> int \<Rightarrow> string \<Rightarrow> time \<Rightarrow> bool \<Rightarrow> (bool \<times> time) list \<Rightarrow> hub_burst \<Rightarrow> (string + hubBurstHold) \<times> hub_burst" where
  "requestBurst target reason hold i now wake_connected polls h =
     (case request_wake target reason hold now wake_connected h of
        (Inl e, h1) \<Rightarrow> (Inl e, h1)
      | (Inr _, h1) \<Rightarrow> request_wait target reason hold i polls h1)"

definition release_hold :: "string \<Rightarrow> hub_burst \<Rightarrow> hubBurstHold option \<times> hub_burst" where
  "release_hold i h =
     (if \<not> has_prefix i ''hold-'' then (None, h)
      else case map_of (holds h) i of
        None \<Rightarrow> (None, h)
      | Some x \<Rightarrow>
          let x1 = (if bh_Status x = ''active'' then x\<lparr>bh_Status := ''released''\<rparr> else x)
          in (Some x1, h\<lparr>holds := map (\<lambda>y. if fst y = i then (i, x1) else y) (holds h)\<rparr>))"

text \<open>\<open>burstHolds\<close>: the holds in the order of their ids, after a sweep.\<close>

definition burstHolds :: "time \<Rightarrow> hub_burst \<Rightarrow> (string \<times> hubBurstHold) list \<times> hub_burst" where
  "burstHolds now h = (let h1 = sweepBurstHoldsLocked now h in (sort_key fst (holds h1), h1))"


section \<open>What a release of the target needs\<close>

lemma sweep_active:
  "active_hold target (sweepBurstHoldsLocked now h) \<longleftrightarrow>
     (\<exists>x\<in>set (holds h). bh_Target (snd x) = target \<and> bh_Status (snd x) = ''active'' \<and> now < bh_ExpiresAt (snd x))"
  by (force simp: active_hold_def sweepBurstHoldsLocked_def sweep_hold_def list_ex_iff split: if_splits)

lemma reload_keeps [simp]:
  "holds (reloadBurstPolicyLocked h) = holds h" "burstState (reloadBurstPolicyLocked h) = burstState h"
  "burstPolicyPath (reloadBurstPolicyLocked h) = burstPolicyPath h" "burstPolicyFile (reloadBurstPolicyLocked h) = burstPolicyFile h"
  by (auto simp: reloadBurstPolicyLocked_def split: sum.splits)

lemma sweep_keeps [simp]:
  "burstState (sweepBurstHoldsLocked now h) = burstState h" "burstPolicy (sweepBurstHoldsLocked now h) = burstPolicy h"
  "burstPolicyPath (sweepBurstHoldsLocked now h) = burstPolicyPath h" "burstPolicyFile (sweepBurstHoldsLocked now h) = burstPolicyFile h"
  by (simp_all add: sweepBurstHoldsLocked_def)

lemma observe_source_up: "fst (observe_source now load p st) = [] \<or> fst (observe_source now load p st) = [BurstUp (bp_TargetMachine p) now (bp_WakeMAC p)]"
  by (auto simp: observe_source_def Let_def)

lemma observe_target_down:
  assumes "observe_target now load p held st = (ev, st')" "ev \<noteq> []"
  shows "ev = [BurstDown (bp_TargetMachine p) now]" "\<not> held" "hl_WorkerProcs load = 0"
    "\<exists>since. IdleSince st' = Some since \<and> time_sub now since \<ge> bp_IdleMinutes p * minute" "cooled now (LastDown st) (bp_CooldownMinutes p)"
  using assms by (auto simp: observe_target_def Let_def split: if_splits option.splits)



definition sample_policy :: BurstPolicy where
  "sample_policy = \<lparr>bp_SourceMachine = ''mini'', bp_SwapGB = 8, bp_Load5 = 12, bp_Consecutive = 2, bp_WakeVia = ''nas'',
     bp_WakeMAC = ''00:11:22:33:44:55'', bp_TargetMachine = ''tower'', bp_IdleMinutes = 1, bp_CooldownMinutes = 5\<rparr>"

definition no_load :: HubHostLoad where
  "no_load = \<lparr>hl_Load5 = 0, hl_SwapUsedGB = 0, hl_WorkerProcs = 0\<rparr>"

definition sample_hub :: hub_burst where
  "sample_hub = \<lparr>burstPolicyPath = ''burst.json'',
     burstPolicyFile = Some \<lparr>pf_regular = True, pf_decoded = Some sample_policy, pf_modtime = 0\<rparr>,
     burstPolicy = sample_policy, burstPolicyModTime = 0,
     burstState = \<lparr>SourceRuns = 0, IdleRuns = 0, IdleSince = None, LastUp = None, LastDown = None, UpCompleted = False, LastLoad = no_load\<rparr>,
     holds = [(''hold-1'', \<lparr>bh_Target = ''tower'', bh_Reason = ''demo'', bh_ExpiresAt = 5 * second, bh_Status = ''active''\<rparr>)]\<rparr>"

lemma sample_policy_valid: "policy_valid sample_policy"
  by (simp add: policy_valid_def sample_policy_def machineIDPattern_def lower_or_digit_def is_digit_def hubOperatorMachineID_def
      mac48_def hex_digit_def upt_rec)

lemma sample_load: "LoadBurstPolicy (burstPolicyPath sample_hub) (burstPolicyFile sample_hub) = Inr (sample_policy, 0)"
  by (simp add: LoadBurstPolicy_def sample_hub_def ParseBurstPolicy_def sample_policy_valid)

lemma sample_reload [simp]: "reloadBurstPolicyLocked sample_hub = sample_hub"
  using sample_load by (simp add: reloadBurstPolicyLocked_def) (simp add: sample_hub_def)

definition idle_hub :: hub_burst where
  "idle_hub = sample_hub\<lparr>burstState := (burstState sample_hub)\<lparr>IdleRuns := 1, IdleSince := Some (10 * second)\<rparr>\<rparr>"



section \<open>What a wake-up needs\<close>

record report =
  rp_now :: time
  rp_machine :: string
  rp_load :: HubHostLoad

fun observe_all :: "report list \<Rightarrow> hub_burst \<Rightarrow> hub_burst" where
  "observe_all [] h = h"
| "observe_all (r # rs) h = observe_all rs (snd (observeBurstLocked (rp_now r) (rp_machine r) (rp_load r) h))"

definition source_loads :: "BurstPolicy \<Rightarrow> report list \<Rightarrow> HubHostLoad list" where
  "source_loads p rs = map rp_load (filter (\<lambda>r. rp_machine r = bp_SourceMachine p) rs)"

text \<open>Under a policy file that does not change, the counter is the length of the current run of pressure.\<close>

definition pressure_run :: "BurstPolicy \<Rightarrow> time \<Rightarrow> HubHostLoad list \<Rightarrow> hub_burst \<Rightarrow> bool" where
  "pressure_run p tm loads h \<longleftrightarrow> LoadBurstPolicy (burstPolicyPath h) (burstPolicyFile h) = Inr (p, tm)
     \<and> SourceRuns (burstState h) = int (length (takeWhile (over_pressure p) (rev loads)))"

lemma load_path: "LoadBurstPolicy path f = Inr x \<Longrightarrow> path \<noteq> []"
  by (auto simp: LoadBurstPolicy_def)

lemma reload_policy: "LoadBurstPolicy (burstPolicyPath h) (burstPolicyFile h) = Inr (p, tm) \<Longrightarrow> burstPolicy (reloadBurstPolicyLocked h) = p"
  using load_path by (auto simp: reloadBurstPolicyLocked_def)

lemma observe_target_runs: "SourceRuns (snd (observe_target now load p held st)) = SourceRuns st"
  by (auto simp: observe_target_def Let_def split: option.splits)

lemma observe_cases:
  assumes "burstPolicyPath h \<noteq> []" "burstPolicy (reloadBurstPolicyLocked h) = p"
    and "src = (if machine = bp_SourceMachine p then observe_source now load p (burstState h) else ([], burstState h))"
    and "h1 = (reloadBurstPolicyLocked h)\<lparr>burstState := snd src\<rparr>" "h2 = sweepBurstHoldsLocked now h1"
    and "tgt = observe_target now load p (active_hold machine h2) (snd src)"
  shows "observeBurstLocked now machine load h =
     (if fst src \<noteq> [] then (fst src, h1) else if machine = bp_TargetMachine p then (fst tgt, h2\<lparr>burstState := snd tgt\<rparr>) else ([], h1))"
  using assms(1,2) unfolding observeBurstLocked_def by (simp add: Let_def split_beta holdsActiveLocked_def assms(3-6))

lemma observe_runs:
  assumes "pressure_run p tm loads h" "observeBurstLocked now machine load h = (ev, h')"
  shows "pressure_run p tm (loads @ (if machine = bp_SourceMachine p then [load] else [])) h'"
proof -
  let ?h = "reloadBurstPolicyLocked h"
  have l: "LoadBurstPolicy (burstPolicyPath h) (burstPolicyFile h) = Inr (p, tm)" using assms(1) by (simp add: pressure_run_def)
  note p = reload_policy [OF l] load_path [OF l]
  define src where "src = (if machine = bp_SourceMachine p then observe_source now load p (burstState h) else ([], burstState h))"
  have st: "SourceRuns (snd src) = (if machine = bp_SourceMachine p then if over_pressure p load then SourceRuns (burstState h) + 1 else 0 else SourceRuns (burstState h))"
    by (simp add: src_def observe_source_def Let_def)
  have runs: "SourceRuns (burstState h') = SourceRuns (snd src)" "burstPolicyPath h' = burstPolicyPath h" "burstPolicyFile h' = burstPolicyFile h"
    using assms(2) observe_cases [OF p(2,1) src_def refl refl refl] observe_target_runs
    by (auto simp: sweepBurstHoldsLocked_def split: if_splits)
  show ?thesis using assms(1) runs st by (auto simp: pressure_run_def)
qed

lemma observe_all_runs:
  "pressure_run p tm loads h \<Longrightarrow> pressure_run p tm (loads @ source_loads p rs) (observe_all rs h)"
proof (induction rs arbitrary: h loads)
  case Nil
  then show ?case by (simp add: source_loads_def)
next
  case (Cons r rs)
  obtain ev h' where o: "observeBurstLocked (rp_now r) (rp_machine r) (rp_load r) h = (ev, h')" by fastforce
  from Cons.IH [OF observe_runs [OF Cons.prems o]] o show ?case by (auto simp: source_loads_def split: if_splits)
qed

lemma takeWhile_take: "n \<le> length (takeWhile P xs) \<Longrightarrow> n \<le> length xs \<and> list_all P (take n xs)"
proof -
  assume n: "n \<le> length (takeWhile P xs)"
  then have "take n xs = take n (takeWhile P xs)" by (metis append_Nil2 diff_is_0_eq take0 take_append takeWhile_dropWhile_id)
  then show ?thesis using n length_takeWhile_le [of P xs] by (auto simp: list_all_iff dest!: in_set_takeD set_takeWhileD)
qed

text \<open>
  C28: a machine is only woken under lasting pressure. Along any sequence of heartbeats under one
  policy, when a heartbeat decides a wake-up, it came from the source machine, and it and the last
  reports of the source before it, as many in a row as the policy asks for, were all at or above a
  threshold; and the last wake-up is older than the cooldown.
\<close>

theorem burst_up_after_pressure:
  assumes "LoadBurstPolicy (burstPolicyPath h) (burstPolicyFile h) = Inr (p, tm)" "SourceRuns (burstState h) = 0"
    and "h1 = observe_all rs h" "observeBurstLocked now machine load h1 = (events, h2)" "BurstUp target t mac \<in> set events"
    and "recent = take (nat (bp_Consecutive p)) (load # rev (source_loads p rs))"
  shows "machine = bp_SourceMachine p \<and> target = bp_TargetMachine p \<and> t = now \<and> mac = bp_WakeMAC p
     \<and> length recent = nat (bp_Consecutive p) \<and> (\<forall>l\<in>set recent. over_pressure p l)
     \<and> cooled now (LastUp (burstState h1)) (bp_CooldownMinutes p)"
proof -
  have start: "pressure_run p tm [] h" using assms(1,2) by (simp add: pressure_run_def)
  have run: "pressure_run p tm (source_loads p rs) h1" using observe_all_runs [OF start, of rs] by (simp add: assms(3))
  have l: "LoadBurstPolicy (burstPolicyPath h1) (burstPolicyFile h1) = Inr (p, tm)" using run by (simp add: pressure_run_def)
  note p = reload_policy [OF l] load_path [OF l]
  have no_down: "BurstUp target t mac \<notin> set (fst (observe_target n ld q held st))" for n ld q held st
    by (auto simp: observe_target_def Let_def split: option.splits)
  have src: "machine = bp_SourceMachine p" and ups: "BurstUp target t mac \<in> set (fst (observe_source now load p (burstState h1)))"
    using assms(4,5) observe_cases [OF p(2,1) refl refl refl refl, of now machine load] no_down by (auto split: if_splits)
  from ups have f: "target = bp_TargetMachine p" "t = now" "mac = bp_WakeMAC p" "cooled now (LastUp (burstState h1)) (bp_CooldownMinutes p)"
    "bp_Consecutive p \<le> (if over_pressure p load then SourceRuns (burstState h1) + 1 else 0)"
    by (auto simp: observe_source_def Let_def split: if_splits)
  have "nat (bp_Consecutive p) \<le> length (takeWhile (over_pressure p) (load # rev (source_loads p rs)))"
    using f(5) run by (auto simp: pressure_run_def split: if_splits)
  from takeWhile_take [OF this] show ?thesis using f src by (auto simp: assms(6) list_all_iff)
qed


definition busy_load :: HubHostLoad where
  "busy_load = \<lparr>hl_Load5 = 20, hl_SwapUsedGB = 0, hl_WorkerProcs = 3\<rparr>"

theorem burst_up_after_pressure_witness:
  "\<exists>h2. observeBurstLocked (20 * second) ''mini'' busy_load
      (observe_all [\<lparr>rp_now = 10 * second, rp_machine = ''mini'', rp_load = busy_load\<rparr>] sample_hub)
      = ([BurstUp ''tower'' (20 * second) ''00:11:22:33:44:55''], h2)
     \<and> (\<forall>l\<in>set (take 2 [busy_load, busy_load]). over_pressure sample_policy l)"
proof -
  let ?r = "\<lparr>rp_now = 10 * second, rp_machine = ''mini'', rp_load = busy_load\<rparr>"
  have p: "bp_SourceMachine sample_policy = ''mini''" "bp_TargetMachine sample_policy = ''tower''" "bp_Consecutive sample_policy = 2"
    "bp_WakeMAC sample_policy = ''00:11:22:33:44:55''" "over_pressure sample_policy busy_load"
    by (simp_all add: sample_policy_def over_pressure_def busy_load_def)
  have s: "SourceRuns (burstState sample_hub) = 0" by (simp add: sample_hub_def)
  have "\<exists>h2. observeBurstLocked (20 * second) ''mini'' busy_load (observe_all [?r] sample_hub)
      = ([BurstUp ''tower'' (20 * second) ''00:11:22:33:44:55''], h2)"
    by (simp add: observeBurstLocked_def reloadBurstPolicyLocked_def LoadBurstPolicy_def ParseBurstPolicy_def sample_policy_valid
        sample_hub_def observe_source_def p Let_def cooled_def)
  then obtain h2 where o: "observeBurstLocked (20 * second) ''mini'' busy_load (observe_all [?r] sample_hub)
      = ([BurstUp ''tower'' (20 * second) ''00:11:22:33:44:55''], h2)" by blast
  have "take 2 [busy_load, busy_load] = take (nat (bp_Consecutive sample_policy)) (busy_load # rev (source_loads sample_policy [?r]))"
    by (simp add: p source_loads_def)
  from burst_up_after_pressure [OF sample_load s refl o _ this] o show ?thesis by simp
qed

end
