(* ===== verification/Delivery_Policy.thy ===== *)
theory Delivery_Policy
  imports Go_Time Go_Text
begin

text \<open>
  The delivery policy of the hub: \<open>src/delivery_policy.go\<close>. It decides for every relayed event
  whether the receiving lane is interrupted or finds the event in its inbox, whether a design lane
  keeps it quiet, and whether it may be held while the lane works. The regular expressions the source
  fixes are modelled as what they match. A regular expression of the policy file is the predicate of
  the texts it matches. The YAML decoder, \<open>path.Match\<close> (\<open>glob\<close>) and \<open>time.ParseDuration\<close>
  (\<open>pd\<close>) are arguments of the definitions that use them.
\<close>

section \<open>Vocabulary\<close>

definition hubNotifyTypes :: "string list" where
  "hubNotifyTypes = [''decision'', ''order'', ''merged'', ''closed'', ''idle-wake'', ''progress'', ''deploy-approval'', ''watch-hold'',
     ''culprit-hold'', ''automation-failed'', ''ready'', ''blocked'', ''findings'', ''report'', ''ack'', ''info'']"

definition defaultNotifyTypeClasses :: "(string \<times> string) list" where
  "defaultNotifyTypeClasses =
     [(''merged'', ''inbox''), (''closed'', ''inbox''), (''idle-wake'', ''inbox''), (''progress'', ''inbox''),
      (''deploy-approval'', ''interrupt''), (''watch-hold'', ''interrupt''), (''culprit-hold'', ''interrupt''),
      (''automation-failed'', ''interrupt''), (''decision'', ''interrupt''), (''order'', ''interrupt''), (''ready'', ''interrupt''),
      (''blocked'', ''interrupt''), (''findings'', ''interrupt''), (''report'', ''inbox''), (''ack'', ''inbox''), (''info'', ''inbox'')]"

definition defaultInboxAgentSupport :: "(string \<times> string) list" where
  "defaultInboxAgentSupport = [(''claude'', ''supported'')]"

definition validNotifyType :: "string \<Rightarrow> bool" where
  "validNotifyType v \<longleftrightarrow> v = [] \<or> v \<in> set hubNotifyTypes"

definition validDeliveryClass :: "string \<Rightarrow> bool" where
  "validDeliveryClass c \<longleftrightarrow> c = [] \<or> c = ''interrupt'' \<or> c = ''inbox''"

definition emitRelayKinds :: "string list" where
  "emitRelayKinds = [''job.completed'', ''job.escalate'', ''job.joined'', ''job.lost'', ''job.revoked'', ''lane.event'']"

definition defaultDesignLanePattern :: string where "defaultDesignLanePattern = ''*-design''"
definition deskPolicyLane :: string where "deskPolicyLane = ''operator-desk''"
definition consultDoneMarker :: string where "consultDoneMarker = ''[consult-done]''"

definition is_alnum :: "char \<Rightarrow> bool" where
  "is_alnum c \<longleftrightarrow> is_digit c \<or> (65 \<le> byte c \<and> byte c \<le> 90) \<or> (97 \<le> byte c \<and> byte c \<le> 122)"

definition word_char :: "char \<Rightarrow> bool" where
  "word_char c \<longleftrightarrow> is_alnum c \<or> c = CHR ''_''"

text \<open>\<^verbatim>\<open>^[0-9A-Za-z_.-]{1,64}$\<close>, \<^verbatim>\<open>^[a-z0-9_-]{1,32}$\<close> and \<^verbatim>\<open>^chat-([0-9]+)(-[0-9a-f]{8})?$\<close>\<close>

definition hubAgentCLIPattern :: "string \<Rightarrow> bool" where
  "hubAgentCLIPattern s \<longleftrightarrow> 1 \<le> length s \<and> length s \<le> 64 \<and> list_all (\<lambda>c. word_char c \<or> c = CHR ''.'' \<or> c = CHR ''-'') s"

definition low_hex :: "char \<Rightarrow> bool" where
  "low_hex c \<longleftrightarrow> is_digit c \<or> (97 \<le> byte c \<and> byte c \<le> 102)"

definition chatRelayEventPattern :: "string \<Rightarrow> bool" where
  "chatRelayEventPattern s \<longleftrightarrow>
     take 5 s = ''chat-''
     \<and> (let digits = takeWhile is_digit (drop 5 s); rest = dropWhile is_digit (drop 5 s)
        in digits \<noteq> [] \<and> (rest = [] \<or> (length rest = 9 \<and> hd rest = CHR ''-'' \<and> list_all low_hex (tl rest))))"

text \<open>
  \<^verbatim>\<open>(?i)\bTAG\b\<close> on the runes of a text: a letter of the tag matches both its cases, and \<^verbatim>\<open>k\<close> and
  \<^verbatim>\<open>s\<close> also the two runes outside ASCII that fold to them; \<^verbatim>\<open>\b\<close> separates a word character of ASCII
  from anything else.
\<close>

definition fold_eq :: "char \<Rightarrow> string \<Rightarrow> bool" where
  "fold_eq c r \<longleftrightarrow>
     (case r of [d] \<Rightarrow> lower_char d = lower_char c | _ \<Rightarrow>
        (lower_char c = CHR ''k'' \<and> r = [char_of (0xE2 :: nat), char_of (0x84 :: nat), char_of (0xAA :: nat)])
        \<or> (lower_char c = CHR ''s'' \<and> r = [char_of (0xC5 :: nat), char_of (0xBF :: nat)]))"

definition word_rune :: "string \<Rightarrow> bool" where
  "word_rune r \<longleftrightarrow> (case r of [c] \<Rightarrow> word_char c | _ \<Rightarrow> False)"

fun starts_with :: "string \<Rightarrow> string list \<Rightarrow> bool" where
  "starts_with [] rs = True"
| "starts_with (c # cs) [] = False"
| "starts_with (c # cs) (r # rs) = (fold_eq c r \<and> starts_with cs rs)"

definition head_word :: "string list \<Rightarrow> bool" where
  "head_word rs = (case rs of [] \<Rightarrow> False | r # _ \<Rightarrow> word_rune r)"

text \<open>Is the tag at the head of the runes, after a rune that is (\<open>before\<close>) or is not a word character?\<close>

definition tag_here :: "string \<Rightarrow> bool \<Rightarrow> string list \<Rightarrow> bool" where
  "tag_here tag before rs \<longleftrightarrow>
     starts_with tag rs \<and> before \<noteq> head_word rs
     \<and> (let rest = drop (length tag) rs; left = (if tag = [] then before else word_rune (rs ! (length tag - 1)))
        in left \<noteq> head_word rest)"

fun tag_in :: "string \<Rightarrow> bool \<Rightarrow> string list \<Rightarrow> bool" where
  "tag_in tag before [] = tag_here tag before []"
| "tag_in tag before (r # rs) = (tag_here tag before (r # rs) \<or> tag_in tag (word_rune r) rs)"

definition has_tag :: "string \<Rightarrow> string \<Rightarrow> bool" where
  "has_tag tag text = tag_in tag False (runes text)"

definition mustActDeliveryTags :: "string \<Rightarrow> bool" where
  "mustActDeliveryTags text = list_ex (\<lambda>t. has_tag t text) [''BLOCKER'', ''READY'', ''ESC'', ''BOUNCE'', ''URGENT'', ''needs_decision'']"

definition neverHoldTags :: "string \<Rightarrow> bool" where
  "neverHoldTags text = list_ex (\<lambda>t. has_tag t text) [''BLOCKER'', ''URGENT'', ''ESC'', ''BOUNCE'', ''needs_decision'']"

text \<open>\<^verbatim>\<open>^[0-9A-Za-z_](?:.*[0-9A-Za-z_])?$\<close>; the dot matches no line feed.\<close>

definition deliveryTagShape :: "string \<Rightarrow> bool" where
  "deliveryTagShape t \<longleftrightarrow> t \<noteq> [] \<and> word_char (hd t) \<and> word_char (last t) \<and> CHR 0x0A \<notin> set t"


section \<open>The policy\<close>

record deliveryRule =
  dr_Match :: "(string \<Rightarrow> bool) option"
  dr_Tags :: "(string \<times> (string \<Rightarrow> bool)) list"
  dr_Kind :: string
  dr_Replay :: bool
  dr_Class :: string

record raw_rule =
  rr_Match :: string
  rr_Tags :: "string list"
  rr_Kind :: string
  rr_Replay :: bool
  rr_Class :: string

record deliveryHoldPolicy =
  hp_MaxHold :: string
  hp_HandoffBytes :: int
  hp_HandoffItems :: int

record inboxSummaryPolicy =
  is_DigestPrefix :: string
  is_MaxChars :: int

record 'r deliveryLanePolicy =
  lp_InboxSummary :: "inboxSummaryPolicy option"
  lp_IdlePromote :: "bool option"
  lp_HoldWhileWorking :: "deliveryHoldPolicy option"
  lp_Default :: string
  lp_Deadlines :: "(string \<times> string) list"
  lp_DigestWindow :: string
  lp_Types :: "(string \<times> string) list"
  lp_Rules :: "'r list"

record 'r deliveryPolicy =
  dp_Days :: int
  dp_PerLane :: int
  dp_DesignLanes :: "string list option"
  dp_Lane :: "'r deliveryLanePolicy"
  dp_Agents :: "(string \<times> string) list"
  dp_Lanes :: "(string \<times> 'r deliveryLanePolicy) list"
  dp_legacy :: bool

record event =
  ev_DeliveryClass :: string
  ev_NotifyType :: string
  ev_noDigest :: bool
  ev_EventID :: string
  ev_Text :: string
  ev_ReportLastLine :: string
  ev_Question :: string
  ev_Reason :: string
  ev_PR :: string
  ev_Replay :: bool

type_synonym policy = "deliveryRule deliveryPolicy"

text \<open>A lane without an entry reads as the zero policy.\<close>

definition zero_lane :: "'r deliveryLanePolicy" where
  "zero_lane = \<lparr>lp_InboxSummary = None, lp_IdlePromote = None, lp_HoldWhileWorking = None, lp_Default = [], lp_Deadlines = [],
     lp_DigestWindow = [], lp_Types = [], lp_Rules = []\<rparr>"

definition lane_policy :: "'r deliveryPolicy \<Rightarrow> string \<Rightarrow> 'r deliveryLanePolicy" where
  "lane_policy p lane = (case map_of (dp_Lanes p) lane of None \<Rightarrow> zero_lane | Some l \<Rightarrow> l)"

definition lookup :: "(string \<times> string) list \<Rightarrow> string \<Rightarrow> string" where
  "lookup m k = (case map_of m k of None \<Rightarrow> [] | Some v \<Rightarrow> v)"

definition deliveryEventText :: "event \<Rightarrow> string" where
  "deliveryEventText e = ev_Text e @ [CHR 0x0A] @ ev_ReportLastLine e @ [CHR 0x0A] @ ev_Question e @ [CHR 0x0A] @ ev_Reason e"


section \<open>Reading a policy\<close>

type_synonym compiler = "string \<Rightarrow> (string \<Rightarrow> bool) option"

fun compile_tags :: "compiler \<Rightarrow> string list \<Rightarrow> string + (string \<times> (string \<Rightarrow> bool)) list" where
  "compile_tags compile [] = Inr []"
| "compile_tags compile (t # ts) =
     (if \<not> deliveryTagShape t then Inl ''invalid delivery tag''
      else case compile t of None \<Rightarrow> Inl ''tag does not compile''
        | Some m \<Rightarrow> (case compile_tags compile ts of Inl e \<Rightarrow> Inl e | Inr ms \<Rightarrow> Inr ((t, m) # ms)))"

text \<open>\<open>compile\<close> is \<open>regexp.Compile\<close>; \<open>compile_tag\<close> the same of \<^verbatim>\<open>(?i)\b\<close>, the quoted tag and \<^verbatim>\<open>\b\<close>.\<close>

definition validate_rule :: "compiler \<Rightarrow> compiler \<Rightarrow> raw_rule \<Rightarrow> string + deliveryRule" where
  "validate_rule compile compile_tag r =
     (if rr_Class r = [] \<or> \<not> validDeliveryClass (rr_Class r)
         \<or> (rr_Kind r = [] \<and> rr_Match r = [] \<and> rr_Tags r = [] \<and> \<not> rr_Replay r) then Inl ''invalid delivery rule''
      else if rr_Kind r \<noteq> [] \<and> rr_Kind r \<notin> set emitRelayKinds then Inl ''invalid rule kind''
      else if rr_Match r \<noteq> [] \<and> compile (rr_Match r) = None then Inl ''match does not compile''
      else case compile_tags compile_tag (rr_Tags r) of
        Inl e \<Rightarrow> Inl e
      | Inr tags \<Rightarrow> Inr \<lparr>dr_Match = (if rr_Match r = [] then None else compile (rr_Match r)), dr_Tags = tags, dr_Kind = rr_Kind r,
          dr_Replay = rr_Replay r, dr_Class = rr_Class r\<rparr>)"

fun collect :: "('a \<Rightarrow> string + 'b) \<Rightarrow> 'a list \<Rightarrow> string + 'b list" where
  "collect f [] = Inr []"
| "collect f (x # xs) = (case f x of Inl e \<Rightarrow> Inl e | Inr y \<Rightarrow> (case collect f xs of Inl e \<Rightarrow> Inl e | Inr ys \<Rightarrow> Inr (y # ys)))"

definition validate_summary :: "inboxSummaryPolicy \<Rightarrow> bool option \<Rightarrow> string + inboxSummaryPolicy" where
  "validate_summary v promote =
     (if promote = Some False then Inl ''idle_promote: false cannot be combined with inbox_summary''
      else let v1 = (if is_MaxChars v = 0 then v\<lparr>is_MaxChars := 300\<rparr> else v)
           in if is_MaxChars v1 < 240 \<or> is_MaxChars v1 > 300 \<or> \<not> has_prefix (is_DigestPrefix v1) ''inbox/''
                 \<or> list_ex (\<lambda>c. c \<in> set [CHR 0x0D, CHR 0x0A, CHR '' '', CHR ''?'', CHR ''#'']) (is_DigestPrefix v1)
                 \<or> length (is_DigestPrefix v1) > 120
              then Inl ''inbox_summary needs digest_prefix inbox/... and max_chars in 240..300'' else Inr v1)"

definition hold_ok :: "(string \<Rightarrow> int option) \<Rightarrow> deliveryHoldPolicy \<Rightarrow> bool" where
  "hold_ok pd v = (case pd (hp_MaxHold v) of None \<Rightarrow> False
     | Some d \<Rightarrow> \<not> (d \<le> 0 \<or> hp_HandoffBytes v < 0 \<or> hp_HandoffItems v < 0))"

definition digest_window_ok :: "(string \<Rightarrow> int option) \<Rightarrow> string \<Rightarrow> bool" where
  "digest_window_ok pd w \<longleftrightarrow> w = [] \<or> (case pd w of None \<Rightarrow> False | Some d \<Rightarrow> \<not> (d < 0 \<or> d > minute))"

definition deadline_ok :: "(string \<Rightarrow> int option) \<Rightarrow> string \<times> string \<Rightarrow> bool" where
  "deadline_ok pd kv \<longleftrightarrow> \<not> (fst kv = [] \<or> \<not> validDeliveryClass (fst kv)) \<and> (case pd (snd kv) of None \<Rightarrow> False | Some d \<Rightarrow> \<not> d < 0)"

definition type_ok :: "string \<times> string \<Rightarrow> bool" where
  "type_ok kv \<longleftrightarrow> \<not> (fst kv \<notin> set hubNotifyTypes \<or> (snd kv \<noteq> ''inbox'' \<and> snd kv \<noteq> ''interrupt''))"

definition validate_lane ::
  "compiler \<Rightarrow> compiler \<Rightarrow> (string \<Rightarrow> int option) \<Rightarrow> raw_rule deliveryLanePolicy \<Rightarrow> string + deliveryRule deliveryLanePolicy" where
  "validate_lane compile compile_tag pd l =
     (case (case lp_InboxSummary l of None \<Rightarrow> Inr None
            | Some v \<Rightarrow> (case validate_summary v (lp_IdlePromote l) of Inl e \<Rightarrow> Inl e | Inr v1 \<Rightarrow> Inr (Some v1))) of
        Inl e \<Rightarrow> Inl e
      | Inr summary \<Rightarrow>
          if (case lp_HoldWhileWorking l of None \<Rightarrow> False | Some v \<Rightarrow> \<not> hold_ok pd v)
          then Inl ''hold_while_working needs positive max_hold and nonnegative handoff thresholds''
          else if \<not> validDeliveryClass (lp_Default l) then Inl ''invalid delivery default''
          else if \<not> digest_window_ok pd (lp_DigestWindow l) then Inl ''digest_window must be 0s..1m''
          else if \<not> list_all (deadline_ok pd) (lp_Deadlines l) then Inl ''invalid class deadline''
          else if \<not> list_all type_ok (lp_Types l) then Inl ''invalid type map entry''
          else case collect (validate_rule compile compile_tag) (lp_Rules l) of
            Inl e \<Rightarrow> Inl e
          | Inr rules \<Rightarrow> Inr \<lparr>lp_InboxSummary = summary, lp_IdlePromote = lp_IdlePromote l, lp_HoldWhileWorking = lp_HoldWhileWorking l,
              lp_Default = lp_Default l, lp_Deadlines = lp_Deadlines l, lp_DigestWindow = lp_DigestWindow l, lp_Types = lp_Types l,
              lp_Rules = rules\<rparr>)"

definition validDesignLanePattern :: "(string \<Rightarrow> string \<Rightarrow> bool option) \<Rightarrow> string \<Rightarrow> bool" where
  "validDesignLanePattern glob pattern \<longleftrightarrow>
     \<not> (pattern = [] \<or> length pattern > 128 \<or> list_ex (\<lambda>c. c \<in> set [CHR 0x00, CHR 0x0D, CHR 0x0A]) pattern)
     \<and> glob pattern [] \<noteq> None"

definition laneNamePattern :: "string \<Rightarrow> bool" where
  "laneNamePattern s \<longleftrightarrow> 1 \<le> length s \<and> length s \<le> 32
     \<and> list_all (\<lambda>c. is_digit c \<or> (97 \<le> byte c \<and> byte c \<le> 122) \<or> c = CHR ''_'' \<or> c = CHR ''-'') s"

definition hubAgentLabelPattern :: "string \<Rightarrow> bool" where
  "hubAgentLabelPattern s \<longleftrightarrow> 1 \<le> length s \<and> length s \<le> 128 \<and> is_alnum (hd s)
     \<and> list_all (\<lambda>c. is_alnum c \<or> c \<in> set ''._:-'') (tl s)"

definition validReportRelayLaneName :: "string \<Rightarrow> bool" where
  "validReportRelayLaneName v \<longleftrightarrow> hubAgentLabelPattern v \<or> laneNamePattern v"

definition validate_entry ::
  "compiler \<Rightarrow> compiler \<Rightarrow> (string \<Rightarrow> int option) \<Rightarrow> string \<times> raw_rule deliveryLanePolicy \<Rightarrow> string + (string \<times> deliveryRule deliveryLanePolicy)" where
  "validate_entry compile compile_tag pd kv =
     (if \<not> validReportRelayLaneName (fst kv) then Inl ''invalid policy lane''
      else case validate_lane compile compile_tag pd (snd kv) of Inl e \<Rightarrow> Inl e | Inr l \<Rightarrow> Inr (fst kv, l))"

text \<open>A later binding of a Go map wins: the overrides stand before the defaults.\<close>

definition merged :: "(string \<times> string) list \<Rightarrow> (string \<times> string) list \<Rightarrow> (string \<times> string) list" where
  "merged defaults overrides = overrides @ defaults"

text \<open>What the decoder made of the bytes of a policy: their number, the value, and whether it was the only document.\<close>

record policy_text =
  pt_length :: int
  pt_decoded :: "raw_rule deliveryPolicy option"
  pt_single :: bool

definition parseDeliveryPolicy ::
  "compiler \<Rightarrow> compiler \<Rightarrow> (string \<Rightarrow> int option) \<Rightarrow> (string \<Rightarrow> string \<Rightarrow> bool option) \<Rightarrow> policy_text \<Rightarrow> string + policy" where
  "parseDeliveryPolicy compile compile_tag pd glob raw =
     (if pt_length raw > 2 ^ 20 then Inl ''delivery policy too large''
      else case pt_decoded raw of
        None \<Rightarrow> Inl ''delivery policy does not decode''
      | Some p \<Rightarrow>
          if \<not> pt_single raw then Inl ''expected one policy document''
          else if dp_Days p < 0 \<or> dp_Days p > 36500 \<or> dp_PerLane p < 0 then Inl ''retention needs days in 1..36500 and positive per_lane''
          else if lp_Default (dp_Lane p) = [] then Inl ''delivery policy needs a default''
          else let design = (case dp_DesignLanes p of None \<Rightarrow> [defaultDesignLanePattern] | Some ps \<Rightarrow> ps)
               in if \<not> list_all (validDesignLanePattern glob) design then Inl ''invalid relay.design_lanes pattern''
                  else if lp_IdlePromote (dp_Lane p) \<noteq> None then Inl ''idle_promote is only supported per lane''
                  else case validate_lane compile compile_tag pd (dp_Lane p) of
                    Inl e \<Rightarrow> Inl e
                  | Inr own \<Rightarrow>
                      if \<not> list_all (\<lambda>kv. hubAgentCLIPattern (fst kv) \<and> (snd kv = ''supported'' \<or> snd kv = ''unsupported'')) (dp_Agents p)
                      then Inl ''invalid agents entry''
                      else case collect (validate_entry compile compile_tag pd) (dp_Lanes p) of
                        Inl e \<Rightarrow> Inl e
                      | Inr lanes \<Rightarrow> Inr \<lparr>dp_Days = (if dp_Days p = 0 then 30 else dp_Days p),
                          dp_PerLane = (if dp_PerLane p = 0 then 2000 else dp_PerLane p), dp_DesignLanes = Some design,
                          dp_Lane = own\<lparr>lp_Types := merged defaultNotifyTypeClasses (lp_Types own)\<rparr>,
                          dp_Agents = merged defaultInboxAgentSupport (dp_Agents p), dp_Lanes = lanes, dp_legacy = dp_legacy p\<rparr>)"

definition loadDeliveryPolicy ::
  "compiler \<Rightarrow> compiler \<Rightarrow> (string \<Rightarrow> int option) \<Rightarrow> (string \<Rightarrow> string \<Rightarrow> bool option) \<Rightarrow> policy_text \<Rightarrow> policy_text option
    \<Rightarrow> string \<Rightarrow> string + policy" where
  "loadDeliveryPolicy compile compile_tag pd glob embedded file path =
     (case (if path \<noteq> ''default'' \<and> path \<noteq> ''off'' then file else Some embedded) of
        None \<Rightarrow> Inl ''policy file cannot be read''
      | Some raw \<Rightarrow>
          (case parseDeliveryPolicy compile compile_tag pd glob raw of
             Inl e \<Rightarrow> Inl e | Inr p \<Rightarrow> Inr (p\<lparr>dp_legacy := (path = ''off'')\<rparr>)))"


section \<open>Classification\<close>

definition typeClass :: "policy \<Rightarrow> string \<Rightarrow> string \<Rightarrow> string" where
  "typeClass p lane notifyType =
     (if notifyType = [] then []
      else case map_of (dp_Lanes p) lane of
        Some local \<Rightarrow> (case map_of (lp_Types local) notifyType of Some class \<Rightarrow> class | None \<Rightarrow> lookup (lp_Types (dp_Lane p)) notifyType)
      | None \<Rightarrow> lookup (lp_Types (dp_Lane p)) notifyType)"

definition agentSupported :: "policy \<Rightarrow> string \<Rightarrow> bool" where
  "agentSupported p cli \<longleftrightarrow> lookup (dp_Agents p) cli = ''supported''"

definition desk_types :: "string list" where
  "desk_types = [''decision'', ''order'', ''deploy-approval'', ''watch-hold'', ''culprit-hold'', ''automation-failed'']"

definition mustAct :: "policy \<Rightarrow> string \<Rightarrow> event \<Rightarrow> bool" where
  "mustAct p lane e =
     (let desk = (lp_InboxSummary (lane_policy p lane) \<noteq> None); text = deliveryEventText e
      in if desk \<and> ev_NotifyType e \<in> set desk_types then True
         else if mustActDeliveryTags text \<and> (\<not> desk \<or> neverHoldTags text) then True
         else list_ex (\<lambda>rule. dr_Class rule = ''interrupt''
                \<and> list_ex (\<lambda>tag. \<not> (desk \<and> fst tag = ''READY'') \<and> snd tag text) (dr_Tags rule))
              (lp_Rules (lane_policy p lane) @ lp_Rules (dp_Lane p)))"

definition rule_applies :: "string \<Rightarrow> event \<Rightarrow> bool \<Rightarrow> string \<Rightarrow> deliveryRule \<Rightarrow> bool" where
  "rule_applies kind e replay text r \<longleftrightarrow>
     \<not> (dr_Kind r \<noteq> [] \<and> dr_Kind r \<noteq> kind) \<and> \<not> (dr_Replay r \<and> \<not> replay \<and> \<not> ev_Replay e)
     \<and> (case dr_Match r of None \<Rightarrow> True | Some m \<Rightarrow> m text)
     \<and> (dr_Tags r = [] \<or> list_ex (\<lambda>tag. snd tag text) (dr_Tags r))"

definition classify :: "policy \<Rightarrow> string \<Rightarrow> string \<Rightarrow> event \<Rightarrow> bool \<Rightarrow> string" where
  "classify p lane kind e replay =
     (if dp_legacy p \<or> mustAct p lane e
         \<or> (lp_InboxSummary (lane_policy p lane) \<noteq> None \<and> (kind = ''job.escalate'' \<or> kind = ''job.lost'' \<or> kind = ''job.revoked''))
      then ''interrupt''
      else if ev_DeliveryClass e \<noteq> [] then ev_DeliveryClass e
      else if typeClass p lane (ev_NotifyType e) \<noteq> [] then typeClass p lane (ev_NotifyType e)
      else if chatRelayEventPattern (ev_EventID e) then ''interrupt''
      else case find (rule_applies kind e replay (deliveryEventText e)) (lp_Rules (lane_policy p lane) @ lp_Rules (dp_Lane p)) of
        Some r \<Rightarrow> dr_Class r
      | None \<Rightarrow> if lp_Default (lane_policy p lane) \<noteq> [] then lp_Default (lane_policy p lane) else lp_Default (dp_Lane p))"

definition timing :: "(string \<Rightarrow> int option) \<Rightarrow> policy \<Rightarrow> string \<Rightarrow> string \<Rightarrow> int \<times> int" where
  "timing pd p lane class =
     (let dur = (\<lambda>s. case pd s of None \<Rightarrow> 0 | Some d \<Rightarrow> d);
          deadline = (case map_of (dp_Lanes p) lane of
             Some l \<Rightarrow> (case map_of (lp_Deadlines l) class of Some v \<Rightarrow> dur v | None \<Rightarrow> dur (lookup (lp_Deadlines (dp_Lane p)) class))
           | None \<Rightarrow> dur (lookup (lp_Deadlines (dp_Lane p)) class));
          window = (case map_of (dp_Lanes p) lane of
             Some l \<Rightarrow> if lp_DigestWindow l \<noteq> [] then dur (lp_DigestWindow l) else dur (lp_DigestWindow (dp_Lane p))
           | None \<Rightarrow> dur (lp_DigestWindow (dp_Lane p)))
      in (deadline, if dp_legacy p then 0 else window))"

definition holdPolicy :: "policy \<Rightarrow> string \<Rightarrow> deliveryHoldPolicy option" where
  "holdPolicy p lane =
     (if dp_legacy p then None
      else case lp_HoldWhileWorking (lane_policy p lane) of Some l \<Rightarrow> Some l | None \<Rightarrow> lp_HoldWhileWorking (dp_Lane p))"

definition holdableEvent :: "string \<Rightarrow> event \<Rightarrow> bool" where
  "holdableEvent kind e \<longleftrightarrow>
     \<not> ev_noDigest e \<and> ev_NotifyType e \<noteq> ''decision'' \<and> ev_NotifyType e \<noteq> ''order''
     \<and> kind \<noteq> ''job.escalate'' \<and> kind \<noteq> ''job.lost'' \<and> kind \<noteq> ''job.revoked''
     \<and> \<not> chatRelayEventPattern (ev_EventID e) \<and> \<not> neverHoldTags (deliveryEventText e)"

definition designLane :: "(string \<Rightarrow> string \<Rightarrow> bool option) \<Rightarrow> policy \<Rightarrow> string \<Rightarrow> bool" where
  "designLane glob p lane \<longleftrightarrow> \<not> (lane = [] \<or> lane = deskPolicyLane)
     \<and> list_ex (\<lambda>pattern. glob pattern lane = Some True) (case dp_DesignLanes p of None \<Rightarrow> [] | Some ps \<Rightarrow> ps)"

definition designRoutineWorkerTypes :: "string list" where
  "designRoutineWorkerTypes = [''progress'', ''report'', ''info'', ''merged'', ''ack'', ''closed'']"

definition designQuiet ::
  "(string \<Rightarrow> string \<Rightarrow> bool option) \<Rightarrow> policy \<Rightarrow> string \<Rightarrow> string \<Rightarrow> event \<Rightarrow> bool \<Rightarrow> bool \<Rightarrow> bool" where
  "designQuiet glob p lane kind e hasTask fromWorker =
     (if \<not> designLane glob p lane then False
      else if kind = ''lane.event''
      then (if has_prefix (ev_Text e) consultDoneMarker then False
            else if ev_NotifyType e = ''ready'' then True
            else if ev_NotifyType e = [] then \<not> neverHoldTags (deliveryEventText e) \<and> fromWorker
            else ev_NotifyType e \<in> set designRoutineWorkerTypes \<and> fromWorker)
      else if kind = ''job.completed'' then ev_PR e \<noteq> [] \<or> hasTask
      else False)"


section \<open>Every event has a class\<close>

definition lane_classes_ok :: "deliveryRule deliveryLanePolicy \<Rightarrow> bool" where
  "lane_classes_ok l \<longleftrightarrow> validDeliveryClass (lp_Default l) \<and> (\<forall>kv\<in>set (lp_Types l). snd kv = ''inbox'' \<or> snd kv = ''interrupt'')
     \<and> (\<forall>r\<in>set (lp_Rules l). dr_Class r = ''inbox'' \<or> dr_Class r = ''interrupt'')"

definition policy_ok :: "policy \<Rightarrow> bool" where
  "policy_ok p \<longleftrightarrow> lane_classes_ok (dp_Lane p) \<and> lp_Default (dp_Lane p) \<noteq> [] \<and> (\<forall>kv\<in>set (dp_Lanes p). lane_classes_ok (snd kv))"

lemma collect_set: "collect f xs = Inr ys \<Longrightarrow> y \<in> set ys \<Longrightarrow> \<exists>x\<in>set xs. f x = Inr y"
  by (induction xs arbitrary: ys) (auto split: sum.splits)

lemma validate_rule_class: "validate_rule c ct r = Inr r' \<Longrightarrow> dr_Class r' = ''inbox'' \<or> dr_Class r' = ''interrupt''"
  by (auto simp: validate_rule_def validDeliveryClass_def split: if_splits sum.splits)

lemma validate_lane_ok:
  assumes "validate_lane c ct pd l = Inr l'"
  shows "lane_classes_ok l' \<and> lp_Default l' = lp_Default l"
proof -
  have v: "validDeliveryClass (lp_Default l)" "list_all type_ok (lp_Types l)" "lp_Default l' = lp_Default l" "lp_Types l' = lp_Types l"
    "collect (validate_rule c ct) (lp_Rules l) = Inr (lp_Rules l')"
    using assms by (auto simp: validate_lane_def split: if_splits sum.splits)
  have "dr_Class r = ''inbox'' \<or> dr_Class r = ''interrupt''" if "r \<in> set (lp_Rules l')" for r
    using collect_set [OF v(5) that] validate_rule_class by metis
  then show ?thesis using v by (auto simp: lane_classes_ok_def list_all_iff type_ok_def)
qed

lemma default_classes: "\<forall>kv\<in>set defaultNotifyTypeClasses. snd kv = ''inbox'' \<or> snd kv = ''interrupt''"
  by (simp add: defaultNotifyTypeClasses_def)

lemma parse_ok: "parseDeliveryPolicy c ct pd glob raw = Inr p \<Longrightarrow> policy_ok p"
proof -
  assume p: "parseDeliveryPolicy c ct pd glob raw = Inr p"
  obtain q where q: "pt_decoded raw = Some q"
    using p by (cases "pt_decoded raw") (auto simp: parseDeliveryPolicy_def split: if_splits)
  obtain own where own: "validate_lane c ct pd (dp_Lane q) = Inr own"
    using p q by (cases "validate_lane c ct pd (dp_Lane q)") (auto simp: parseDeliveryPolicy_def Let_def split: if_splits)
  obtain lanes where lanes: "collect (validate_entry c ct pd) (dp_Lanes q) = Inr lanes"
    using p q own by (cases "collect (validate_entry c ct pd) (dp_Lanes q)") (auto simp: parseDeliveryPolicy_def Let_def split: if_splits)
  have f: "lp_Default (dp_Lane q) \<noteq> []" "dp_Lane p = own\<lparr>lp_Types := merged defaultNotifyTypeClasses (lp_Types own)\<rparr>" "dp_Lanes p = lanes"
    using p q own lanes by (auto simp: parseDeliveryPolicy_def Let_def split: if_splits)
  have "lane_classes_ok (snd kv)" if "kv \<in> set lanes" for kv
  proof -
    from collect_set [OF lanes that] obtain x where "validate_entry c ct pd x = Inr kv" by blast
    then have "validate_lane c ct pd (snd x) = Inr (snd kv)" by (auto simp: validate_entry_def split: if_splits sum.splits)
    then show ?thesis using validate_lane_ok by blast
  qed
  then show ?thesis using validate_lane_ok [OF own] f default_classes
    by (auto simp: policy_ok_def lane_classes_ok_def merged_def)
qed

lemma lane_policy_ok:
  assumes "policy_ok p"
  shows "lane_classes_ok (lane_policy p lane)"
proof (cases "map_of (dp_Lanes p) lane")
  case None
  then show ?thesis by (simp add: lane_policy_def zero_lane_def lane_classes_ok_def validDeliveryClass_def)
next
  case (Some l)
  then have "lane_classes_ok (snd (lane, l))" using assms map_of_SomeD [OF Some] unfolding policy_ok_def by blast
  then show ?thesis using Some by (simp add: lane_policy_def)
qed

lemma types_ok: "lane_classes_ok l \<Longrightarrow> map_of (lp_Types l) t = Some c \<Longrightarrow> validDeliveryClass c"
  by (auto simp: lane_classes_ok_def validDeliveryClass_def dest!: map_of_SomeD bspec)

lemma typeClass_ok:
  assumes "policy_ok p"
  shows "validDeliveryClass (typeClass p lane t)"
proof -
  have "lane_classes_ok (dp_Lane p)" using assms by (simp add: policy_ok_def)
  then have g: "validDeliveryClass (lookup (lp_Types (dp_Lane p)) t)"
    using types_ok by (auto simp: lookup_def validDeliveryClass_def split: option.splits)
  have "validDeliveryClass c" if "map_of (dp_Lanes p) lane = Some l" "map_of (lp_Types l) t = Some c" for l c
    using lane_policy_ok [OF assms, of lane] that types_ok by (simp add: lane_policy_def)
  then show ?thesis using g by (auto simp: typeClass_def validDeliveryClass_def split: option.splits)
qed

text \<open>
  C29: every event gets a class. Under a policy that was accepted, with an explicit class that is
  valid when present, an event is classified as interrupt or as inbox, on every lane, for every kind.
\<close>

theorem classify_total:
  assumes "parseDeliveryPolicy compile compile_tag pd glob raw = Inr p" "validDeliveryClass (ev_DeliveryClass e)"
  shows "classify p lane kind e replay \<in> {''interrupt'', ''inbox''}"
proof -
  have ok: "policy_ok p" by (rule parse_ok [OF assms(1)])
  note l = lane_policy_ok [OF ok, of lane] typeClass_ok [OF ok, of lane "ev_NotifyType e"]
  have r: "dr_Class r \<in> {''interrupt'', ''inbox''}"
    if "find P (lp_Rules (lane_policy p lane) @ lp_Rules (dp_Lane p)) = Some r" for r P
  proof -
    have "r \<in> set (lp_Rules (lane_policy p lane) @ lp_Rules (dp_Lane p))" using that by (metis find_Some_iff nth_mem)
    then show ?thesis using l(1) ok by (auto simp: policy_ok_def lane_classes_ok_def)
  qed
  have d: "lp_Default (dp_Lane p) \<in> {''interrupt'', ''inbox''}"
    using ok by (auto simp: policy_ok_def lane_classes_ok_def validDeliveryClass_def)
  have dl: "lp_Default (lane_policy p lane) \<noteq> [] \<Longrightarrow> lp_Default (lane_policy p lane) \<in> {''interrupt'', ''inbox''}"
    using l(1) by (auto simp: lane_classes_ok_def validDeliveryClass_def)
  show ?thesis unfolding classify_def
    using assms(2) l(2) r d dl by (auto simp: validDeliveryClass_def split: option.splits)
qed

definition sample_lane :: "string \<Rightarrow> (string \<times> string) list \<Rightarrow> raw_rule list \<Rightarrow> raw_rule deliveryLanePolicy" where
  "sample_lane class types rules = \<lparr>lp_InboxSummary = None, lp_IdlePromote = None, lp_HoldWhileWorking = None, lp_Default = class,
     lp_Deadlines = [], lp_DigestWindow = [], lp_Types = types, lp_Rules = rules\<rparr>"

definition sample_text :: policy_text where
  "sample_text = \<lparr>pt_length = 120, pt_decoded = Some \<lparr>dp_Days = 0, dp_PerLane = 0, dp_DesignLanes = None,
     dp_Lane = sample_lane ''inbox'' [] [\<lparr>rr_Match = [], rr_Tags = [''READY''], rr_Kind = [], rr_Replay = False, rr_Class = ''interrupt''\<rparr>],
     dp_Agents = [], dp_Lanes = [(''ops'', sample_lane [] [(''merged'', ''interrupt'')] [])], dp_legacy = False\<rparr>, pt_single = True\<rparr>"


definition sample_event :: event where
  "sample_event = \<lparr>ev_DeliveryClass = [], ev_NotifyType = [], ev_noDigest = False, ev_EventID = ''e1'', ev_Text = ''tests pass'',
     ev_ReportLastLine = [], ev_Question = [], ev_Reason = [], ev_PR = [], ev_Replay = False\<rparr>"

definition sample_policy :: policy where
  "sample_policy = (case parseDeliveryPolicy (\<lambda>_. None) (\<lambda>t. Some (has_tag t)) (\<lambda>_. None) (\<lambda>p s. Some False) sample_text of
     Inr p \<Rightarrow> p | Inl _ \<Rightarrow> \<lparr>dp_Days = 0, dp_PerLane = 0, dp_DesignLanes = None, dp_Lane = zero_lane, dp_Agents = [], dp_Lanes = [], dp_legacy = False\<rparr>)"

lemma sample_parses: "parseDeliveryPolicy (\<lambda>_. None) (\<lambda>t. Some (has_tag t)) (\<lambda>_. None) (\<lambda>p s. Some False) sample_text = Inr sample_policy"
  by (simp add: sample_policy_def parseDeliveryPolicy_def sample_text_def sample_lane_def validDesignLanePattern_def defaultDesignLanePattern_def
    validate_lane_def validDeliveryClass_def digest_window_ok_def type_ok_def hubNotifyTypes_def validate_rule_def deliveryTagShape_def word_char_def
    is_alnum_def is_digit_def byte_def validate_entry_def validReportRelayLaneName_def hubAgentLabelPattern_def Let_def)

theorem classify_total_witness:
  "parseDeliveryPolicy (\<lambda>_. None) (\<lambda>t. Some (has_tag t)) (\<lambda>_. None) (\<lambda>p s. Some False) sample_text = Inr sample_policy
   \<and> validDeliveryClass (ev_DeliveryClass sample_event)
   \<and> classify sample_policy ''ops'' ''lane.event'' sample_event False \<in> {''interrupt'', ''inbox''}"
proof -
  have v: "validDeliveryClass (ev_DeliveryClass sample_event)" by (simp add: validDeliveryClass_def sample_event_def)
  show ?thesis using classify_total [OF sample_parses v] sample_parses v by simp
qed

text \<open>
  C30: a safety tag always gets through. An event whose text holds one of \<open>BLOCKER\<close>, \<open>URGENT\<close>, \<open>ESC\<close>,
  \<open>BOUNCE\<close> and \<open>needs_decision\<close> as a word of its own, in any case, interrupts every lane under every
  policy, whatever class or type its sender declared, is never held while the lane works, and is not
  kept quiet by a design lane as an untyped lane event.
\<close>

theorem safety_tags_get_through:
  assumes "t \<in> {''BLOCKER'', ''URGENT'', ''ESC'', ''BOUNCE'', ''needs_decision''}" "has_tag t (deliveryEventText e)"
  shows "classify p lane kind e replay = ''interrupt'' \<and> \<not> holdableEvent kind e
    \<and> (kind = ''lane.event'' \<and> ev_NotifyType e = [] \<longrightarrow> \<not> designQuiet glob p lane kind e hasTask fromWorker)"
proof -
  have n: "neverHoldTags (deliveryEventText e)" and m: "mustActDeliveryTags (deliveryEventText e)"
    using assms by (auto simp: neverHoldTags_def mustActDeliveryTags_def)
  have "mustAct p lane e" using n m by (simp add: mustAct_def Let_def)
  then show ?thesis using n by (simp add: classify_def holdableEvent_def designQuiet_def)
qed

theorem safety_tags_get_through_witness:
  "has_tag ''ESC'' (deliveryEventText (sample_event\<lparr>ev_Text := ''esc: pick one'', ev_DeliveryClass := ''inbox''\<rparr>))
   \<and> classify sample_policy ''ops'' ''lane.event'' (sample_event\<lparr>ev_Text := ''esc: pick one'', ev_DeliveryClass := ''inbox''\<rparr>) False = ''interrupt''"
proof -
  have t: "has_tag ''ESC'' (deliveryEventText (sample_event\<lparr>ev_Text := ''esc: pick one'', ev_DeliveryClass := ''inbox''\<rparr>))"
    by code_simp
  show ?thesis using safety_tags_get_through [OF _ t] t by simp
qed

end
