(* ===== verification/Relay_Nonce.thy ===== *)
theory Relay_Nonce
  imports Relay_Store Go_Text
begin

unbundle bit_operations_syntax

text \<open>
  The proof token of a relayed row (\<open>src/hub_client.go\<close>): one short bracketed word that is typed with
  the row and looked for on the pane afterwards. The lemmas show that a token is extracted from every
  text that carries it behind a space, and that the search for it on a screen finds whole words only.
\<close>

section \<open>The proof token of a row\<close>

text \<open>FNV-1a of 32 and of 64 bits (\<open>hash/fnv\<close>).\<close>

definition fnv32a :: "string \<Rightarrow> 32 word" where
  "fnv32a s = fold (\<lambda>c h. (h XOR word_of_nat (byte c)) * 16777619) s 2166136261"

definition fnv64a :: "string \<Rightarrow> 64 word" where
  "fnv64a s = fold (\<lambda>c h. (h XOR word_of_nat (byte c)) * 1099511628211) s 14695981039346656037"

definition relayNonceAlphabet :: string where
  "relayNonceAlphabet = ''0123456789abcdefghijklmnopqrstuvwxyz''"

fun relayNonceBase36 :: "nat \<Rightarrow> nat \<Rightarrow> string" where
  "relayNonceBase36 v 0 = []"
| "relayNonceBase36 v (Suc width) = relayNonceBase36 (v div 36) width @ [relayNonceAlphabet ! (v mod 36)]"

text \<open>\<open>binary.LittleEndian.PutUint64\<close>\<close>

definition little_endian :: "int \<Rightarrow> string" where
  "little_endian i = map (\<lambda>k. char_of (unat (drop_bit (8 * k) (word_of_int i :: 64 word) AND 255))) [0..<8]"

definition relayNonceCheck :: "int \<Rightarrow> string \<Rightarrow> string" where
  "relayNonceCheck i text = relayNonceBase36 (unat (fnv32a (little_endian i @ [CHR 0x00] @ text))) 4"

definition relayNonce :: "relayHeld \<Rightarrow> string" where
  "relayNonce item =
     (if rh_EventID item > 0 then ''[r'' @ itoa (rh_EventID item) @ relayNonceCheck (rh_EventID item) (rh_Text item) @ '']''
      else ''[r0'' @ relayNonceBase36 (unat (fnv64a (rh_Lane item @ [CHR 0x00] @ rh_JobID item @ [CHR 0x00] @ rh_Text item))) 6 @ '']'')"

text \<open>
  \<^verbatim>\<open>\[r[0-9][0-9a-z]{2,}\]\<close>: the token at the head of a text, if there is one. The closing bracket is
  none of the characters before it, so a token has one end.
\<close>

definition nonce_char :: "char \<Rightarrow> bool" where
  "nonce_char c \<longleftrightarrow> is_digit c \<or> (97 \<le> byte c \<and> byte c \<le> 122)"

definition token_at :: "string \<Rightarrow> string option" where
  "token_at s =
     (if take 2 s = ''[r'' \<and> length s > 2 \<and> is_digit (s ! 2)
      then let body = takeWhile nonce_char (drop 3 s)
           in if length body \<ge> 2 \<and> take 1 (drop (3 + length body) s) = '']'' then Some (take (4 + length body) s) else None
      else None)"

text \<open>\<open>FindAllString\<close>: leftmost matches that do not overlap.\<close>

function find_tokens :: "string \<Rightarrow> string list" where
  "find_tokens [] = []"
| "find_tokens (c # cs) = (case token_at (c # cs) of None \<Rightarrow> find_tokens cs | Some t \<Rightarrow> t # find_tokens (drop (length t - 1) cs))"
  by pat_completeness auto
termination by (relation "measure length") auto

fun first_of_each :: "string list \<Rightarrow> string list \<Rightarrow> string list" where
  "first_of_each seen [] = []"
| "first_of_each seen (t # ts) = (if t \<in> set seen then first_of_each seen ts else t # first_of_each (t # seen) ts)"

definition relayNoncesIn :: "string \<Rightarrow> string list" where
  "relayNoncesIn text = first_of_each [] (find_tokens text)"

definition relayNonceCore :: "string \<Rightarrow> string" where
  "relayNonceCore nonce =
     (let s = (if has_prefix nonce ''['' then drop 1 nonce else nonce) in if has_suffix s '']'' then butlast s else s)"

definition isASCIIWordByte :: "char \<Rightarrow> bool" where
  "isASCIIWordByte b \<longleftrightarrow> b = CHR ''_'' \<or> is_digit b \<or> (97 \<le> byte b \<and> byte b \<le> 122) \<or> (65 \<le> byte b \<and> byte b \<le> 90)"

text \<open>\<open>strings.Index\<close> and the loop of \<open>relayNonceTokenIn\<close> from position \<open>i\<close> on.\<close>

function index_from :: "string \<Rightarrow> string \<Rightarrow> nat \<Rightarrow> nat option" where
  "index_from line core i =
     (if i + length core > length line then None
      else if take (length core) (drop i line) = core then Some i else index_from line core (Suc i))"
  by pat_completeness auto
termination by (relation "measure (\<lambda>(line, core, i). Suc (length line) - i)") auto

lemma index_from_bounds: "index_from line core i = Some j \<Longrightarrow> i \<le> j \<and> j + length core \<le> length line"
  by (induction line core i rule: index_from.induct) (auto simp: index_from.simps split: if_splits)

declare index_from.simps [simp del]

function token_from :: "string \<Rightarrow> string \<Rightarrow> nat \<Rightarrow> bool" where
  "token_from line core i =
     (if i + length core > length line then False
      else case index_from line core i of
        None \<Rightarrow> False
      | Some j \<Rightarrow>
          let left = (j = 0 \<or> \<not> isASCIIWordByte (line ! (j - 1)));
              right = (j + length core \<ge> length line \<or> \<not> isASCIIWordByte (line ! (j + length core)))
          in if left \<and> right then True else token_from line core (j + 1))"
  by pat_completeness auto
termination
  by (relation "measure (\<lambda>(line, core, i). Suc (length line) - i)") (auto dest: index_from_bounds)

declare token_from.simps [simp del]

definition relayNonceTokenIn :: "string \<Rightarrow> string \<Rightarrow> bool" where
  "relayNonceTokenIn line nonce = token_from line (relayNonceCore nonce) 0"


section \<open>A token is found as a token\<close>

definition match_at :: "string \<Rightarrow> string \<Rightarrow> nat \<Rightarrow> bool" where
  "match_at line core j \<longleftrightarrow> j + length core \<le> length line \<and> take (length core) (drop j line) = core"

lemma index_from_least:
  "index_from line core i = Some j \<longleftrightarrow> i \<le> j \<and> match_at line core j \<and> (\<forall>k. i \<le> k \<and> k < j \<longrightarrow> \<not> match_at line core k)"
proof (induction line core i rule: index_from.induct)
  case (1 line core i)
  consider (stop) "length line < i + length core" | (hit) "match_at line core i" | (miss) "i + length core \<le> length line" "\<not> match_at line core i"
    using not_le by blast
  then show ?case
  proof cases
    case stop
    then show ?thesis by (auto simp: index_from.simps [of line core i] match_at_def)
  next
    case hit
    then have "index_from line core i = Some i" by (simp add: index_from.simps [of line core i] match_at_def)
    then show ?thesis using hit by (auto simp: not_less_eq_eq)
  next
    case miss
    then have e: "index_from line core i = index_from line core (Suc i)" by (simp add: index_from.simps [of line core i] match_at_def)
    have "(Suc i \<le> j \<and> match_at line core j \<and> (\<forall>k. Suc i \<le> k \<and> k < j \<longrightarrow> \<not> match_at line core k))
      \<longleftrightarrow> (i \<le> j \<and> match_at line core j \<and> (\<forall>k. i \<le> k \<and> k < j \<longrightarrow> \<not> match_at line core k))"
      using miss(2) by (metis Suc_leD Suc_leI le_neq_implies_less)
    then show ?thesis using 1 miss e by (simp add: match_at_def)
  qed
qed

lemma index_from_None: "index_from line core i = None \<Longrightarrow> i \<le> j \<Longrightarrow> \<not> match_at line core j"
proof (induction line core i rule: index_from.induct)
  case (1 line core i)
  show ?case
  proof (cases "length line < i + length core")
    case True
    then show ?thesis using 1(3) by (simp add: match_at_def)
  next
    case False
    then have m: "take (length core) (drop i line) \<noteq> core" and n: "index_from line core (Suc i) = None"
      using 1(2) by (simp_all add: index_from.simps [of line core i] split: if_splits)
    show ?thesis
    proof (cases "j = i")
      case True
      then show ?thesis using m by (simp add: match_at_def)
    next
      case False
      then show ?thesis using 1(1) [OF _ m n] 1(3) \<open>\<not> length line < i + length core\<close> by simp
    qed
  qed
qed

definition token_match :: "string \<Rightarrow> string \<Rightarrow> nat \<Rightarrow> bool" where
  "token_match line core j \<longleftrightarrow> match_at line core j \<and> (j = 0 \<or> \<not> isASCIIWordByte (line ! (j - 1)))
     \<and> (j + length core \<ge> length line \<or> \<not> isASCIIWordByte (line ! (j + length core)))"

lemma token_from_iff: "token_from line core i \<longleftrightarrow> (\<exists>j\<ge>i. token_match line core j)"
proof (induction line core i rule: token_from.induct)
  case (1 line core i)
  show ?case
  proof (cases "index_from line core i")
    case None
    then have "\<not> token_match line core j" if "i \<le> j" for j using index_from_None that by (simp add: token_match_def)
    then show ?thesis using None by (auto simp: token_from.simps [of line core i])
  next
    case (Some j)
    then have j: "i \<le> j" "match_at line core j" "\<And>k. i \<le> k \<Longrightarrow> k < j \<Longrightarrow> \<not> match_at line core k"
      by (simp_all add: index_from_least)
    have le: "i + length core \<le> length line" using j(1,2) by (simp add: match_at_def)
    show ?thesis
    proof (cases "token_match line core j")
      case True
      then show ?thesis using Some j(1) le by (auto simp: token_from.simps [of line core i] token_match_def)
    next
      case False
      have w: "\<not> ((j = 0 \<or> \<not> isASCIIWordByte (line ! (j - 1))) \<and> (j + length core \<ge> length line \<or> \<not> isASCIIWordByte (line ! (j + length core))))"
        using False j(2) by (simp add: token_match_def)
      then have e: "token_from line core i = token_from line core (Suc j)"
        using Some le unfolding token_from.simps [of line core i] Let_def by (simp only: option.case if_False if_True not_less [symmetric] Suc_eq_plus1)
      have "(\<exists>k\<ge>Suc j. token_match line core k) \<longleftrightarrow> (\<exists>k\<ge>i. token_match line core k)"
        using False j by (metis Suc_leD Suc_leI le_trans nat_less_le not_le_imp_less token_match_def)
      moreover have "token_from line core (Suc j) \<longleftrightarrow> (\<exists>k\<ge>Suc j. token_match line core k)"
        using 1 [OF _ Some refl refl w] le by simp
      ultimately show ?thesis using e by simp
    qed
  qed
qed

lemma token_match_split:
  "(\<exists>j. token_match line core j) \<longleftrightarrow>
     (\<exists>pre post. line = pre @ core @ post \<and> (pre = [] \<or> \<not> isASCIIWordByte (last pre)) \<and> (post = [] \<or> \<not> isASCIIWordByte (hd post)))"
proof
  assume "\<exists>j. token_match line core j"
  then obtain j where j: "token_match line core j" by blast
  let ?pre = "take j line" and ?post = "drop (j + length core) line"
  have m: "j + length core \<le> length line" "take (length core) (drop j line) = core" using j by (auto simp: token_match_def match_at_def)
  have "line = ?pre @ core @ ?post" using m(2) by (metis add.commute append_take_drop_id drop_drop)
  moreover have "?pre = [] \<or> \<not> isASCIIWordByte (last ?pre)"
    using j m(1) by (auto simp: token_match_def last_conv_nth)
  moreover have "?post = [] \<or> \<not> isASCIIWordByte (hd ?post)"
    using j m(1) by (auto simp: token_match_def hd_drop_conv_nth)
  ultimately show "\<exists>pre post. line = pre @ core @ post \<and> (pre = [] \<or> \<not> isASCIIWordByte (last pre)) \<and> (post = [] \<or> \<not> isASCIIWordByte (hd post))"
    by blast
next
  assume "\<exists>pre post. line = pre @ core @ post \<and> (pre = [] \<or> \<not> isASCIIWordByte (last pre)) \<and> (post = [] \<or> \<not> isASCIIWordByte (hd post))"
  then obtain pre post where s: "line = pre @ core @ post" "pre = [] \<or> \<not> isASCIIWordByte (last pre)" "post = [] \<or> \<not> isASCIIWordByte (hd post)"
    by blast
  have "token_match line core (length pre)"
    using s by (auto simp: token_match_def match_at_def last_conv_nth hd_conv_nth nth_append)
  then show "\<exists>j. token_match line core j" by blast
qed

text \<open>
  C33: a proof token proves exactly itself. The scan of \<open>relayNonceTokenIn\<close> succeeds on a line if and
  only if the token without its brackets stands somewhere in the line with no letter, digit or
  underscore of ASCII directly before or after it. So the token of one row is never seen inside a
  longer token or a longer word.
\<close>

theorem relayNonceTokenIn_exact:
  "relayNonceTokenIn line nonce \<longleftrightarrow>
     (\<exists>pre post. line = pre @ relayNonceCore nonce @ post \<and> (pre = [] \<or> \<not> isASCIIWordByte (last pre))
        \<and> (post = [] \<or> \<not> isASCIIWordByte (hd post)))"
  using token_from_iff [of line "relayNonceCore nonce" 0] token_match_split [of line "relayNonceCore nonce"]
  by (simp add: relayNonceTokenIn_def)

theorem relayNonceTokenIn_exact_witness:
  "relayNonceTokenIn ''ok [r18074q7] done'' ''[r18074q7]'' \<and> \<not> relayNonceTokenIn ''r18074q7x'' ''[r18074q7]''"
proof -
  have core: "relayNonceCore ''[r18074q7]'' = ''r18074q7''" by code_simp
  have "''ok [r18074q7] done'' = ''ok ['' @ relayNonceCore ''[r18074q7]'' @ ''] done''
     \<and> \<not> isASCIIWordByte (last ''ok ['') \<and> \<not> isASCIIWordByte (hd ''] done'')"
    unfolding core by code_simp
  then have "relayNonceTokenIn ''ok [r18074q7] done'' ''[r18074q7]''" unfolding relayNonceTokenIn_exact by blast
  moreover have "\<not> relayNonceTokenIn ''r18074q7x'' ''[r18074q7]''" by code_simp
  ultimately show ?thesis by simp
qed


section \<open>Every row of a batch can be recognised\<close>

lemma drop_three: "drop (3 + n) (a # b # c # r) = drop n r" "take (4 + n) (a # b # c # r) = a # b # c # take (Suc n) r"
  "take 2 (a # b # c # r) = [a, b]" "(a # b # c # r) ! 2 = c" "drop 3 (a # b # c # r) = r"
  by (simp_all add: numeral_eq_Suc)

lemma token_at_space: "token_at (xs @ CHR '' '' # ys) = token_at xs"
proof -
  have sp: "\<not> nonce_char (CHR '' '')" by (simp add: nonce_char_def is_digit_def byte_def)
  have digit: "\<not> is_digit (CHR '' '')" by (simp add: is_digit_def)
  consider "xs = []" | a where "xs = [a]" | a b where "xs = [a, b]" | a b c r where "xs = a # b # c # r"
    by (metis list.exhaust)
  then show ?thesis
  proof cases
    case (4 a b c r)
    have t: "takeWhile nonce_char (r @ CHR '' '' # ys) = takeWhile nonce_char r"
      using sp by (metis takeWhile_append1 takeWhile_append2 takeWhile_tail append_Nil2 takeWhile_eq_all_conv)
    have l: "length (takeWhile nonce_char r) \<le> length r" by (rule length_takeWhile_le)
    show ?thesis
    proof (cases "length (takeWhile nonce_char r) < length r")
      case True
      then have "take (Suc (length (takeWhile nonce_char r))) (r @ CHR '' '' # ys) = take (Suc (length (takeWhile nonce_char r))) r"
        "take 1 (drop (length (takeWhile nonce_char r)) (r @ CHR '' '' # ys)) = take 1 (drop (length (takeWhile nonce_char r)) r)" by simp_all
      then show ?thesis by (simp add: 4 token_at_def Let_def t drop_three del: drop_append take_append)
    next
      case False
      then show ?thesis using l by (simp add: 4 token_at_def Let_def t drop_three)
    qed
  qed (auto simp: token_at_def digit)
qed

lemma token_at_length: "token_at s = Some t \<Longrightarrow> length t \<le> length s \<and> t \<noteq> []"
  by (auto simp: token_at_def Let_def split: if_splits)

lemma find_tokens_space: "find_tokens (xs @ CHR '' '' # ys) = find_tokens xs @ find_tokens ys"
proof (induction xs rule: find_tokens.induct)
  case 1
  then show ?case using token_at_space [of "[]" ys] by (simp add: token_at_def)
next
  case (2 c cs)
  have e: "token_at (c # cs @ CHR '' '' # ys) = token_at (c # cs)" using token_at_space [of "c # cs" ys] by simp
  show ?case
  proof (cases "token_at (c # cs)")
    case None
    then show ?thesis using 2 e by simp
  next
    case (Some t)
    have "length t - 1 \<le> length cs" using token_at_length [OF Some] by (cases t) simp_all
    then show ?thesis using 2(2) [OF Some] Some e by simp
  qed
qed

definition nonce_shape :: "string \<Rightarrow> bool" where
  "nonce_shape t \<longleftrightarrow> (\<exists>d body. t = ''[r'' @ d # body @ '']'' \<and> is_digit d \<and> list_all nonce_char body \<and> length body \<ge> 2)"

lemma token_at_shape: "nonce_shape t \<Longrightarrow> token_at (t @ rest) = Some t"
proof -
  assume "nonce_shape t"
  then obtain d body where t: "t = ''[r'' @ d # body @ '']''" "is_digit d" "list_all nonce_char body" "length body \<ge> 2"
    unfolding nonce_shape_def by blast
  have br: "\<not> nonce_char (CHR '']'')" by (simp add: nonce_char_def is_digit_def byte_def)
  have w: "takeWhile nonce_char (body @ CHR '']'' # rest) = body"
    using t(3) br by (simp add: takeWhile_append list_all_iff)
  show ?thesis using t(2,4) by (simp add: t(1) token_at_def w Let_def drop_three)
qed

lemma nonce_char_alphabet: "k < 36 \<Longrightarrow> nonce_char (relayNonceAlphabet ! k)"
proof -
  have "list_all nonce_char relayNonceAlphabet"
    by (simp add: relayNonceAlphabet_def nonce_char_def is_digit_def byte_def)
  moreover have "length relayNonceAlphabet = 36" by (simp add: relayNonceAlphabet_def)
  ultimately show "k < 36 \<Longrightarrow> nonce_char (relayNonceAlphabet ! k)" by (simp add: list_all_length)
qed

lemma base36_chars: "list_all nonce_char (relayNonceBase36 v n) \<and> length (relayNonceBase36 v n) = n"
  by (induction v n rule: relayNonceBase36.induct) (simp_all add: nonce_char_alphabet)

lemma nonce_char_digits: "list_all is_digit s \<Longrightarrow> list_all nonce_char s"
  by (auto simp: list_all_iff nonce_char_def)

lemma relayNonce_shape: "nonce_shape (relayNonce item)"
proof (cases "rh_EventID item > 0")
  case True
  let ?d = "decimal (nat (rh_EventID item))"
  obtain c cs where d: "?d = c # cs" using decimal_not_Nil by (cases ?d) auto
  have dig: "list_all is_digit (c # cs)" using set_decimal_digits [of _ "nat (rh_EventID item)"] d by (auto simp: list_all_iff)
  let ?body = "cs @ relayNonceCheck (rh_EventID item) (rh_Text item)"
  have "relayNonce item = ''[r'' @ c # ?body @ '']''" using True d by (simp add: relayNonce_def itoa_def)
  moreover have "list_all nonce_char ?body" "length ?body \<ge> 2"
    using dig nonce_char_digits [of cs] base36_chars [of _ 4] by (auto simp: relayNonceCheck_def)
  ultimately show ?thesis unfolding nonce_shape_def using dig by auto
next
  case False
  let ?body = "relayNonceBase36 (unat (fnv64a (rh_Lane item @ [CHR 0x00] @ rh_JobID item @ [CHR 0x00] @ rh_Text item))) 6"
  have "relayNonce item = ''[r'' @ CHR ''0'' # ?body @ '']''" using False by (simp add: relayNonce_def)
  moreover have "is_digit (CHR ''0'')" by (simp add: is_digit_def)
  moreover have "list_all nonce_char ?body" "length ?body \<ge> 2" using base36_chars [of _ 6] by auto
  ultimately show ?thesis unfolding nonce_shape_def by blast
qed

lemma find_tokens_nonce: "relayNonce item \<in> set (find_tokens (relayNonce item @ rest))"
proof -
  have "token_at (relayNonce item @ rest) = Some (relayNonce item)" by (rule token_at_shape [OF relayNonce_shape])
  moreover obtain c cs where "relayNonce item = c # cs" using token_at_length [OF calculation] by (cases "relayNonce item") auto
  ultimately show ?thesis by simp
qed

lemma set_first_of_each: "set (first_of_each seen ts) = set ts - set seen"
  by (induction seen ts rule: first_of_each.induct) auto

lemma distinct_first_of_each: "distinct (first_of_each seen ts)"
  by (induction seen ts rule: first_of_each.induct) (auto simp: set_first_of_each)

lemma nonce_after_space: "relayNonce item \<in> set (relayNoncesIn (xs @ CHR '' '' # relayNonce item @ rest))"
  using find_tokens_nonce by (auto simp: relayNoncesIn_def set_first_of_each find_tokens_space)

lemma nonce_at_head: "relayNonce item \<in> set (relayNoncesIn (relayNonce item @ rest))"
  using find_tokens_nonce by (auto simp: relayNoncesIn_def set_first_of_each)


section \<open>Reading a screen\<close>

text \<open>\<open>relayTranscriptBlocks\<close>: the rows of the screen, the blocks so far and the open block.\<close>

fun blocks_from :: "string list \<Rightarrow> string list \<Rightarrow> string \<Rightarrow> string list" where
  "blocks_from [] blocks cur = (if cur \<noteq> [] then blocks @ [cur] else blocks)"
| "blocks_from (line # rest) blocks cur =
     (let flushed = (if cur \<noteq> [] then blocks @ [cur] else blocks)
      in if TrimSpace line = [] then blocks_from rest flushed []
         else if has_prefix line ''  '' \<and> \<not> has_prefix line ''   '' \<and> cur \<noteq> [] then blocks_from rest blocks (cur @ drop 2 line)
         else blocks_from rest flushed line)"

definition relayTranscriptBlocks :: "string \<Rightarrow> string list" where
  "relayTranscriptBlocks screen = blocks_from (split_lines screen) [] []"

definition relayNoncePresent :: "string \<Rightarrow> string \<Rightarrow> bool" where
  "relayNoncePresent screen nonce \<longleftrightarrow>
     list_ex (\<lambda>line. relayNonceTokenIn line nonce) (split_lines screen)
     \<or> list_ex (\<lambda>b. relayNonceTokenIn b nonce) (relayTranscriptBlocks screen)"

definition relayNonceProvenIn :: "string \<Rightarrow> string list \<Rightarrow> string list" where
  "relayNonceProvenIn screen nonces = filter (relayNoncePresent screen) nonces"

fun relayNonceUnion :: "string list \<Rightarrow> string list \<Rightarrow> string list" where
  "relayNonceUnion dst [] = dst"
| "relayNonceUnion dst (nonce # src) = relayNonceUnion (if nonce \<in> set dst then dst else dst @ [nonce]) src"

lemma set_relayNonceUnion [simp]: "set (relayNonceUnion dst src) = set dst \<union> set src"
  by (induction dst src rule: relayNonceUnion.induct) auto

lemma relayNonceUnion_Nil [simp]: "relayNonceUnion dst src = [] \<longleftrightarrow> dst = [] \<and> src = []"
  using set_relayNonceUnion [of dst src] by (metis Un_empty set_empty)

lemma set_relayNonceProvenIn [simp]: "set (relayNonceProvenIn screen nonces) = {n \<in> set nonces. relayNoncePresent screen n}"
  by (auto simp: relayNonceProvenIn_def)

end
