(* ===== verification/Relay_Batch.thy ===== *)
theory Relay_Batch
  imports Relay_Nonce
begin

text \<open>
  The texts a release types into a pane (\<open>relayBatchText\<close>, \<open>relayBatchGroups\<close> and
  \<open>relayGroupImmediate\<close> of \<open>src/busy_relay.go\<close>): the rows of a release in groups, each group one
  text with the token of every row in front of it.
\<close>

section \<open>Batches\<close>

text \<open>
  The prefix of a row whose wait ran out holds the minutes it waited; \<open>Duration.Minutes\<close> is rounded
  toward zero. The Korean words around it and behind the number of rows are written as their bytes.
\<close>

definition relayBatchTextLimit :: int where "relayBatchTextLimit = 8 * 1024"
definition relayDeliverDirective :: string where "relayDeliverDirective = ''directive''"

definition waited_minutes :: "time \<Rightarrow> relayHeld \<Rightarrow> int" where
  "waited_minutes now item =
     (let d = time_sub now (rh_HeldSince item) in if 0 \<le> d then d div minute else - ((- d) div minute))"

definition expired_mark :: "time \<Rightarrow> relayHeld \<Rightarrow> string" where
  "expired_mark now item =
     ''['' @ utf8 [0xeb, 0x8c, 0x80, 0xea, 0xb8, 0xb0] @ '' '' @ utf8 [0xeb, 0xa7, 0x8c, 0xeb, 0xa3, 0x8c] @ '' ''
       @ itoa (waited_minutes now item) @ utf8 [0xeb, 0xb6, 0x84] @ '']'' @ '' ''"

fun batch_rows :: "bool \<Rightarrow> time \<Rightarrow> nat \<Rightarrow> relayHeld list \<Rightarrow> string" where
  "batch_rows expired now i [] = []"
| "batch_rows expired now i (item # items) =
     '' '' @ itoa (int i) @ '')'' @ '' '' @ (if expired then expired_mark now item else []) @ relayNonce item @ '' '' @ rh_Text item
       @ batch_rows expired now (Suc i) items"

definition relayBatchText :: "relayHeld list \<Rightarrow> bool \<Rightarrow> time \<Rightarrow> string" where
  "relayBatchText items expired now =
     (case items of
        [item] \<Rightarrow> (if expired then expired_mark now item else []) @ relayNonce item @ '' '' @ rh_Text item
      | _ \<Rightarrow> ''[batch '' @ itoa (int (length items)) @ utf8 [0xea, 0xb1, 0xb4] @ '']'' @ batch_rows expired now 1 items)"

definition immediate_row :: "relayHeld \<Rightarrow> bool" where
  "immediate_row item \<longleftrightarrow> \<not> (rh_DeliverPolicy item \<noteq> relayDeliverDirective \<or> rh_EventID item = 0 \<or> rh_Lane item = [])"

definition relayGroupImmediate :: "relayHeld list \<Rightarrow> bool" where
  "relayGroupImmediate g \<longleftrightarrow> list_all immediate_row g \<and> g \<noteq> []"

definition batch_add :: "bool \<Rightarrow> time \<Rightarrow> relayHeld list list \<Rightarrow> relayHeld \<Rightarrow> relayHeld list list" where
  "batch_add expired now groups item =
     (if groups = [] then [[item]]
      else let newest = last groups; candidate = newest @ [item]
           in if relayGroupImmediate newest \<noteq> relayGroupImmediate [item] then groups @ [[item]]
              else if int (length (rh_Text item)) > relayBatchTextLimit
                      \<or> int (length (relayBatchText candidate expired now)) > relayBatchTextLimit then groups @ [[item]]
              else butlast groups @ [candidate])"

definition relayBatchGroups :: "relayHeld list \<Rightarrow> bool \<Rightarrow> time \<Rightarrow> relayHeld list list" where
  "relayBatchGroups items expired now = foldl (batch_add expired now) [] items"

text \<open>A group that may be sent: not empty, one disposition, and within the limit when it is a batch.\<close>

definition group_ok :: "bool \<Rightarrow> time \<Rightarrow> relayHeld list \<Rightarrow> bool" where
  "group_ok expired now g \<longleftrightarrow> g \<noteq> [] \<and> (\<forall>x\<in>set g. immediate_row x = relayGroupImmediate g)
     \<and> (length g > 1 \<longrightarrow> int (length (relayBatchText g expired now)) \<le> relayBatchTextLimit)"

lemma batch_add_ok:
  assumes "\<forall>g\<in>set groups. group_ok expired now g"
  shows "(\<forall>g\<in>set (batch_add expired now groups item). group_ok expired now g)
    \<and> concat (batch_add expired now groups item) = concat groups @ [item]"
proof (cases "groups = []")
  case True
  then show ?thesis by (simp add: batch_add_def group_ok_def relayGroupImmediate_def)
next
  case False
  let ?n = "last groups"
  have single: "group_ok expired now [item]" by (simp add: group_ok_def relayGroupImmediate_def)
  have n: "group_ok expired now ?n" using assms False by simp
  have front: "\<forall>g\<in>set (butlast groups). group_ok expired now g" using assms by (auto dest: in_set_butlastD)
  have cat: "concat (butlast groups) @ ?n = concat groups" using False by (metis append_butlast_last_id concat_append concat.simps append_Nil2)
  have joined: "group_ok expired now (?n @ [item])"
    if "relayGroupImmediate ?n = relayGroupImmediate [item]" "int (length (relayBatchText (?n @ [item]) expired now)) \<le> relayBatchTextLimit"
    using that n by (auto simp: group_ok_def relayGroupImmediate_def list_all_iff)
  show ?thesis using False assms single front joined cat by (auto simp: batch_add_def Let_def simp flip: append_assoc)
qed

lemma batch_groups_ok:
  assumes "\<forall>g\<in>set groups. group_ok expired now g"
  shows "(\<forall>g\<in>set (foldl (batch_add expired now) groups items). group_ok expired now g)
    \<and> concat (foldl (batch_add expired now) groups items) = concat groups @ items"
  using assms
proof (induction items arbitrary: groups)
  case (Cons item items)
  note b = batch_add_ok [OF Cons.prems, of item]
  show ?case using Cons.IH [OF conjunct1 [OF b]] b by simp
qed simp

lemma expired_mark_end: "expired_mark now item @ rest = butlast (expired_mark now item) @ CHR '' '' # rest"
  by (simp add: expired_mark_def butlast_append)

lemma batch_rows_nonces:
  "item \<in> set items \<Longrightarrow> \<exists>xs rest. batch_rows expired now i items = xs @ CHR '' '' # relayNonce item @ rest"
proof (induction items arbitrary: i)
  case (Cons x items)
  show ?case
  proof (cases "item = x")
    case True
    show ?thesis
    proof (cases expired)
      case True
      let ?xs = "'' '' @ itoa (int i) @ '')'' @ '' '' @ butlast (expired_mark now x)"
      have "batch_rows expired now i (x # items) = ?xs @ CHR '' '' # relayNonce x @ '' '' @ rh_Text x @ batch_rows expired now (Suc i) items"
        using True by (simp add: expired_mark_end)
      then show ?thesis using \<open>item = x\<close> by blast
    next
      case False
      have "batch_rows expired now i (x # items)
        = ('' '' @ itoa (int i) @ '')'') @ CHR '' '' # relayNonce x @ '' '' @ rh_Text x @ batch_rows expired now (Suc i) items"
        using False by simp
      then show ?thesis using \<open>item = x\<close> by blast
    qed
  next
    case False
    then obtain xs rest where "batch_rows expired now (Suc i) items = xs @ CHR '' '' # relayNonce item @ rest"
      using Cons by (metis set_ConsD)
    then have "batch_rows expired now i (x # items) = ('' '' @ itoa (int i) @ '')'' @ '' '' @ (if expired then expired_mark now x else [])
       @ relayNonce x @ '' '' @ rh_Text x @ xs) @ CHR '' '' # relayNonce item @ rest" by simp
    then show ?thesis by blast
  qed
qed simp

lemma batch_text_nonces:
  assumes "item \<in> set items"
  shows "relayNonce item \<in> set (relayNoncesIn (relayBatchText items expired now))"
proof (cases "\<exists>x. items = [x]")
  case True
  then have one: "items = [item]" using assms by auto
  show ?thesis
  proof (cases expired)
    case True
    have "relayBatchText items expired now = butlast (expired_mark now item) @ CHR '' '' # relayNonce item @ '' '' @ rh_Text item"
      using True one by (simp add: relayBatchText_def expired_mark_end)
    then show ?thesis using nonce_after_space by simp
  next
    case False
    then show ?thesis using nonce_at_head by (simp add: relayBatchText_def one)
  qed
next
  case False
  then have "relayBatchText items expired now
      = (''[batch '' @ itoa (int (length items)) @ utf8 [0xea, 0xb1, 0xb4] @ '']'') @ batch_rows expired now 1 items"
    using assms by (auto simp: relayBatchText_def split: list.splits)
  moreover obtain xs rest where "batch_rows expired now 1 items = xs @ CHR '' '' # relayNonce item @ rest"
    using batch_rows_nonces [OF assms] by blast
  ultimately have "relayBatchText items expired now
      = ((''[batch '' @ itoa (int (length items)) @ utf8 [0xea, 0xb1, 0xb4] @ '']'') @ xs) @ CHR '' '' # relayNonce item @ rest" by simp
  then show ?thesis by (simp only: nonce_after_space)
qed


definition sample_row :: "int \<Rightarrow> string \<Rightarrow> relayHeld" where
  "sample_row i text = \<lparr>rh_Pane = ''w1:p1'', rh_Lane = ''ops'', rh_JobID = ''j'', rh_Text = text, rh_DeliverPolicy = ''idle'', rh_EventID = i,
     rh_HeldSince = 0, rh_MaxWait = 1800000000000, rh_RecvSeq = i, rh_Edited = False, rh_fresh = True, rh_Attempts = 0, rh_Lease = []\<rparr>"

lemma sample_groups:
  "relayBatchGroups [sample_row 7 ''a'', sample_row 8 ''b''] False 0 = [[sample_row 7 ''a'', sample_row 8 ''b'']]"
proof -
  have l: "length (relayNonceCheck i t) = 4" for i t using base36_chars by (simp add: relayNonceCheck_def)
  have d: "itoa 1 = ''1''" "itoa 2 = ''2''" "itoa 7 = ''7''" "itoa 8 = ''8''" by code_simp+
  show ?thesis
    by (simp add: relayBatchGroups_def batch_add_def sample_row_def relayGroupImmediate_def immediate_row_def relayDeliverDirective_def
        relayBatchTextLimit_def relayBatchText_def relayNonce_def l d utf8_def)
qed


end
