(* ===== verification/Relay_Screen.thy ===== *)
theory Relay_Screen
  imports Relay_Nonce
begin

text \<open>
  What the relay reads off a pane: where the composer of a harness is (\<open>src/prompt.go\<close>), the table of
  harnesses (\<open>src/relay_harness_adapter.go\<close>), and the rules that turn the reads of a pane into a
  verdict on one injected text (\<open>src/hub_client.go\<close>). A screen is its text; glyphs outside ASCII are
  written as their bytes.
\<close>

section \<open>Dividers and composers\<close>

definition rule_glyph :: string where "rule_glyph = utf8 [0xe2, 0x94, 0x80]"
definition claude_glyph :: string where "claude_glyph = utf8 [0xe2, 0x9d, 0xaf]"
definition devin_glyph :: string where "devin_glyph = utf8 [0xe2, 0x9d, 0xad]"
definition codex_glyph :: string where "codex_glyph = utf8 [0xe2, 0x80, 0xba]"

definition eight_rules :: string where
  "eight_rules = concat (replicate 8 rule_glyph)"

definition isDividerLine :: "string \<Rightarrow> bool" where
  "isDividerLine line \<longleftrightarrow> Contains line rule_glyph \<and> list_all (\<lambda>r. r \<in> {'' '', [CHR 0x09], rule_glyph}) (runes line)"

definition isClaudeDividerLine :: "string \<Rightarrow> bool" where
  "isClaudeDividerLine line \<longleftrightarrow>
     (let trimmed = TrimSpace line
      in isDividerLine line \<or> (has_prefix trimmed eight_rules \<and> has_suffix trimmed rule_glyph))"

definition isDevinDividerLine :: "string \<Rightarrow> bool" where
  "isDevinDividerLine line \<longleftrightarrow> isDividerLine line \<or> has_prefix (TrimSpace line) eight_rules"

definition positions :: "(string \<Rightarrow> bool) \<Rightarrow> string list \<Rightarrow> nat list" where
  "positions P lines = filter (\<lambda>i. P (lines ! i)) [0..<length lines]"

definition composerStartWith :: "string list \<Rightarrow> (string \<Rightarrow> bool) \<Rightarrow> nat option" where
  "composerStartWith lines isDivider =
     (let dividers = positions isDivider lines
      in if length dividers < 2 then None else Some (dividers ! (length dividers - 2)))"

definition composerRegionWith :: "string \<Rightarrow> (string \<Rightarrow> bool) \<Rightarrow> string option" where
  "composerRegionWith screen isDivider =
     (let lines = split_lines screen
      in case composerStartWith lines isDivider of
           None \<Rightarrow> None
         | Some start \<Rightarrow> Some (join_lines (takeWhile (\<lambda>l. \<not> isDivider l) (drop (start + 1) lines))))"

text \<open>\<open>promptComposer\<close>: the rows of the composer, from the top edge to the bottom edge.\<close>

definition two_edges :: "(string \<Rightarrow> bool) \<Rightarrow> string \<Rightarrow> string list \<Rightarrow> (nat \<times> nat) option" where
  "two_edges isEdge glyph lines =
     (let edges = positions (\<lambda>l. l \<noteq> [] \<and> hd (runes l) \<notin> set space_runes \<and> isEdge l) lines
      in if length edges < 2 then None
         else let upper = edges ! (length edges - 2); bottom = last edges;
                  rows = filter (\<lambda>l. TrimSpace l \<noteq> []) (take (bottom - (upper + 1)) (drop (upper + 1) lines))
              in if rows \<noteq> [] \<and> has_prefix (hd rows) glyph then Some (upper, bottom) else None)"

definition promptComposer :: "string \<Rightarrow> string list \<Rightarrow> (nat \<times> nat) option" where
  "promptComposer harness lines =
     (if EqualFold harness ''claude'' \<or> EqualFold harness ''cmd'' then two_edges isClaudeDividerLine claude_glyph lines
      else if EqualFold harness ''devin'' then two_edges isDevinDividerLine devin_glyph lines
      else if EqualFold harness ''codex''
      then (case positions (\<lambda>l. has_prefix l codex_glyph) lines of [] \<Rightarrow> None | is \<Rightarrow> Some (last is, length lines))
      else None)"

definition promptTranscript :: "string \<Rightarrow> string \<Rightarrow> string" where
  "promptTranscript harness screen =
     (case promptComposer harness (split_lines screen) of
        Some (upper, _) \<Rightarrow> join_lines (take upper (split_lines screen))
      | None \<Rightarrow> screen)"

text \<open>\<^verbatim>\<open>\[Pasted text #[^\]]+\]\<close>\<close>

fun pasteChipRE :: "string \<Rightarrow> bool" where
  "pasteChipRE [] = False"
| "pasteChipRE (c # cs) =
     ((has_prefix (c # cs) ''[Pasted text #''
        \<and> (let rest = drop 14 (c # cs); name = takeWhile (\<lambda>d. d \<noteq> CHR '']'') rest in name \<noteq> [] \<and> length name < length rest))
      \<or> pasteChipRE cs)"

text \<open>\<^verbatim>\<open>^\[Pastedtext#\d+(?:\+\d+lines?)?\]$\<close>\<close>

definition relayComposerSoleChipRE :: "string \<Rightarrow> bool" where
  "relayComposerSoleChipRE s \<longleftrightarrow> has_prefix s ''[Pastedtext#''
     \<and> (let digits = takeWhile is_digit (drop 12 s); rest = dropWhile is_digit (drop 12 s);
            more = takeWhile is_digit (drop 1 rest); tail = dropWhile is_digit (drop 1 rest)
        in digits \<noteq> [] \<and> (rest = '']'' \<or> (has_prefix rest ''+'' \<and> more \<noteq> [] \<and> (tail = ''line]'' \<or> tail = ''lines]''))))"

text \<open>A rule glyph, repeated, is skipped; \<^verbatim>\<open>^R+[ \t]*\d+[ \t]+queued\b\<close> with the rule glyph for R.\<close>

fun skip_glyphs :: "nat \<Rightarrow> string \<Rightarrow> string" where
  "skip_glyphs 0 s = s"
| "skip_glyphs (Suc n) s = (if has_prefix s rule_glyph then skip_glyphs n (drop (length rule_glyph) s) else s)"

definition blank :: "char \<Rightarrow> bool" where
  "blank c \<longleftrightarrow> c = CHR '' '' \<or> c = CHR 0x09"

definition devinQueueBannerRE :: "string \<Rightarrow> bool" where
  "devinQueueBannerRE line \<longleftrightarrow> has_prefix line rule_glyph
     \<and> (let s = dropWhile blank (skip_glyphs (length line) line); after = dropWhile is_digit s; t = dropWhile blank after
        in takeWhile is_digit s \<noteq> [] \<and> takeWhile blank after \<noteq> [] \<and> has_prefix t ''queued''
           \<and> (length t \<le> 6 \<or> \<not> isASCIIWordByte (t ! 6)))"

text \<open>The search upwards from the composer stops at an echo or at a banner.\<close>

fun banner_above :: "string list \<Rightarrow> bool" where
  "banner_above [] = False"
| "banner_above (line # rest) =
     (if has_prefix line devin_glyph then False else if devinQueueBannerRE line then True else banner_above rest)"

definition devinQueued :: "string \<Rightarrow> bool" where
  "devinQueued screen \<longleftrightarrow>
     (case composerRegionWith screen isDevinDividerLine of Some region \<Rightarrow> Contains region ''send queued messages now'' | None \<Rightarrow> False)
     \<or> (let lines = split_lines screen;
            upto = (case composerStartWith lines isDevinDividerLine of Some start \<Rightarrow> start | None \<Rightarrow> length lines)
        in banner_above (rev (take upto lines)))"


section \<open>Harnesses\<close>

datatype relayProof = relayProofNone | relayProofTranscriptEcho | relayProofEchoAndWorking

record relayHarnessAdapter =
  composerEdge :: "(string \<Rightarrow> bool) option"
  composerGlyph :: string
  queued :: "(string \<Rightarrow> bool) option"
  proof_rule :: relayProof
  paneTransport :: bool
  workingUnprovable :: bool
  observe :: bool
  maxAttempts :: int

definition relayMaxInjectAttempts :: int where "relayMaxInjectAttempts = 3"
definition relayDevinMaxInjectAttempts :: int where "relayDevinMaxInjectAttempts = 2"

definition relayQueuedClaudeCodex :: "string \<Rightarrow> bool" where
  "relayQueuedClaudeCodex screen \<longleftrightarrow> Contains screen ''Press up to edit queued messages''
     \<or> Contains screen ''Messages to be submitted after next tool call''"

definition no_adapter :: relayHarnessAdapter where
  "no_adapter = \<lparr>composerEdge = None, composerGlyph = [], queued = None, proof_rule = relayProofNone, paneTransport = False,
     workingUnprovable = False, observe = False, maxAttempts = 0\<rparr>"

definition relayHarnessAdapters :: "(string \<times> relayHarnessAdapter) list" where
  "relayHarnessAdapters =
     [(''claude'', no_adapter\<lparr>composerEdge := Some isClaudeDividerLine, composerGlyph := claude_glyph,
         queued := Some relayQueuedClaudeCodex, proof_rule := relayProofTranscriptEcho, observe := True\<rparr>),
      (''codex'', no_adapter\<lparr>queued := Some relayQueuedClaudeCodex, proof_rule := relayProofTranscriptEcho, observe := True\<rparr>),
      (''devin'', no_adapter\<lparr>composerEdge := Some isDevinDividerLine, composerGlyph := devin_glyph, queued := Some devinQueued,
         proof_rule := relayProofTranscriptEcho, maxAttempts := relayDevinMaxInjectAttempts\<rparr>),
      (''grok'', no_adapter\<lparr>proof_rule := relayProofEchoAndWorking, observe := True\<rparr>),
      (''omp'', no_adapter\<lparr>proof_rule := relayProofEchoAndWorking, observe := True\<rparr>),
      (''cmd'', no_adapter\<lparr>composerEdge := Some isClaudeDividerLine, composerGlyph := claude_glyph,
         proof_rule := relayProofEchoAndWorking, observe := True, paneTransport := True, workingUnprovable := True\<rparr>)]"

definition relayAdapterFor :: "string \<Rightarrow> relayHarnessAdapter option" where
  "relayAdapterFor harness = map_of relayHarnessAdapters (ToLower (TrimSpace harness))"

definition injectAttempts :: "relayHarnessAdapter \<Rightarrow> int" where
  "injectAttempts a = (if maxAttempts a > 0 then maxAttempts a else relayMaxInjectAttempts)"

definition relayHarnessWorkingUnprovable :: "string \<Rightarrow> bool" where
  "relayHarnessWorkingUnprovable harness = (case relayAdapterFor harness of Some a \<Rightarrow> workingUnprovable a | None \<Rightarrow> False)"

definition relayPaneWorkingUnprovable :: "string \<Rightarrow> string \<Rightarrow> bool" where
  "relayPaneWorkingUnprovable status harness \<longleftrightarrow> status = ''working'' \<and> relayHarnessWorkingUnprovable harness"

definition harnessPaneTransport :: "string \<Rightarrow> bool" where
  "harnessPaneTransport harness = (case relayAdapterFor harness of Some a \<Rightarrow> paneTransport a | None \<Rightarrow> False)"

definition relayQueuedBanner :: "string \<Rightarrow> string \<Rightarrow> bool" where
  "relayQueuedBanner harness screen =
     (case relayAdapterFor harness of Some a \<Rightarrow> (case queued a of Some q \<Rightarrow> q screen | None \<Rightarrow> False) | None \<Rightarrow> False)"

definition TrimPrefix :: "string \<Rightarrow> string \<Rightarrow> string" where
  "TrimPrefix s p = (if has_prefix s p then drop (length p) s else s)"

definition relayComposer :: "string \<Rightarrow> string \<Rightarrow> string option" where
  "relayComposer harness screen =
     (case relayAdapterFor harness of
        None \<Rightarrow> None
      | Some a \<Rightarrow>
          (case composerEdge a of
             None \<Rightarrow> None
           | Some edge \<Rightarrow>
               (case composerRegionWith screen edge of
                  None \<Rightarrow> None
                | Some region \<Rightarrow> Some (TrimPrefix (compactWhitespace region) (composerGlyph a)))))"

end
