(* ===== verification/Relay_Inject.thy ===== *)
theory Relay_Inject
  imports Relay_Screen
begin

text \<open>
  One injection of a text into a pane (\<open>src/hub_client.go\<close>): reads of the pane before the text is
  typed, the text, at most one return, and reads afterwards that prove what happened. The answers of
  the external program are inputs: a read that failed is None, and a loop that re-reads the pane until
  a deadline takes the list of its re-reads. What is typed or pressed is a list of keys. The lemmas
  show which keys an injection may send and what a verdict means.
\<close>

section \<open>Reads of a pane\<close>

datatype relayInjectOutcome = relayInjectDelivered | relayInjectRetryable | relayInjectMaybeInPane | relayInjectQueued

record relayInjectResult =
  ri_Outcome :: relayInjectOutcome
  ri_Harness :: string
  ri_Evidence :: string
  ri_Proven :: "string list option"

datatype key = SendText string | SendReturn

record relayPaneReads =
  visible :: string
  unwrapped :: string
  anyOK :: bool
  visibleOK :: bool
  status :: string
  presendStatus :: string

text \<open>The answers to one round of reads; the status is None when the call failed or its output did not decode.\<close>

record pane_answer =
  an_visible :: "string option"
  an_unwrapped :: "string option"
  an_status :: "string option"

definition parseRelayAgentStatus :: "string option \<Rightarrow> string option" where
  "parseRelayAgentStatus decoded =
     (case decoded of
        None \<Rightarrow> None
      | Some s \<Rightarrow> if s \<in> {''idle'', ''working'', ''blocked'', ''done'', ''unknown''} then Some s else None)"

definition str_of :: "string option \<Rightarrow> string" where
  "str_of x = (case x of None \<Rightarrow> [] | Some s \<Rightarrow> s)"

definition needs_status :: "string \<Rightarrow> bool" where
  "needs_status harness = (case relayAdapterFor harness of Some a \<Rightarrow> proof_rule a = relayProofEchoAndWorking | None \<Rightarrow> False)"

definition relayReadPane :: "string \<Rightarrow> pane_answer \<Rightarrow> relayPaneReads" where
  "relayReadPane harness a =
     \<lparr>visible = str_of (an_visible a), unwrapped = str_of (an_unwrapped a),
      anyOK = (an_visible a \<noteq> None \<or> an_unwrapped a \<noteq> None), visibleOK = (an_visible a \<noteq> None),
      status = (if needs_status harness then str_of (parseRelayAgentStatus (an_status a)) else []), presendStatus = []\<rparr>"

definition withPresend :: "relayPaneReads \<Rightarrow> relayPaneReads \<Rightarrow> relayPaneReads" where
  "withPresend reads presend = reads\<lparr>presendStatus := status presend\<rparr>"

definition relayTranscriptNonces :: "string \<Rightarrow> relayPaneReads \<Rightarrow> string list \<Rightarrow> string \<times> string list" where
  "relayTranscriptNonces harness reads nonces =
     (let p1 = relayNonceProvenIn (promptTranscript harness (visible reads)) nonces;
          p2 = relayNonceProvenIn (promptTranscript harness (unwrapped reads)) nonces;
          source = (if p1 \<noteq> [] then ''visible'' else [])
      in (if p2 = [] then source else if source = [] then ''recent-unwrapped'' else source @ ''+recent-unwrapped'',
          relayNonceUnion (relayNonceUnion [] p1) p2))"

definition residue :: "string \<Rightarrow> string \<Rightarrow> string list \<Rightarrow> bool" where
  "residue composer text nonces \<longleftrightarrow> Contains composer ''[Pastedtext#'' \<or> (text \<noteq> [] \<and> Contains composer (compactWhitespace text))
     \<or> list_ex (relayNonceTokenIn composer) nonces"

definition relayClassifyReads :: "string \<Rightarrow> relayPaneReads \<Rightarrow> string \<Rightarrow> bool \<Rightarrow> bool \<Rightarrow> string \<times> string \<times> string list" where
  "relayClassifyReads harness reads text postSend presendQueued =
     (let nonces = relayNoncesIn text;
          pending = (case relayComposer harness (visible reads) of
            Some composer \<Rightarrow> if residue composer text nonces then ''composer_divider'' else []
          | None \<Rightarrow> if pasteChipRE (visible reads) then ''paste_chip'' else []);
          (source, proven) = relayTranscriptNonces harness reads nonces
      in if pending \<noteq> [] then (''composer_residue'', pending, [])
         else case relayAdapterFor harness of
           None \<Rightarrow> (''unproven'', ''none'', [])
         | Some a \<Rightarrow>
             if proof_rule a = relayProofNone then (''unproven'', ''none'', [])
             else if proof_rule a = relayProofEchoAndWorking
             then let started = (status reads = ''working'' \<and> (presendStatus reads = ''idle'' \<or> presendStatus reads = ''done''))
                  in if postSend \<and> proven \<noteq> [] \<and> started then (''marker_observed'', source @ '':nonce_echo+status_working'', proven)
                     else (''unproven'', ''none'', [])
             else if postSend \<and> \<not> presendQueued \<and> relayQueuedBanner harness (visible reads) \<and> proven \<noteq> []
             then (''queued'', ''queued_banner'', proven)
             else if proven \<noteq> [] then (''marker_observed'', source @ '':nonce_echo'', proven)
             else (''unproven'', ''none'', []))"

definition relayComposerState :: "string \<Rightarrow> string \<Rightarrow> string" where
  "relayComposerState harness screen =
     (case relayComposer harness screen of
        None \<Rightarrow> ''composer_unlocated'' | Some content \<Rightarrow> if content \<noteq> [] then ''composer_pending'' else ''composer_empty'')"

definition maybe_in_pane :: "string \<Rightarrow> string \<Rightarrow> relayInjectResult" where
  "maybe_in_pane harness evidence =
     \<lparr>ri_Outcome = relayInjectMaybeInPane, ri_Harness = harness, ri_Evidence = evidence, ri_Proven = None\<rparr>"

definition relayUnproven :: "string \<Rightarrow> relayPaneReads \<Rightarrow> string \<Rightarrow> relayInjectResult" where
  "relayUnproven harness reads prefix =
     maybe_in_pane harness (prefix @ ''unproven:'' @
       (if \<not> anyOK reads then ''read_failed''
        else if (case relayAdapterFor harness of None \<Rightarrow> True | Some a \<Rightarrow> proof_rule a = relayProofNone) then ''no_adapter''
        else relayComposerState harness (visible reads)))"


section \<open>The return\<close>

definition devinComposerQueueHint :: string where
  "devinComposerQueueHint = ''Press Enter to send queued messages now''"

definition relayComposerReturnSafe :: "string \<Rightarrow> string \<Rightarrow> string \<Rightarrow> string \<Rightarrow> bool \<times> string" where
  "relayComposerReturnSafe harness screen text before =
     (case relayComposer harness screen of
        None \<Rightarrow> (False, ''composer_unlocated'')
      | Some content \<Rightarrow>
          if content = [] then (True, ''composer_empty'')
          else if content = compactWhitespace text then (True, ''composer_self'')
          else if relayComposerSoleChipRE content
          then (case relayComposer harness before of
                  None \<Rightarrow> (False, ''composer_chip_unowned'')
                | Some prior \<Rightarrow> if Contains prior ''[Pastedtext#'' then (False, ''composer_chip_unowned'') else (True, ''composer_self_chip''))
          else if EqualFold harness ''devin'' \<and> content = compactWhitespace devinComposerQueueHint
          then (if relayComposer harness before = None \<or> devinQueued before then (False, ''composer_queue_unowned'')
                else (True, ''composer_queue_hint''))
          else (False, ''composer_foreign''))"

definition relayComposerStillDrawing :: "string \<Rightarrow> string \<Rightarrow> string \<Rightarrow> string \<Rightarrow> bool" where
  "relayComposerStillDrawing harness screen text before =
     (case relayComposer harness screen of
        None \<Rightarrow> False
      | Some content \<Rightarrow>
          (length content < length (compactWhitespace text) \<and> has_prefix (compactWhitespace text) content)
          \<or> relayComposer harness before = Some content)"

text \<open>
  \<open>relayCmdReturnGate\<close>: the re-reads the draw window allows, in order; None is a read that failed, and
  the list ends when the window has passed or the context is done.
\<close>

fun gate_loop :: "string \<Rightarrow> string \<Rightarrow> string \<Rightarrow> string \<Rightarrow> string option list \<Rightarrow> bool \<times> string" where
  "gate_loop harness text before screen [] = relayComposerReturnSafe harness screen text before"
| "gate_loop harness text before screen (r # rs) =
     (let (safe, why) = relayComposerReturnSafe harness screen text before
      in if (why = ''composer_foreign'' \<or> why = ''composer_empty'') \<and> relayComposerStillDrawing harness screen text before
         then (case r of None \<Rightarrow> (False, ''composer_unread'') | Some next \<Rightarrow> gate_loop harness text before next rs)
         else (safe, why))"

definition relayCmdReturnGate :: "string \<Rightarrow> string \<Rightarrow> string \<Rightarrow> string \<Rightarrow> string option list \<Rightarrow> bool \<times> string" where
  "relayCmdReturnGate harness text before screen rereads = gate_loop harness text before screen rereads"

text \<open>The return a verification may press, and the reads after it.\<close>

record verify_io =
  vio_return :: bool
  vio_after :: pane_answer

definition verdict :: "string \<Rightarrow> string \<Rightarrow> string \<times> string \<times> string list \<Rightarrow> relayPaneReads \<Rightarrow> relayInjectResult" where
  "verdict harness prefix c reads =
     (case c of (result, rule, proven) \<Rightarrow>
        if result = ''marker_observed''
        then \<lparr>ri_Outcome = relayInjectDelivered, ri_Harness = harness, ri_Evidence = prefix @ rule, ri_Proven = Some proven\<rparr>
        else if result = ''queued''
        then \<lparr>ri_Outcome = relayInjectQueued, ri_Harness = harness, ri_Evidence = prefix @ rule, ri_Proven = Some proven\<rparr>
        else if result = ''composer_residue'' then maybe_in_pane harness (prefix @ rule)
        else relayUnproven harness reads prefix)"

definition relayVerifyOutcome ::
  "string \<Rightarrow> string \<Rightarrow> string \<Rightarrow> string \<Rightarrow> bool \<Rightarrow> bool \<Rightarrow> relayPaneReads \<Rightarrow> verify_io \<Rightarrow> relayInjectResult \<times> key list" where
  "relayVerifyOutcome harness text before prefix presendQueued returnSpent reads io =
     (let c = relayClassifyReads harness reads text True presendQueued
      in if fst c = ''composer_residue'' \<and> returnSpent then (relayUnproven harness reads prefix, [])
         else if fst c = ''composer_residue''
         then let (safe, why) = relayComposerReturnSafe harness (visible reads) text before
              in if \<not> safe then (maybe_in_pane harness (prefix @ ''return_withheld:'' @ why), [])
                 else if \<not> vio_return io then (maybe_in_pane harness (prefix @ ''return_failed''), [SendReturn])
                 else let presendQueued2 = (presendQueued \<or> \<not> visibleOK reads \<or> relayQueuedBanner harness (visible reads));
                          reads2 = withPresend (relayReadPane harness (vio_after io)) reads;
                          prefix2 = prefix @ ''after_return:''
                      in (verdict harness prefix2 (relayClassifyReads harness reads2 text True presendQueued2) reads2, [SendReturn])
         else (verdict harness prefix c reads, []))"


section \<open>One injection\<close>

text \<open>
  The answers of one injection, in the order of the calls: the reads before the text, the screen with
  its attributes as the composer rule for a pane-level harness classifies it (\<open>relayAnsiComposerState\<close>),
  whether the text was taken, the read behind the text with the re-reads of the gate and the outcome
  of the return for a pane-level harness, the reads of the verification, its return, and the reads of
  the observation window.
\<close>

record inject_io =
  io_presend :: pane_answer
  io_ansi :: "string option"
  io_sent :: bool
  io_after :: pane_answer
  io_rereads :: "string option list"
  io_return :: bool
  io_verify :: pane_answer
  io_verify_io :: verify_io
  io_observed :: "pane_answer list"

fun observe_loop :: "string \<Rightarrow> string \<Rightarrow> bool \<Rightarrow> relayPaneReads \<Rightarrow> relayInjectResult \<Rightarrow> pane_answer list \<Rightarrow> relayInjectResult" where
  "observe_loop harness text presendQueued presend result [] = result"
| "observe_loop harness text presendQueued presend result (a # as) =
     (let (classification, rule, proven) =
            relayClassifyReads harness (withPresend (relayReadPane harness a) presend) text True presendQueued
      in if classification = ''marker_observed''
         then \<lparr>ri_Outcome = relayInjectDelivered, ri_Harness = harness, ri_Evidence = rule, ri_Proven = Some proven\<rparr>
         else if classification = ''queued''
         then \<lparr>ri_Outcome = relayInjectQueued, ri_Harness = harness, ri_Evidence = rule, ri_Proven = Some proven\<rparr>
         else observe_loop harness text presendQueued presend result as)"

definition settle_spent :: "bool \<Rightarrow> relayInjectResult \<Rightarrow> relayInjectResult" where
  "settle_spent returnSpent final =
     (if returnSpent \<and> ri_Outcome final = relayInjectMaybeInPane \<and> has_suffix (ri_Evidence final) ''unproven:composer_pending''
      then final\<lparr>ri_Evidence := ''return_unconfirmed:composer_pending''\<rparr> else final)"

text \<open>What follows once the text was taken and, for a pane-level harness, the return is spent.\<close>

definition inject_verified :: "string \<Rightarrow> string \<Rightarrow> bool \<Rightarrow> bool \<Rightarrow> relayPaneReads \<Rightarrow> inject_io \<Rightarrow> relayInjectResult \<times> key list" where
  "inject_verified harness text presendQueued returnSpent presend io =
     (let (result, keys) = relayVerifyOutcome harness text (visible presend) [] presendQueued returnSpent
            (withPresend (relayReadPane harness (io_verify io)) presend) (io_verify_io io);
          observes = (case relayAdapterFor harness of Some a \<Rightarrow> observe a | None \<Rightarrow> False)
      in (settle_spent returnSpent
            (if \<not> observes \<or> \<not> has_prefix (ri_Evidence result) ''unproven:'' \<or> relayNoncesIn text = [] then result
             else observe_loop harness text presendQueued presend result (io_observed io)), keys))"

definition inject_general :: "string \<Rightarrow> string \<Rightarrow> (string \<Rightarrow> bool) option \<Rightarrow> inject_io \<Rightarrow> relayInjectResult \<times> key list" where
  "inject_general harness text guard io =
     (let presend = relayReadPane harness (io_presend io);
          presendQueued = relayQueuedBanner harness (visible presend);
          transport = harnessPaneTransport harness
      in if \<not> visibleOK presend then (maybe_in_pane harness ''presend:unproven:read_failed'', [])
         else if (case guard of None \<Rightarrow> False | Some g \<Rightarrow> \<not> g (visible presend)) then (maybe_in_pane harness ''presend:guard_rejected'', [])
         else if fst (relayClassifyReads harness presend text False presendQueued) = ''composer_residue''
         then relayVerifyOutcome harness text [] ''presend:'' presendQueued False presend (io_verify_io io)
         else if transport \<and> io_ansi io = None then (maybe_in_pane harness ''presend:unproven:read_failed'', [])
         else if transport \<and> io_ansi io \<noteq> Some ''composer_empty'' then (maybe_in_pane harness (''presend:'' @ str_of (io_ansi io)), [])
         else if \<not> io_sent io
         then (if transport then (maybe_in_pane harness ''send_text_failed'', [SendText text])
               else (\<lparr>ri_Outcome = relayInjectRetryable, ri_Harness = harness, ri_Evidence = ''prompt_failed'', ri_Proven = None\<rparr>, [SendText text]))
         else if \<not> transport
         then (case inject_verified harness text presendQueued False presend io of (r, ks) \<Rightarrow> (r, SendText text # ks))
         else let after = relayReadPane harness (io_after io)
              in if \<not> visibleOK after then (maybe_in_pane harness ''return_withheld:composer_unread'', [SendText text])
                 else let (safe, why) = relayCmdReturnGate harness text (visible presend) (visible after) (io_rereads io)
                      in if \<not> safe then (maybe_in_pane harness (''return_withheld:'' @ why), [SendText text])
                         else if \<not> io_return io then (maybe_in_pane harness ''return_failed'', [SendText text, SendReturn])
                         else (case inject_verified harness text presendQueued True presend io of
                                 (r, ks) \<Rightarrow> (r, SendText text # SendReturn # ks)))"


section \<open>The path of devin\<close>

record devinPaneRead =
  dv_visible :: string
  dv_unwrapped :: string

text \<open>
  \<open>devinPaneRead.classify\<close>: a composer with residue first, then a queue in the first source that shows
  a token, then an echo in either source.
\<close>

definition devin_residue :: "string \<Rightarrow> string \<Rightarrow> string list \<Rightarrow> bool" where
  "devin_residue screen text nonces =
     (case composerRegionWith screen isDevinDividerLine of
        None \<Rightarrow> False
      | Some region \<Rightarrow> (text \<noteq> [] \<and> Contains (compactWhitespace region) (compactWhitespace text))
          \<or> list_ex (relayNonceTokenIn (compactWhitespace region)) nonces)"

definition devin_classify :: "devinPaneRead \<Rightarrow> string \<Rightarrow> string list \<Rightarrow> string \<times> string \<times> string list" where
  "devin_classify read text nonces =
     (let p1 = relayNonceProvenIn (promptTranscript ''devin'' (dv_visible read)) nonces;
          p2 = relayNonceProvenIn (promptTranscript ''devin'' (dv_unwrapped read)) nonces;
          seen = (if p1 \<noteq> [] \<and> p2 \<noteq> [] then ''visible+recent-unwrapped'' else if p1 \<noteq> [] then ''visible'' else ''recent-unwrapped'')
      in if devin_residue (dv_visible read) text nonces then (''composer_residue'', ''visible:composer_divider'', [])
         else if devin_residue (dv_unwrapped read) text nonces then (''composer_residue'', ''recent-unwrapped:composer_divider'', [])
         else if devinQueued (dv_visible read) \<and> p1 \<noteq> [] then (''queued'', ''visible:devin_queue_banner'', p1)
         else if devinQueued (dv_unwrapped read) \<and> p2 \<noteq> [] then (''queued'', ''recent-unwrapped:devin_queue_banner'', p2)
         else if p1 \<noteq> [] \<or> p2 \<noteq> [] then (''marker_observed'', seen @ '':nonce_echo'', relayNonceUnion (relayNonceUnion [] p1) p2)
         else (''unproven'', ''visible+recent-unwrapped:none'', []))"

definition devinComposerHolds :: "string \<Rightarrow> string \<Rightarrow> string list \<Rightarrow> bool" where
  "devinComposerHolds screen text nonces = devin_residue screen text nonces"

text \<open>
  \<open>devinBusy\<close> and \<open>devinActivity\<close>; \<open>spinner\<close> is the regular expression of the activity line, whose
  letters are those of Unicode.
\<close>

fun activity_above :: "(string \<Rightarrow> bool) \<Rightarrow> string list \<Rightarrow> bool" where
  "activity_above spinner [] = False"
| "activity_above spinner (line # rest) =
     (if has_prefix line devin_glyph then False
      else if spinner (TrimSpace line) \<or> Contains (compactWhitespace line) ''(esctwicetointerrupt)'' then True
      else activity_above spinner rest)"

definition devinActivity :: "(string \<Rightarrow> bool) \<Rightarrow> string \<Rightarrow> string" where
  "devinActivity spinner screen =
     (let lines = split_lines screen
      in case composerStartWith lines isDevinDividerLine of
           Some start \<Rightarrow>
             if Contains (str_of (composerRegionWith screen isDevinDividerLine)) ''Guide Devin while it works'' then ''working_placeholder''
             else if activity_above spinner (rev (take start lines)) then ''spinner'' else []
         | None \<Rightarrow> if activity_above spinner (rev lines) then ''spinner'' else [])"

definition devinBusy :: "(string \<Rightarrow> bool) \<Rightarrow> string option \<Rightarrow> devinPaneRead \<Rightarrow> string" where
  "devinBusy spinner agent_status read =
     (let look = (\<lambda>name screen. if TrimSpace screen = [] then name @ '':empty''
            else if devinActivity spinner screen \<noteq> [] then name @ '':'' @ devinActivity spinner screen else [])
      in case agent_status of
           None \<Rightarrow> ''status_unknown''
         | Some s \<Rightarrow>
             if s = [] then ''status_unknown''
             else if EqualFold s ''working'' then ''agent_status_working''
             else if look ''visible'' (dv_visible read) \<noteq> [] then look ''visible'' (dv_visible read)
             else look ''recent-unwrapped'' (dv_unwrapped read))"

record devin_io =
  di_before :: "devinPaneRead option"
  di_sent :: bool
  di_after :: "devinPaneRead option"
  di_status :: "string option"
  di_return :: bool
  di_final :: "devinPaneRead option"

definition devin_result :: "relayInjectOutcome \<Rightarrow> string \<Rightarrow> string list option \<Rightarrow> relayInjectResult" where
  "devin_result outcome evidence proven = \<lparr>ri_Outcome = outcome, ri_Harness = ''devin'', ri_Evidence = evidence, ri_Proven = proven\<rparr>"

definition devin_submit ::
  "(string \<Rightarrow> bool) \<Rightarrow> string \<Rightarrow> devinPaneRead \<Rightarrow> devinPaneRead \<Rightarrow> devin_io \<Rightarrow> relayInjectResult \<times> key list" where
  "devin_submit spinner text before after io =
     (let nonces = relayNoncesIn text; (state, evidence, proven) = devin_classify after text nonces;
          busy = devinBusy spinner (di_status io) after;
          (safe, rule) = relayComposerReturnSafe ''devin'' (dv_visible after) text (dv_visible before)
      in if state = ''marker_observed'' then (devin_result relayInjectDelivered evidence (Some proven), [])
         else if state = ''unproven'' then (devin_result relayInjectMaybeInPane (''postsend:'' @ evidence) None, [])
         else if state = ''queued'' \<and> busy \<noteq> [] then (devin_result relayInjectQueued (evidence @ '' busy:'' @ busy) (Some proven), [])
         else if \<not> safe then (devin_result relayInjectMaybeInPane (evidence @ '' return_withheld:'' @ rule) None, [])
         else if \<not> di_return io then (devin_result relayInjectMaybeInPane (evidence @ '' return_failed'') None, [SendReturn])
         else case di_final io of
           None \<Rightarrow> (devin_result relayInjectMaybeInPane (evidence @ '' after_return:read_failed'') None, [SendReturn])
         | Some r \<Rightarrow>
             let (state2, evidence2, proven2) = devin_classify r text nonces
             in if state2 = ''marker_observed''
                then (devin_result relayInjectDelivered (evidence @ '' after_return:'' @ evidence2) (Some proven2), [SendReturn])
                else (devin_result relayInjectMaybeInPane (evidence @ '' after_return:'' @ evidence2) None, [SendReturn]))"

definition devinRelayInjectGuarded ::
  "(string \<Rightarrow> bool) \<Rightarrow> string \<Rightarrow> (string \<Rightarrow> bool) option \<Rightarrow> devin_io \<Rightarrow> relayInjectResult \<times> key list" where
  "devinRelayInjectGuarded spinner text guard io =
     (if relayNoncesIn text = [] then (devin_result relayInjectMaybeInPane ''presend:empty_nonce'' None, [])
      else case di_before io of
        None \<Rightarrow> (devin_result relayInjectMaybeInPane ''presend:read_failed'' None, [])
      | Some before \<Rightarrow>
          if (case guard of None \<Rightarrow> False | Some g \<Rightarrow> \<not> g (dv_visible before))
          then (devin_result relayInjectMaybeInPane ''presend:guard_rejected'' None, [])
          else if devinComposerHolds (dv_visible before) text (relayNoncesIn text) then devin_submit spinner text before before io
          else if \<not> di_sent io then (devin_result relayInjectRetryable ''prompt_failed'' None, [SendText text])
          else case di_after io of
            None \<Rightarrow> (devin_result relayInjectMaybeInPane ''postsend:read_failed'' None, [SendText text])
          | Some after \<Rightarrow> (case devin_submit spinner text before after io of (r, ks) \<Rightarrow> (r, SendText text # ks)))"

definition relayInjectForHarnessGuarded ::
  "(string \<Rightarrow> bool) \<Rightarrow> string \<Rightarrow> string \<Rightarrow> (string \<Rightarrow> bool) option \<Rightarrow> inject_io \<Rightarrow> devin_io \<Rightarrow> relayInjectResult \<times> key list" where
  "relayInjectForHarnessGuarded spinner harness text guard io dio =
     (if EqualFold harness ''devin'' then devinRelayInjectGuarded spinner text guard dio
      else inject_general harness text guard io)"

definition defaultHubRelayInjectVerdict ::
  "(string \<Rightarrow> bool) \<Rightarrow> string \<Rightarrow> string \<Rightarrow> string \<Rightarrow> inject_io \<Rightarrow> devin_io \<Rightarrow> relayInjectResult \<times> key list" where
  "defaultHubRelayInjectVerdict spinner harness after text io dio =
     (let (result, keys) = relayInjectForHarnessGuarded spinner harness text None io dio
      in if ri_Outcome result = relayInjectMaybeInPane then (result, keys)
         else if harness \<noteq> [] \<and> after \<noteq> [] \<and> \<not> EqualFold after harness
         then (maybe_in_pane after (''harness_changed:'' @ harness @ ''->'' @ after), keys)
         else (result, keys))"

definition parseRelayAgentHarness :: "(string \<times> string \<times> string) option \<Rightarrow> string" where
  "parseRelayAgentHarness decoded =
     (case decoded of
        None \<Rightarrow> []
      | Some (harness, kind, agent) \<Rightarrow>
          (case find (\<lambda>n. n \<noteq> []) (map (\<lambda>c. ToLower (TrimSpace c)) [harness, kind, agent]) of Some n \<Rightarrow> n | None \<Rightarrow> []))"


section \<open>What an injection may do and what its verdict means\<close>

definition landed :: "relayInjectResult \<Rightarrow> bool" where
  "landed r \<longleftrightarrow> ri_Outcome r = relayInjectDelivered \<or> ri_Outcome r = relayInjectQueued"

definition seen_on :: "string \<Rightarrow> string list \<Rightarrow> string \<Rightarrow> string list option \<Rightarrow> bool" where
  "seen_on harness screens text proven \<longleftrightarrow>
     (\<exists>ps. proven = Some ps \<and> ps \<noteq> [] \<and> (\<forall>p\<in>set ps. p \<in> set (relayNoncesIn text)
        \<and> (\<exists>screen\<in>set screens. relayNoncePresent (promptTranscript harness screen) p)))"

definition screens_of :: "pane_answer \<Rightarrow> string list" where
  "screens_of a = [str_of (an_visible a), str_of (an_unwrapped a)]"

lemma seen_on_mono: "seen_on harness screens text p \<Longrightarrow> set screens \<subseteq> set later \<Longrightarrow> seen_on harness later text p"
  unfolding seen_on_def by blast

lemma classify_seen:
  assumes "relayClassifyReads harness reads text post q = (result, rule, ps)" "result = ''marker_observed'' \<or> result = ''queued''"
  shows "seen_on harness [visible reads, unwrapped reads] text (Some ps)"
proof -
  obtain source proven where t: "relayTranscriptNonces harness reads (relayNoncesIn text) = (source, proven)" by (cases "relayTranscriptNonces harness reads (relayNoncesIn text)")
  have p: "\<forall>p\<in>set proven. p \<in> set (relayNoncesIn text) \<and> (relayNoncePresent (promptTranscript harness (visible reads)) p
     \<or> relayNoncePresent (promptTranscript harness (unwrapped reads)) p)"
    using t by (auto simp: relayTranscriptNonces_def Let_def)
  have "ps = proven \<and> proven \<noteq> []"
    using assms t by (auto simp: relayClassifyReads_def Let_def split: if_splits option.splits)
  then show ?thesis using p by (auto simp: seen_on_def)
qed

lemma verdict_landed:
  assumes "relayClassifyReads harness reads text post q = c" "landed (verdict harness prefix c reads)"
  shows "seen_on harness [visible reads, unwrapped reads] text (ri_Proven (verdict harness prefix c reads))"
proof -
  obtain result rule ps where c: "c = (result, rule, ps)" by (cases c) auto
  show ?thesis using assms c classify_seen [of harness reads "text" post q result rule ps]
    by (auto simp: verdict_def landed_def maybe_in_pane_def relayUnproven_def split: if_splits)
qed

lemma verdict_not_retryable [simp]: "ri_Outcome (verdict harness prefix c reads) \<noteq> relayInjectRetryable"
  by (auto simp: verdict_def maybe_in_pane_def relayUnproven_def split: prod.splits)

lemma reads_screens [simp]:
  "visible (relayReadPane harness a) = str_of (an_visible a)" "unwrapped (relayReadPane harness a) = str_of (an_unwrapped a)"
  "visible (withPresend r p) = visible r" "unwrapped (withPresend r p) = unwrapped r"
  by (simp_all add: withPresend_def relayReadPane_def)

lemma maybe_outcome [simp]: "ri_Outcome (maybe_in_pane h e) = relayInjectMaybeInPane" "ri_Outcome (relayUnproven h r p) = relayInjectMaybeInPane"
  by (simp_all add: maybe_in_pane_def relayUnproven_def)

text \<open>A screen on which the one return can only submit the text of this injection.\<close>

definition own_composer :: "string \<Rightarrow> string \<Rightarrow> string \<Rightarrow> bool" where
  "own_composer harness text screen \<longleftrightarrow>
     (case relayComposer harness screen of
        None \<Rightarrow> False
      | Some c \<Rightarrow> c = [] \<or> c = compactWhitespace text \<or> relayComposerSoleChipRE c
          \<or> (EqualFold harness ''devin'' \<and> c = compactWhitespace devinComposerQueueHint))"

lemma safe_own_composer: "fst (relayComposerReturnSafe harness screen text before) \<Longrightarrow> own_composer harness text screen"
  by (auto simp: relayComposerReturnSafe_def own_composer_def split: option.splits if_splits)

lemma verify_keys:
  assumes "relayVerifyOutcome harness text before prefix q spent reads io = (r, ks)"
  shows "ri_Outcome r \<noteq> relayInjectRetryable"
    and "ks = [] \<or> (ks = [SendReturn] \<and> \<not> spent \<and> fst (relayComposerReturnSafe harness (visible reads) text before))"
    and "landed r \<Longrightarrow> seen_on harness (if ks = [] then [visible reads, unwrapped reads] else screens_of (vio_after io)) text (ri_Proven r)"
    and "landed r \<Longrightarrow> ks = [] \<Longrightarrow> fst (relayClassifyReads harness reads text True q) \<noteq> ''composer_residue''"
proof -
  let ?c = "relayClassifyReads harness reads text True q"
  obtain safe why where w: "relayComposerReturnSafe harness (visible reads) text before = (safe, why)"
    by (cases "relayComposerReturnSafe harness (visible reads) text before")
  let ?q2 = "q \<or> \<not> visibleOK reads \<or> relayQueuedBanner harness (visible reads)"
  let ?r2 = "withPresend (relayReadPane harness (vio_after io)) reads"
  let ?c2 = "relayClassifyReads harness ?r2 text True ?q2"
  consider (first) "fst ?c \<noteq> ''composer_residue''" "r = verdict harness prefix ?c reads" "ks = []"
    | (spent) "spent" "r = relayUnproven harness reads prefix" "ks = []"
    | (withheld) "r = maybe_in_pane harness (prefix @ ''return_withheld:'' @ why)" "ks = []"
    | (failed) "\<not> spent" "safe" "r = maybe_in_pane harness (prefix @ ''return_failed'')" "ks = [SendReturn]"
    | (second) "\<not> spent" "safe" "r = verdict harness (prefix @ ''after_return:'') ?c2 ?r2" "ks = [SendReturn]"
    using assms w by (auto simp: relayVerifyOutcome_def Let_def split: if_splits)
  note cases = this
  have m: "landed r \<Longrightarrow> ri_Outcome r \<noteq> relayInjectMaybeInPane" by (auto simp: landed_def)
  show "ri_Outcome r \<noteq> relayInjectRetryable" using cases by cases simp_all
  show "ks = [] \<or> (ks = [SendReturn] \<and> \<not> spent \<and> fst (relayComposerReturnSafe harness (visible reads) text before))"
    using cases w by cases simp_all
  show "landed r \<Longrightarrow> seen_on harness (if ks = [] then [visible reads, unwrapped reads] else screens_of (vio_after io)) text (ri_Proven r)"
    using cases
  proof cases
    case first
    then show "landed r \<Longrightarrow> ?thesis" using verdict_landed [OF refl] by simp
  next
    case second
    then show "landed r \<Longrightarrow> ?thesis" using verdict_landed [OF refl, of harness "prefix @ ''after_return:''" ?r2 "text" True ?q2] by (simp add: screens_of_def)
  qed (use m in simp_all)
  show "landed r \<Longrightarrow> ks = [] \<Longrightarrow> fst ?c \<noteq> ''composer_residue''" using cases m by cases simp_all
qed

lemma observe_landed:
  assumes "landed (observe_loop harness text q presend result as)"
  shows "landed result \<and> observe_loop harness text q presend result as = result
    \<or> seen_on harness (concat (map screens_of as)) text (ri_Proven (observe_loop harness text q presend result as))"
  using assms
proof (induction as)
  case (Cons a as)
  let ?reads = "withPresend (relayReadPane harness a) presend"
  obtain c rule ps where c: "relayClassifyReads harness ?reads text True q = (c, rule, ps)"
    by (cases "relayClassifyReads harness ?reads text True q") auto
  show ?case
  proof (cases "c = ''marker_observed'' \<or> c = ''queued''")
    case True
    then have "seen_on harness (screens_of a) text (Some ps)" using classify_seen [OF c] by (simp add: screens_of_def)
    then have "seen_on harness (concat (map screens_of (a # as))) text (Some ps)" by (rule seen_on_mono) simp
    then show ?thesis using True c by auto
  next
    case False
    then have e: "observe_loop harness text q presend result (a # as) = observe_loop harness text q presend result as"
      using c by simp
    then have l: "landed (observe_loop harness text q presend result as)" using Cons.prems by simp
    have "seen_on harness (concat (map screens_of as)) text p \<Longrightarrow> seen_on harness (concat (map screens_of (a # as))) text p" for p
      by (erule seen_on_mono) simp
    then show ?thesis using Cons.IH [OF l] unfolding e by blast
  qed
qed simp

lemma observe_not_retryable:
  "ri_Outcome result \<noteq> relayInjectRetryable \<Longrightarrow> ri_Outcome (observe_loop harness text q presend result as) \<noteq> relayInjectRetryable"
  by (induction as) (auto split: prod.splits)

lemma settle_facts [simp]:
  "ri_Outcome (settle_spent spent r) = ri_Outcome r" "ri_Proven (settle_spent spent r) = ri_Proven r" "landed (settle_spent spent r) = landed r"
  by (simp_all add: settle_spent_def landed_def)

definition later_answers :: "inject_io \<Rightarrow> pane_answer list" where
  "later_answers io = io_verify io # vio_after (io_verify_io io) # io_observed io"

lemma verified_facts:
  assumes "inject_verified harness text q spent presend io = (r, ks)"
  shows "ri_Outcome r \<noteq> relayInjectRetryable"
    and "ks = [] \<or> (ks = [SendReturn] \<and> \<not> spent \<and> own_composer harness text (str_of (an_visible (io_verify io))))"
    and "landed r \<Longrightarrow> seen_on harness (concat (map screens_of (later_answers io))) text (ri_Proven r)"
proof -
  let ?reads = "withPresend (relayReadPane harness (io_verify io)) presend"
  obtain r0 where v: "relayVerifyOutcome harness text (visible presend) [] q spent ?reads (io_verify_io io) = (r0, ks)"
    and r: "r = settle_spent spent r0 \<or> r = settle_spent spent (observe_loop harness text q presend r0 (io_observed io))"
    using assms by (auto simp: inject_verified_def Let_def split: prod.splits if_splits)
  note vk = verify_keys [OF v]
  show "ri_Outcome r \<noteq> relayInjectRetryable" using r vk(1) observe_not_retryable by auto
  show "ks = [] \<or> (ks = [SendReturn] \<and> \<not> spent \<and> own_composer harness text (str_of (an_visible (io_verify io))))"
    using vk(2) safe_own_composer by auto
  have first: "landed r0 \<Longrightarrow> seen_on harness (concat (map screens_of (later_answers io))) text (ri_Proven r0)"
    using vk(3) by (rule seen_on_mono) (auto simp: later_answers_def screens_of_def split: if_splits)
  have more: "seen_on harness (concat (map screens_of (io_observed io))) text p
      \<Longrightarrow> seen_on harness (concat (map screens_of (later_answers io))) text p" for p
    by (erule seen_on_mono) (auto simp: later_answers_def)
  show "landed r \<Longrightarrow> seen_on harness (concat (map screens_of (later_answers io))) text (ri_Proven r)"
    using r first more observe_landed [of harness "text" q presend r0 "io_observed io"] by auto
qed

lemma gate_screen:
  assumes "gate_loop harness text before screen rs = (True, why)"
  shows "own_composer harness text screen \<or> (\<exists>s. Some s \<in> set rs \<and> own_composer harness text s)"
  using assms
proof (induction harness "text" before screen rs rule: gate_loop.induct)
  case (1 harness t before screen)
  then show ?case using safe_own_composer [of harness screen t before] by simp
next
  case (2 harness t before screen r rs)
  obtain safe w where s: "relayComposerReturnSafe harness screen t before = (safe, w)" by (cases "relayComposerReturnSafe harness screen t before")
  show ?case
  proof (cases "(w = ''composer_foreign'' \<or> w = ''composer_empty'') \<and> relayComposerStillDrawing harness screen t before")
    case True
    then obtain s2 where n: "r = Some s2" "gate_loop harness t before s2 rs = (True, why)"
      using 2(2) s by (cases r) auto
    show ?thesis using 2(1) [OF s [symmetric] refl True n(1,2)] n(1) by auto
  next
    case False
    then show ?thesis using 2(2) s safe_own_composer [of harness screen t before] by auto
  qed
qed

text \<open>The screens an injection read before a return, and those it read afterwards, by the path it takes.\<close>

definition devin_screens :: "devinPaneRead option \<Rightarrow> string list" where
  "devin_screens r = (case r of None \<Rightarrow> [] | Some x \<Rightarrow> [dv_visible x, dv_unwrapped x])"

definition rule_harness :: "string \<Rightarrow> string" where
  "rule_harness harness = (if EqualFold harness ''devin'' then ''devin'' else harness)"

definition composer_screens :: "string \<Rightarrow> inject_io \<Rightarrow> devin_io \<Rightarrow> string list" where
  "composer_screens harness io dio =
     (if EqualFold harness ''devin'' then concat (map devin_screens [di_before dio, di_after dio])
      else map (\<lambda>a. str_of (an_visible a)) [io_presend io, io_after io, io_verify io] @ map str_of (io_rereads io))"

definition later_screens :: "string \<Rightarrow> inject_io \<Rightarrow> devin_io \<Rightarrow> string list" where
  "later_screens harness io dio =
     (if EqualFold harness ''devin'' then concat (map devin_screens [di_after dio, di_final dio])
      else concat (map screens_of (later_answers io)))"

definition inject_ok :: "string \<Rightarrow> string \<Rightarrow> string list \<Rightarrow> string list \<Rightarrow> bool \<Rightarrow> relayInjectResult \<Rightarrow> key list \<Rightarrow> bool" where
  "inject_ok harness text shown later sent r ks \<longleftrightarrow>
     (ks = [] \<or> ks = [SendText text] \<or> ks = [SendReturn] \<or> ks = [SendText text, SendReturn])
     \<and> (ri_Outcome r = relayInjectRetryable \<longrightarrow> ks = [SendText text] \<and> \<not> sent)
     \<and> (landed r \<longrightarrow> ks \<noteq> [] \<and> seen_on harness later text (ri_Proven r))
     \<and> (SendReturn \<in> set ks \<longrightarrow> (\<exists>screen\<in>set shown. own_composer harness text screen))"

lemma inject_ok_maybe [simp]: "inject_ok harness text shown later sent (maybe_in_pane h e) []"
  "inject_ok harness text shown later sent (maybe_in_pane h e) [SendText text]"
  by (simp_all add: inject_ok_def landed_def)

lemma inject_verified_ok:
  assumes v: "inject_verified harness text q spent presend io = (r, ks)" "\<not> spent"
    and later: "later = concat (map screens_of (later_answers io))" and shown: "str_of (an_visible (io_verify io)) \<in> set shown"
  shows "inject_ok harness text shown later sent r (SendText text # ks)"
  using verified_facts [OF v(1)] shown unfolding later inject_ok_def by auto

lemma inject_spent_ok:
  assumes v: "inject_verified harness text q True presend io = (r, ks)"
    and later: "later = concat (map screens_of (later_answers io))" and shown: "\<exists>screen\<in>set shown. own_composer harness text screen"
  shows "inject_ok harness text shown later sent r (SendText text # SendReturn # ks)"
  using verified_facts [OF v] shown unfolding later inject_ok_def by auto

lemma residue_any_phase:
  "fst (relayClassifyReads harness reads text post q) = ''composer_residue'' \<longleftrightarrow> fst (relayClassifyReads harness reads text post' q') = ''composer_residue''"
  by (auto simp: relayClassifyReads_def Let_def split: prod.splits option.splits if_splits)

lemma inject_general_ok:
  assumes g: "inject_general harness text guard io = (r, ks)" and nd: "\<not> EqualFold harness ''devin''"
  shows "inject_ok harness text (composer_screens harness io dio) (later_screens harness io dio) (io_sent io) r ks"
proof -
  let ?presend = "relayReadPane harness (io_presend io)"
  let ?q = "relayQueuedBanner harness (visible ?presend)"
  let ?shown = "composer_screens harness io dio" and ?later = "later_screens harness io dio"
  have later: "?later = concat (map screens_of (later_answers io))" using nd by (simp add: later_screens_def)
  have pv: "str_of (an_visible (io_presend io)) \<in> set ?shown" "str_of (an_visible (io_verify io)) \<in> set ?shown"
    "str_of (an_visible (io_after io)) \<in> set ?shown" and rv: "Some s \<in> set (io_rereads io) \<Longrightarrow> s \<in> set ?shown" for s
    using nd by (auto simp: composer_screens_def str_of_def image_iff split: option.splits)
  let ?after = "relayReadPane harness (io_after io)"
  obtain safe why where gate: "relayCmdReturnGate harness text (visible ?presend) (visible ?after) (io_rereads io) = (safe, why)"
    by (cases "relayCmdReturnGate harness text (visible ?presend) (visible ?after) (io_rereads io)")
  have gated: "safe \<Longrightarrow> \<exists>screen\<in>set ?shown. own_composer harness text screen"
    using gate_screen [of harness "text" "visible ?presend" "visible ?after" "io_rereads io" why] gate pv(3) rv
    by (auto simp: relayCmdReturnGate_def)
  consider (maybe) h e where "r = maybe_in_pane h e" "ks = [] \<or> ks = [SendText text]"
    | (residue) "fst (relayClassifyReads harness ?presend text False ?q) = ''composer_residue''"
        "relayVerifyOutcome harness text [] ''presend:'' ?q False ?presend (io_verify_io io) = (r, ks)"
    | (retry) "\<not> io_sent io" "ri_Outcome r = relayInjectRetryable" "ks = [SendText text]"
    | (plain) ks' where "inject_verified harness text ?q False ?presend io = (r, ks')" "ks = SendText text # ks'"
    | (pressed) h e where "safe" "r = maybe_in_pane h e" "ks = [SendText text, SendReturn]"
    | (spent) ks' where "safe" "inject_verified harness text ?q True ?presend io = (r, ks')" "ks = SendText text # SendReturn # ks'"
    using g gate unfolding inject_general_def Let_def by (auto split: if_splits prod.splits)
  then show ?thesis
  proof cases
    case (residue)
    note k = verify_keys [OF residue(2)]
    have "own_composer harness text (str_of (an_visible (io_presend io)))" if "ks = [SendReturn]"
      using k(2) that safe_own_composer by auto
    moreover have "landed r \<Longrightarrow> ks \<noteq> []" using k(4) residue(1) residue_any_phase by blast
    moreover have "landed r \<Longrightarrow> ks \<noteq> [] \<Longrightarrow> seen_on harness ?later text (ri_Proven r)"
      unfolding later using k(3) by (auto elim!: seen_on_mono simp: later_answers_def)
    ultimately show ?thesis using k(1,2) pv(1) unfolding inject_ok_def by auto
  next
    case (plain ks')
    then show ?thesis using inject_verified_ok [OF plain(1) _ later pv(2)] by simp
  next
    case (spent ks')
    then show ?thesis using inject_spent_ok [OF spent(2) later gated] by simp
  next
    case (pressed h e)
    then show ?thesis using gated by (simp add: inject_ok_def landed_def)
  qed (auto simp: inject_ok_def landed_def)
qed

lemma devin_classify_seen:
  assumes "devin_classify read text (relayNoncesIn text) = (state, rule, ps)" "state = ''marker_observed'' \<or> state = ''queued''"
  shows "seen_on ''devin'' (devin_screens (Some read)) text (Some ps)"
  using assms by (auto simp: devin_classify_def Let_def seen_on_def devin_screens_def split: if_splits)

lemma devin_residue_first: "devin_residue (dv_visible read) text nonces \<Longrightarrow> fst (devin_classify read text nonces) = ''composer_residue''"
  by (simp add: devin_classify_def)

lemma devin_submit_facts:
  assumes "devin_submit spinner text before after io = (r, ks)"
  shows "ri_Outcome r \<noteq> relayInjectRetryable"
    and "ks = [] \<or> (ks = [SendReturn] \<and> own_composer ''devin'' text (dv_visible after))"
    and "landed r \<Longrightarrow> seen_on ''devin'' (if ks = [] then devin_screens (Some after) else devin_screens (di_final io)) text (ri_Proven r)"
    and "landed r \<Longrightarrow> ks = [] \<Longrightarrow> fst (devin_classify after text (relayNoncesIn text)) \<noteq> ''composer_residue''"
proof -
  obtain state ev ps where c: "devin_classify after text (relayNoncesIn text) = (state, ev, ps)"
    by (cases "devin_classify after text (relayNoncesIn text)") auto
  obtain safe rule where s: "relayComposerReturnSafe ''devin'' (dv_visible after) text (dv_visible before) = (safe, rule)"
    by (cases "relayComposerReturnSafe ''devin'' (dv_visible after) text (dv_visible before)")
  have own: "safe \<Longrightarrow> own_composer ''devin'' text (dv_visible after)"
    using safe_own_composer [of "''devin''" "dv_visible after" "text" "dv_visible before"] s by simp
  consider (now) o' e where "state = ''marker_observed'' \<or> state = ''queued''" "r = devin_result o' e (Some ps)" "o' \<noteq> relayInjectRetryable" "ks = []"
    | (maybe) e where "r = devin_result relayInjectMaybeInPane e None" "ks = [] \<or> (ks = [SendReturn] \<and> safe)"
    | (later) e r2 state2 ev2 ps2 where "safe" "di_final io = Some r2" "devin_classify r2 text (relayNoncesIn text) = (state2, ev2, ps2)"
        "state2 = ''marker_observed''" "r = devin_result relayInjectDelivered e (Some ps2)" "ks = [SendReturn]"
    using assms c s unfolding devin_submit_def Let_def
    by (auto split: if_splits option.splits prod.splits)
  note cases = this
  show "ri_Outcome r \<noteq> relayInjectRetryable" using cases by cases (auto simp: devin_result_def)
  show "ks = [] \<or> (ks = [SendReturn] \<and> own_composer ''devin'' text (dv_visible after))" using cases own by cases auto
  show "landed r \<Longrightarrow> seen_on ''devin'' (if ks = [] then devin_screens (Some after) else devin_screens (di_final io)) text (ri_Proven r)"
    using cases devin_classify_seen [OF c]
  proof cases
    case (later e r2 state2 ev2 ps2)
    then show "landed r \<Longrightarrow> ?thesis" using devin_classify_seen [OF later(3)] by (simp add: devin_result_def)
  qed (auto simp: devin_result_def landed_def)
  show "landed r \<Longrightarrow> ks = [] \<Longrightarrow> fst (devin_classify after text (relayNoncesIn text)) \<noteq> ''composer_residue''"
    using cases c by cases (auto simp: devin_result_def landed_def)
qed

lemma inject_devin_ok:
  assumes g: "devinRelayInjectGuarded spinner text guard io = (r, ks)" and d: "EqualFold harness ''devin''"
  shows "inject_ok ''devin'' text (composer_screens harness gio io) (later_screens harness gio io) (di_sent io) r ks"
proof -
  let ?shown = "composer_screens harness gio io" and ?later = "later_screens harness gio io"
  have shown: "di_before io = Some b \<Longrightarrow> dv_visible b \<in> set ?shown" "di_after io = Some a \<Longrightarrow> dv_visible a \<in> set ?shown" for a b
    using d by (auto simp: composer_screens_def devin_screens_def)
  have later: "set (devin_screens (di_after io)) \<subseteq> set ?later" "set (devin_screens (di_final io)) \<subseteq> set ?later"
    using d by (auto simp: later_screens_def)
  consider (maybe) e where "r = devin_result relayInjectMaybeInPane e None" "ks = [] \<or> ks = [SendText text]"
    | (held) b where "di_before io = Some b" "devinComposerHolds (dv_visible b) text (relayNoncesIn text)" "devin_submit spinner text b b io = (r, ks)"
    | (retry) "\<not> di_sent io" "ri_Outcome r = relayInjectRetryable" "ks = [SendText text]"
    | (typed) b a ks' where "di_after io = Some a" "devin_submit spinner text b a io = (r, ks')" "ks = SendText text # ks'"
    using g unfolding devinRelayInjectGuarded_def by (auto simp: devin_result_def split: if_splits option.splits prod.splits)
  then show ?thesis
  proof cases
    case (held b)
    note f = devin_submit_facts [OF held(3)]
    have "landed r \<Longrightarrow> ks \<noteq> []" using f(4) held(2) devin_residue_first by (auto simp: devinComposerHolds_def)
    moreover have "landed r \<Longrightarrow> ks \<noteq> [] \<Longrightarrow> seen_on ''devin'' ?later text (ri_Proven r)"
      using f(3) later(2) by (auto elim: seen_on_mono)
    ultimately show ?thesis using f(1,2) shown(1) [OF held(1)] unfolding inject_ok_def by auto
  next
    case (typed b a ks')
    note f = devin_submit_facts [OF typed(2)]
    have "landed r \<Longrightarrow> seen_on ''devin'' ?later text (ri_Proven r)"
      using f(3) later typed(1) by (auto elim!: seen_on_mono split: if_splits)
    then show ?thesis using f(1,2) shown(2) [OF typed(1)] typed(3) unfolding inject_ok_def by auto
  qed (auto simp: inject_ok_def landed_def devin_result_def)
qed

lemma inject_guarded_ok:
  assumes "relayInjectForHarnessGuarded spinner harness text guard io dio = (r, ks)"
  shows "inject_ok (rule_harness harness) text (composer_screens harness io dio) (later_screens harness io dio)
    (if EqualFold harness ''devin'' then di_sent dio else io_sent io) r ks"
proof (cases "EqualFold harness ''devin''")
  case True
  then show ?thesis using inject_devin_ok [OF _ True] assms by (simp add: relayInjectForHarnessGuarded_def rule_harness_def)
next
  case False
  then show ?thesis using inject_general_ok [OF _ False] assms by (simp add: relayInjectForHarnessGuarded_def rule_harness_def)
qed


lemma codex_names: "\<not> EqualFold ''codex'' ''devin''" "\<not> EqualFold ''codex'' ''claude''" "EqualFold ''codex'' ''codex''" "\<not> EqualFold ''codex'' ''cmd''" by (simp_all add: runes_ascii byte_def fold_rune_def lower_char_def EqualFold_def)

lemma sample_name: "ToLower (TrimSpace ''codex'') = ''codex''" by (simp add: TrimSpace_ascii ToLower_def runes_ascii lower_rune_def byte_def)

lemma sample_transcript: "promptTranscript ''codex'' ''> [r7t7dl] hi'' = ''> [r7t7dl] hi''" 
  by (simp add: promptTranscript_def promptComposer_def codex_names positions_def has_prefix_def codex_glyph_def utf8_def char_of_byte byte_def)

lemma sample_nonces: "relayNoncesIn ''[r7t7dl] hi'' = [''[r7t7dl]'']" by (simp add: relayNoncesIn_def token_at_def numeral_eq_Suc is_digit_def nonce_char_def byte_def)

lemma sample_token: "relayNonceTokenIn ''> [r7t7dl] hi'' ''[r7t7dl]''" by code_simp

definition quiet_pane :: pane_answer where
  "quiet_pane = \<lparr>an_visible = Some ''$ '', an_unwrapped = None, an_status = None\<rparr>"

definition sample_io :: inject_io where
  "sample_io = \<lparr>io_presend = quiet_pane, io_ansi = None, io_sent = True, io_after = quiet_pane, io_rereads = [], io_return = True,
     io_verify = \<lparr>an_visible = Some ''> [r7t7dl] hi'', an_unwrapped = None, an_status = None\<rparr>,
     io_verify_io = \<lparr>vio_return = True, vio_after = quiet_pane\<rparr>, io_observed = []\<rparr>"

definition no_devin :: devin_io where
  "no_devin = \<lparr>di_before = None, di_sent = False, di_after = None, di_status = None, di_return = False, di_final = None\<rparr>"

definition sample_verdict :: relayInjectResult where
  "sample_verdict = \<lparr>ri_Outcome = relayInjectDelivered, ri_Harness = ''codex'', ri_Evidence = ''visible:nonce_echo'', ri_Proven = Some [''[r7t7dl]'']\<rparr>"

lemma sample_adapter: "relayAdapterFor ''codex'' = Some (no_adapter\<lparr>queued := Some relayQueuedClaudeCodex, proof_rule := relayProofTranscriptEcho, observe := True\<rparr>)"
  by (simp add: relayAdapterFor_def sample_name relayHarnessAdapters_def)

lemma no_composer: "relayComposer ''codex'' screen = None"
  by (simp add: relayComposer_def sample_adapter no_adapter_def)

lemma sample_present: "relayNonceProvenIn ''> [r7t7dl] hi'' [''[r7t7dl]''] = [''[r7t7dl]'']"
  by (simp add: relayNonceProvenIn_def relayNoncePresent_def sample_token)

lemma empty_transcript: "relayNonceProvenIn (promptTranscript ''codex'' []) [''[r7t7dl]''] = []"
proof -
  have "\<not> relayNonceTokenIn [] ''[r7t7dl]''" by code_simp
  then show ?thesis
    by (simp add: promptTranscript_def promptComposer_def codex_names positions_def has_prefix_def codex_glyph_def utf8_def relayNonceProvenIn_def
        relayNoncePresent_def relayTranscriptBlocks_def TrimSpace_ascii)
qed

lemma no_queue: "relayQueuedClaudeCodex ''> [r7t7dl] hi'' = False" "pasteChipRE ''> [r7t7dl] hi'' = False" "relayQueuedClaudeCodex ''$ '' = False" "pasteChipRE ''$ '' = False"
  by (simp_all add: relayQueuedClaudeCodex_def has_prefix_def)

lemma sample_banner: "relayQueuedBanner ''codex'' ''> [r7t7dl] hi'' = False" "relayQueuedBanner ''codex'' ''$ '' = False"
  by (simp_all add: relayQueuedBanner_def sample_adapter no_queue)

lemma sample_proof: "relayTranscriptNonces ''codex'' (withPresend (relayReadPane ''codex'' (io_verify sample_io)) p) [''[r7t7dl]''] = (''visible'', [''[r7t7dl]''])"
  by (simp add: relayTranscriptNonces_def sample_io_def sample_transcript sample_present empty_transcript str_of_def)

lemma sample_injection:
  "relayInjectForHarnessGuarded (\<lambda>_. False) ''codex'' ''[r7t7dl] hi'' None sample_io no_devin = (sample_verdict, [SendText ''[r7t7dl] hi''])"
proof -
  let ?p = "relayReadPane ''codex'' quiet_pane"
  have p: "str_of (an_visible quiet_pane) = ''$ ''" "visibleOK ?p" by (simp_all add: quiet_pane_def relayReadPane_def str_of_def)
  have c: "relayClassifyReads ''codex'' (withPresend (relayReadPane ''codex'' (io_verify sample_io)) ?p) ''[r7t7dl] hi'' True False
      = (''marker_observed'', ''visible:nonce_echo'', [''[r7t7dl]''])"
    by (simp add: relayClassifyReads_def sample_nonces sample_proof no_composer sample_adapter) (simp add: sample_io_def str_of_def no_queue sample_banner no_adapter_def)
  have f: "fst (relayClassifyReads ''codex'' ?p ''[r7t7dl] hi'' False False) \<noteq> ''composer_residue''"
    by (auto simp: relayClassifyReads_def sample_nonces no_composer sample_adapter p no_queue no_adapter_def split: prod.splits)
  have v: "inject_verified ''codex'' ''[r7t7dl] hi'' False False ?p sample_io = (sample_verdict, [])"
    by (simp add: inject_verified_def relayVerifyOutcome_def c verdict_def settle_spent_def sample_verdict_def has_prefix_def sample_adapter)
  show ?thesis
    by (simp add: relayInjectForHarnessGuarded_def codex_names inject_general_def Let_def harnessPaneTransport_def sample_adapter p sample_banner f v
        sample_io_def [THEN arg_cong [where f = io_presend]] sample_io_def [THEN arg_cong [where f = io_sent]] no_adapter_def)
qed


end
