(* ===== verification/Pw_State.thy ===== *)
theory Pw_State
  imports Pw_Prelude "HOL-Library.State_Monad"
begin

text \<open>
  Code that changes shared state and has no error of its own to return is a computation in the
  library's state monad. This theory adds the steps such code is made of (reading, changing, a guarded
  step, loops over a list), the postcondition of a computation as a predicate transformer, and what
  the relations of \<open>world_relation\<close> give for such computations.
\<close>

named_theorems post_rules \<open>computation of the postcondition of a state computation\<close>

definition gets :: "('w \<Rightarrow> 'a) \<Rightarrow> ('w, 'a) state" where
  "gets f = State (\<lambda>w. (f w, w))"

definition modify :: "('w \<Rightarrow> 'w) \<Rightarrow> ('w, unit) state" where
  "modify f = State (\<lambda>w. ((), f w))"

definition whenS :: "bool \<Rightarrow> ('w, unit) state \<Rightarrow> ('w, unit) state" where
  "whenS b m = (if b then m else State_Monad.return ())"

fun each :: "('x \<Rightarrow> ('w, unit) state) \<Rightarrow> 'x list \<Rightarrow> ('w, unit) state" where
  "each f [] = State_Monad.return ()"
| "each f (x # xs) = do { f x; each f xs }"

text \<open>A loop that appends to a result: the values of the rounds that gave one.\<close>

fun collect :: "('x \<Rightarrow> ('w, 'y option) state) \<Rightarrow> 'x list \<Rightarrow> ('w, 'y list) state" where
  "collect f [] = State_Monad.return []"
| "collect f (x # xs) = do {
     y \<leftarrow> f x;
     ys \<leftarrow> collect f xs;
     State_Monad.return (case y of None \<Rightarrow> ys | Some z \<Rightarrow> z # ys)
   }"

lemma run_gets [simp]: "run_state (gets f) w = (f w, w)"
  by (simp add: gets_def)

lemma run_modify [simp]: "run_state (modify f) w = ((), f w)"
  by (simp add: modify_def)

lemma run_whenS [simp]: "run_state (whenS b m) w = (if b then run_state m w else ((), w))"
  by (simp add: whenS_def)


section \<open>Postconditions\<close>

definition post :: "('w, 'a) state \<Rightarrow> ('a \<Rightarrow> 'w \<Rightarrow> bool) \<Rightarrow> 'w \<Rightarrow> bool" where
  "post m Q w = (case run_state m w of (x, v) \<Rightarrow> Q x v)"

lemma post_return [post_rules]: "post (State_Monad.return x) Q = Q x"
  by (simp add: post_def fun_eq_iff)

lemma post_bind [post_rules]: "post (State_Monad.bind m k) Q = post m (\<lambda>x. post (k x) Q)"
  by (simp add: post_def fun_eq_iff split: prod.splits)

lemma post_gets [post_rules]: "post (gets f) Q = (\<lambda>w. Q (f w) w)"
  by (simp add: post_def fun_eq_iff)

lemma post_modify [post_rules]: "post (modify f) Q = (\<lambda>w. Q () (f w))"
  by (simp add: post_def fun_eq_iff)

lemma post_whenS [post_rules]: "post (whenS b m) Q = (if b then post m Q else Q ())"
  by (simp add: post_def fun_eq_iff)

lemma post_if [post_rules]: "post (if b then m else n) Q = (if b then post m Q else post n Q)"
  by simp

lemma post_mono: "post m Q w \<Longrightarrow> (\<And>x v. Q x v \<Longrightarrow> R x v) \<Longrightarrow> post m R w"
  by (auto simp: post_def)

lemma post_conj: "post m Q w \<Longrightarrow> post m R w \<Longrightarrow> post m (\<lambda>x v. Q x v \<and> R x v) w"
  by (auto simp: post_def)

lemma postI: "(\<And>x v. run_state m w = (x, v) \<Longrightarrow> Q x v) \<Longrightarrow> post m Q w"
  by (auto simp: post_def)

lemma postD: "post m Q w \<Longrightarrow> run_state m w = (x, v) \<Longrightarrow> Q x v"
  by (simp add: post_def)

lemma post_rel: "state_io_rel R m \<Longrightarrow> post m (\<lambda>x v. R w v) w"
  by (metis postI state_io_relD)

text \<open>Loops keep an invariant that names the elements already done.\<close>

lemma post_each:
  assumes "I [] w" and "\<And>ys x zs v. xs = ys @ x # zs \<Longrightarrow> I ys v \<Longrightarrow> post (f x) (\<lambda>_. I (ys @ [x])) v"
  shows "post (each f xs) (\<lambda>_. I xs) w"
proof -
  have "post (each f zs) (\<lambda>_. I xs) v" if "xs = ys @ zs" "I ys v" for ys zs v
    using that
  proof (induction zs arbitrary: ys v)
    case Nil
    then show ?case by (simp add: post_return)
  next
    case (Cons x zs)
    have "post (f x) (\<lambda>_. post (each f zs) (\<lambda>_. I xs)) v"
      by (rule post_mono [OF assms(2) [OF Cons.prems]], rule Cons.IH) (simp_all add: Cons.prems(1))
    then show ?case by (simp add: post_bind)
  qed
  from this [of "[]" xs w] show ?thesis using assms(1) by simp
qed

lemma post_collect:
  assumes "I [] [] w"
    and "\<And>ys x zs rs v. xs = ys @ x # zs \<Longrightarrow> I ys rs v
      \<Longrightarrow> post (f x) (\<lambda>r. I (ys @ [x]) (rs @ (case r of None \<Rightarrow> [] | Some z \<Rightarrow> [z]))) v"
  shows "post (collect f xs) (I xs) w"
proof -
  have "post (collect f zs) (\<lambda>r v. I xs (rs @ r) v) v" if "xs = ys @ zs" "I ys rs v" for ys zs rs v
    using that
  proof (induction zs arbitrary: ys rs v)
    case Nil
    then show ?case by (simp add: post_return)
  next
    case (Cons x zs)
    have "post (f x) (\<lambda>y. post (collect f zs) (\<lambda>ys. I xs (rs @ (case y of None \<Rightarrow> ys | Some z \<Rightarrow> z # ys)))) v"
    proof (rule post_mono [OF assms(2) [OF Cons.prems]])
      fix y u assume "I (ys @ [x]) (rs @ (case y of None \<Rightarrow> [] | Some z \<Rightarrow> [z])) u"
      from Cons.IH [OF _ this] show "post (collect f zs) (\<lambda>ys. I xs (rs @ (case y of None \<Rightarrow> ys | Some z \<Rightarrow> z # ys))) u"
        using Cons.prems(1) by (cases y) simp_all
    qed
    then show ?case by (simp add: post_bind post_return)
  qed
  from this [of "[]" xs "[]" w] show ?thesis using assms(1) by simp
qed


section \<open>Relations every run satisfies\<close>

lemma rel_gets_modify: "(\<And>w. R w (f w)) \<Longrightarrow> state_io_rel R (modify f)"
  by (auto simp: state_io_rel_def)

context world_relation
begin

lemma rel_return: "state_io_rel R (State_Monad.return x)"
  by (simp add: state_io_rel_def related_refl)

lemma rel_gets: "state_io_rel R (gets f)"
  by (simp add: state_io_rel_def related_refl)

lemma rel_bind: "state_io_rel R m \<Longrightarrow> (\<And>x. state_io_rel R (k x)) \<Longrightarrow> state_io_rel R (State_Monad.bind m k)"
  by (rule state_io_relI) (auto split: prod.splits dest!: state_io_relD intro: related_trans)

lemma rel_whenS: "(b \<Longrightarrow> state_io_rel R m) \<Longrightarrow> state_io_rel R (whenS b m)"
  by (simp add: state_io_rel_def related_refl)

lemma rel_each: "(\<And>x. x \<in> set xs \<Longrightarrow> state_io_rel R (f x)) \<Longrightarrow> state_io_rel R (each f xs)"
  by (induction xs) (simp_all add: rel_return rel_bind)

lemma rel_collect: "(\<And>x. x \<in> set xs \<Longrightarrow> state_io_rel R (f x)) \<Longrightarrow> state_io_rel R (collect f xs)"
  by (induction xs) (simp_all add: rel_return rel_bind)

lemma rel_if: "(b \<Longrightarrow> state_io_rel R m) \<Longrightarrow> (\<not> b \<Longrightarrow> state_io_rel R n) \<Longrightarrow> state_io_rel R (if b then m else n)"
  by simp

lemma rel_option:
  "(o' = None \<Longrightarrow> state_io_rel R m) \<Longrightarrow> (\<And>x. o' = Some x \<Longrightarrow> state_io_rel R (k x))
     \<Longrightarrow> state_io_rel R (case o' of None \<Rightarrow> m | Some x \<Rightarrow> k x)"
  by (cases o') simp_all

lemmas rel_rules = rel_return rel_gets rel_bind rel_whenS rel_each rel_collect rel_if rel_option

end

end
