(* ===== verification/Relay_Busy.thy ===== *)
theory Relay_Busy
  imports Relay_Batch Relay_Inject Relay_Records Text_Bounds Go_Sha256 Pw_State "HOL-Library.AList"
begin

text \<open>
  The queue of a node's busy panes (\<open>src/busy_relay.go\<close>, \<open>src/relay_dedupe.go\<close>,
  \<open>src/relay_cmd_hold.go\<close>): what arrives for a pane is typed at once, held until the pane is idle, or
  recognised as a repeat; what a finished wait releases is checked against its lease and typed. The
  state is one record: the manager's maps, the node's store, the answers of the external program in
  the order of the calls, and the list of effects. A critical section under the manager's lock is one
  computation; what the code starts as a goroutine is an effect.
\<close>

section \<open>What a pane's agent answers\<close>

record relayOccupant =
  oc_Pane :: string
  oc_Agent :: string
  oc_Session :: string
  oc_Name :: string
  oc_Terminal :: string
  oc_Workspace :: string

record agent_fields =
  af_PaneID :: string
  af_Agent :: string
  af_Name :: string
  af_TerminalID :: string
  af_WorkspaceID :: string
  af_Session :: "string option"

text \<open>
  A reply to \<open>agent get\<close> or \<open>agent wait\<close>: whether the command failed, and what its output decodes to
  for each reader (None where the decoding fails): the status, the error code, the reply's type with
  its agent, and the names of the harness.
\<close>

record agent_reply =
  ag_failed :: bool
  ag_status :: "string option"
  ag_code :: "string option"
  ag_doc :: "(string \<times> agent_fields option) option"
  ag_names :: "(string \<times> string \<times> string) option"

definition relayWaitTimedOut :: "agent_reply \<Rightarrow> bool" where
  "relayWaitTimedOut reply \<longleftrightarrow> ag_code reply = Some ''timeout''"

definition relayAgentNotFound :: "agent_reply \<Rightarrow> bool" where
  "relayAgentNotFound reply \<longleftrightarrow> ag_code reply = Some ''agent_not_found''"

definition occupant_key :: "relayOccupant \<Rightarrow> string" where
  "occupant_key oc =
     (if oc_Session oc = [] \<and> oc_Name oc = [] \<and> oc_Terminal oc = [] then []
      else oc_Agent oc @ [CHR 0x00] @ oc_Session oc @ [CHR 0x00] @ oc_Name oc @ [CHR 0x00] @ oc_Terminal oc @ [CHR 0x00] @ oc_Workspace oc)"

definition parseRelayAgentOccupant :: "agent_reply \<Rightarrow> relayOccupant option" where
  "parseRelayAgentOccupant reply =
     (case ag_doc reply of
        None \<Rightarrow> None
      | Some (kind, agent) \<Rightarrow>
          (case agent of
             None \<Rightarrow> None
           | Some a \<Rightarrow>
               if kind \<noteq> ''agent_info'' \<and> af_PaneID a = [] then None
               else Some \<lparr>oc_Pane = af_PaneID a, oc_Agent = af_Agent a, oc_Session = str_of (af_Session a), oc_Name = af_Name a,
                 oc_Terminal = af_TerminalID a, oc_Workspace = af_WorkspaceID a\<rparr>))"

text \<open>The verdict on a lease; the occupant is None when the program said that no agent is in the pane.\<close>

definition relayHeldLeaseStale :: "relayHeld \<Rightarrow> relayOccupant option \<Rightarrow> bool \<times> string" where
  "relayHeldLeaseStale item occupant =
     (case occupant of
        None \<Rightarrow> (True, ''pane_occupant_gone'')
      | Some oc \<Rightarrow>
          if rh_Lease item = []
          then (if oc_Name oc \<noteq> [] \<and> oc_Name oc = rh_Lane item then (False, []) else (True, ''lease_unverifiable''))
          else if occupant_key oc \<noteq> rh_Lease item then (True, ''pane_occupant_changed'')
          else (False, []))"

definition relayCancelledPane :: string where "relayCancelledPane = ''cancelled''"
definition defaultRelayMaxWait :: int where "defaultRelayMaxWait = 30 * minute"

text \<open>A policy is its name and its longest wait; None is a refused value.\<close>

definition parseRelayDeliveryPolicy :: "string \<Rightarrow> (string \<times> int) option" where
  "parseRelayDeliveryPolicy raw =
     (let v = TrimSpace raw
      in if v = [] \<or> v = ''idle'' then Some (''idle'', defaultRelayMaxWait)
         else if v = ''now'' then Some (''now'', 0)
         else if v = relayDeliverDirective then Some (relayDeliverDirective, defaultRelayMaxWait)
         else if \<not> has_prefix v ''max_wait='' then None
         else case atoi (drop (length ''max_wait='') v) of
                None \<Rightarrow> None
              | Some n \<Rightarrow> if n < 1 \<or> n > 24 * 60 * 60 then None else Some (v, n * second))"


section \<open>Reports to the hub and other effects\<close>

record relayHeldPayload =
  hp_EventID :: int
  hp_JobID :: string
  hp_Pane :: string
  hp_Lane :: string
  hp_Reason :: string
  hp_Preview :: string
  hp_HeldSince :: time
  hp_DeliverPolicy :: string

record relayReleasedPayload =
  rp_JobID :: string
  rp_Pane :: string
  rp_Lane :: string
  rp_FinalText :: string
  rp_Edited :: bool
  rp_OriginalEventID :: int

record relayDroppedPayload =
  dp_JobID :: string
  dp_Pane :: string
  dp_Lane :: string
  dp_OriginalEventID :: int
  dp_Reason :: string
  dp_Harness :: string

record relayAckPayload =
  ap_JobID :: string
  ap_Pane :: string
  ap_Reason :: string
  ap_FinalText :: string
  ap_Edited :: bool
  ap_OriginalEventID :: int

datatype hub_report =
    RelayHeldReport relayHeldPayload
  | RelayReleased relayReleasedPayload
  | RelayCancelled int
  | RelayBatched string string "int list"
  | RelayDropped relayDroppedPayload
  | RelayUnconfirmed relayAckPayload
  | RelayDelivered relayAckPayload

text \<open>
  The answers to one injection, for each way the client may have to type: the client's own function,
  its own verdict, or the reads of the external program.
\<close>

datatype inject_seam = OwnInject | OwnVerdict | PaneProgram

record inject_call =
  ic_took :: bool
  ic_verdict :: relayInjectResult
  ic_harness :: string
  ic_after :: string
  ic_io :: inject_io
  ic_dio :: devin_io

text \<open>
  The effects: a report that reached the emitter, a prompt with its rows, the answers to it, its keys and its verdict, a decision
  in the event journal, a read of the pane's agent, a started wait with its pane, its length and whether
  a directive is among the rows, a call of \<open>agent wait\<close> that also ends on a working pane or not, and a
  wait started again after a second.
\<close>

datatype effect =
    Report hub_report
  | Prompted string string "relayHeld list" inject_call "key list" relayInjectResult
  | Journaled string string int string
  | Probed string agent_reply
  | WaitStarted nat string int bool
  | WaitCalled string bool int
  | WaitLater string

text \<open>One file of a job's event directory; the kind is None when the file is unreadable or does not decode.\<close>

record job_entry =
  je_Name :: string
  je_IsDir :: bool
  je_Size :: int
  je_Kind :: "string option"

record busy =
  bz_store :: "node_store option"
  bz_held :: "(string \<times> relayHeld list) list"
  bz_waits :: "(string \<times> nat) list"
  bz_nextWait :: nat
  bz_cancelled :: "nat list"
  bz_inflight :: "int list"
  bz_lanePane :: "(string \<times> string) list"
  bz_dedupeInFlight :: "string list"
  bz_cmdHoldUntil :: "(int \<times> time) list"
  bz_restorePending :: bool
  bz_suppressed :: "64 word"
  bz_wouldSuppress :: "64 word"
  bz_mismatch :: "64 word"
  bz_unknown :: "64 word"
  bz_recvSeq :: int
  bz_emitter :: bool
  bz_command :: bool
  bz_seam :: inject_seam
  bz_spinner :: "string \<Rightarrow> bool"
  bz_dedupeEnv :: string
  bz_cmdHoldMax :: int
  bz_inboxRoot :: string
  bz_jobs :: "(string \<times> job_entry list) list"
  bz_now :: time
  bz_clock :: "time list"
  bz_gets :: "agent_reply list"
  bz_waitReplies :: "(bool \<times> agent_reply) list"
  bz_injects :: "inject_call list"
  bz_log :: "effect list"

type_synonym 'a busy_act = "(busy, 'a) state"


section \<open>Calls\<close>

definition record_effect :: "effect \<Rightarrow> unit busy_act" where
  "record_effect e = modify (\<lambda>w. w\<lparr>bz_log := bz_log w @ [e]\<rparr>)"

definition emit :: "hub_report \<Rightarrow> unit busy_act" where
  "emit r = do { attached \<leftarrow> gets bz_emitter; whenS attached (record_effect (Report r)) }"

text \<open>The clock: the next reading, or the latest one again.\<close>

definition nowUTC :: "time busy_act" where
  "nowUTC = State (\<lambda>w. case bz_clock w of [] \<Rightarrow> (bz_now w, w) | t # ts \<Rightarrow> (t, w\<lparr>bz_now := t, bz_clock := ts\<rparr>))"

definition relayRunner :: "busy \<Rightarrow> bool" where
  "relayRunner w \<longleftrightarrow> bz_command w \<or> bz_seam w \<noteq> OwnInject"

definition failed_reply :: agent_reply where
  "failed_reply = \<lparr>ag_failed = True, ag_status = None, ag_code = None, ag_doc = None, ag_names = None\<rparr>"

definition agent_get :: "string \<Rightarrow> agent_reply busy_act" where
  "agent_get pane = do {
     reply \<leftarrow> State (\<lambda>w. case bz_gets w of [] \<Rightarrow> (failed_reply, w) | r # rs \<Rightarrow> (r, w\<lparr>bz_gets := rs\<rparr>));
     record_effect (Probed pane reply);
     State_Monad.return reply
   }"

text \<open>A call on the node's store: None when the client has no store.\<close>

definition on_store :: "'a store_act \<Rightarrow> (store_error + 'a) option busy_act" where
  "on_store m = State (\<lambda>w. case bz_store w of None \<Rightarrow> (None, w)
      | Some s \<Rightarrow> (case m s of (r, s2) \<Rightarrow> (Some r, w\<lparr>bz_store := Some s2\<rparr>)))"

definition ok_of :: "(store_error + 'a) option \<Rightarrow> 'a option" where
  "ok_of r = (case r of Some (Inr x) \<Rightarrow> Some x | _ \<Rightarrow> None)"

definition held_of :: "busy \<Rightarrow> string \<Rightarrow> relayHeld list" where
  "held_of w pane = (case map_of (bz_held w) pane of None \<Rightarrow> [] | Some items \<Rightarrow> items)"

definition put_held :: "string \<Rightarrow> relayHeld list \<Rightarrow> unit busy_act" where
  "put_held pane rows = modify (\<lambda>w. w\<lparr>bz_held := AList.update pane rows (bz_held w)\<rparr>)"

definition reportHeld :: "relayHeld \<Rightarrow> string \<Rightarrow> unit busy_act" where
  "reportHeld item reason =
     emit (RelayHeldReport \<lparr>hp_EventID = rh_EventID item, hp_JobID = rh_JobID item, hp_Pane = rh_Pane item, hp_Lane = rh_Lane item,
       hp_Reason = reason, hp_Preview = str_of (truncateRelayText (rh_Text item) 240), hp_HeldSince = rh_HeldSince item,
       hp_DeliverPolicy = rh_DeliverPolicy item\<rparr>)"

definition drop_report :: "relayHeld \<Rightarrow> string \<Rightarrow> string \<Rightarrow> hub_report" where
  "drop_report item reason harness =
     RelayDropped \<lparr>dp_JobID = rh_JobID item, dp_Pane = rh_Pane item, dp_Lane = rh_Lane item, dp_OriginalEventID = rh_EventID item,
       dp_Reason = reason, dp_Harness = harness\<rparr>"

definition unconfirmed_report :: "relayHeld \<Rightarrow> string \<Rightarrow> hub_report" where
  "unconfirmed_report item reason =
     RelayUnconfirmed \<lparr>ap_JobID = rh_JobID item, ap_Pane = rh_Pane item, ap_Reason = reason, ap_FinalText = [], ap_Edited = False,
       ap_OriginalEventID = rh_EventID item\<rparr>"

definition released_report :: "relayHeld \<Rightarrow> hub_report" where
  "released_report item =
     RelayReleased \<lparr>rp_JobID = rh_JobID item, rp_Pane = rh_Pane item, rp_Lane = rh_Lane item, rp_FinalText = rh_Text item,
       rp_Edited = rh_Edited item, rp_OriginalEventID = rh_EventID item\<rparr>"

definition delivered_report :: "relayHeld \<Rightarrow> string \<Rightarrow> hub_report" where
  "delivered_report item reason =
     RelayDelivered \<lparr>ap_JobID = rh_JobID item, ap_Pane = rh_Pane item, ap_Reason = reason, ap_FinalText = rh_Text item,
       ap_Edited = rh_Edited item, ap_OriginalEventID = rh_EventID item\<rparr>"


section \<open>Routes and leases\<close>

definition noteLaneRoute :: "string \<Rightarrow> string \<Rightarrow> unit busy_act" where
  "noteLaneRoute lane pane = modify (\<lambda>w. w\<lparr>bz_lanePane := AList.update lane pane (bz_lanePane w)\<rparr>)"

definition laneRerouted :: "busy \<Rightarrow> relayHeld \<Rightarrow> bool" where
  "laneRerouted w item = (case map_of (bz_lanePane w) (rh_Lane item) of None \<Rightarrow> False | Some pane \<Rightarrow> pane \<noteq> rh_Pane item)"

definition expireHeldLease :: "relayHeld \<Rightarrow> string \<Rightarrow> string \<Rightarrow> unit busy_act" where
  "expireHeldLease item reason harness = do {
     on_store (DeleteRelayHeld (rh_EventID item));
     emit (drop_report item reason harness)
   }"

text \<open>The rows whose lane has not been seen on another pane; the others end here.\<close>

definition routed :: "relayHeld list \<Rightarrow> relayHeld list busy_act" where
  "routed items = collect (\<lambda>item. do {
     moved \<leftarrow> gets (\<lambda>w. laneRerouted w item);
     if moved then do { expireHeldLease item ''lane_rerouted'' []; State_Monad.return None }
     else State_Monad.return (Some item)
   }) items"


section \<open>Waits\<close>

definition heldDeadlineLocked :: "busy \<Rightarrow> relayHeld \<Rightarrow> time" where
  "heldDeadlineLocked w item =
     (let deadline = rh_HeldSince item + rh_MaxWait item
      in case map_of (bz_cmdHoldUntil w) (rh_EventID item) of None \<Rightarrow> deadline | Some until \<Rightarrow> if until > deadline then until else deadline)"

definition earliest :: "time list \<Rightarrow> time" where
  "earliest ts = foldl (\<lambda>d c. if c < d then c else d) (hd ts) (tl ts)"

text \<open>A wait is rounded up to whole milliseconds.\<close>

definition round_wait :: "int \<Rightarrow> int" where
  "round_wait d = (if d < 0 then 0 else Milliseconds (wrap64 (d + 1000000 - 1)) * 1000000)"

definition arm :: "string \<Rightarrow> unit busy_act" where
  "arm pane = do {
     modify (\<lambda>w. case map_of (bz_waits w) pane of None \<Rightarrow> w | Some old \<Rightarrow> w\<lparr>bz_cancelled := old # bz_cancelled w\<rparr>);
     items \<leftarrow> gets (\<lambda>w. held_of w pane);
     if items = [] then modify (\<lambda>w. w\<lparr>bz_waits := AList.delete pane (bz_waits w)\<rparr>)
     else do {
       waitFor \<leftarrow> (if \<not> rh_fresh (hd items) \<or> length items > 1
                   then do {
                     deadline \<leftarrow> gets (\<lambda>w. earliest (map (heldDeadlineLocked w) items));
                     now \<leftarrow> nowUTC;
                     State_Monad.return (time_sub deadline now)
                   }
                   else State_Monad.return (rh_MaxWait (hd items)));
       put_held pane (map (\<lambda>item. item\<lparr>rh_fresh := False\<rparr>) items);
       fresh \<leftarrow> gets bz_nextWait;
       modify (\<lambda>w. w\<lparr>bz_nextWait := Suc fresh, bz_waits := AList.update pane fresh (bz_waits w)\<rparr>);
       record_effect (WaitStarted fresh pane (round_wait waitFor) (list_ex (\<lambda>item. rh_DeliverPolicy item = relayDeliverDirective) items))
     }
   }"


section \<open>Holding and delivering\<close>

text \<open>
  A row that cannot be held is delivered, and a delivery the program refused is held again: the code
  recurses through \<open>hold\<close> and \<open>deliver\<close>. Each function first takes the delivery of one row it falls
  back to as an argument; \<open>deliver\<close> below closes the recursion.
\<close>

definition keep_receipt :: "relayHeld \<Rightarrow> relayHeld \<Rightarrow> relayHeld" where
  "keep_receipt item r = (if rh_EventID r = rh_EventID item then r\<lparr>rh_HeldSince := rh_HeldSince item, rh_fresh := True\<rparr> else r)"

definition hold_with :: "(relayHeld \<Rightarrow> unit busy_act) \<Rightarrow> relayHeld \<Rightarrow> string \<Rightarrow> unit busy_act" where
  "hold_with again item reason =
     (if rh_Pane item = relayCancelledPane then State_Monad.return ()
      else do {
        inserted \<leftarrow> on_store (InsertRelayHeld item);
        case ok_of inserted of
          None \<Rightarrow> again item
        | Some fresh \<Rightarrow> do {
            rows \<leftarrow> on_store (RelayHeldForPane (rh_Pane item));
            case ok_of rows of
              None \<Rightarrow> whenS (\<not> fresh) (reportHeld item reason)
            | Some found \<Rightarrow> do {
                put_held (rh_Pane item) (if fresh then map (keep_receipt item) found else found);
                if fresh then do { reportHeld item reason; arm (rh_Pane item) }
                else do { arm (rh_Pane item); reportHeld item reason }
              }
          }
      })"

definition retryOrDropWithin_with :: "(relayHeld \<Rightarrow> unit busy_act) \<Rightarrow> relayHeld \<Rightarrow> int \<Rightarrow> string \<Rightarrow> unit busy_act" where
  "retryOrDropWithin_with again item attemptsMax harness =
     (if rh_EventID item = 0 \<or> rh_Lane item = [] then State_Monad.return ()
      else do {
        on_store (DeleteRelayHeld (rh_EventID item));
        let attempts = wrap64 (rh_Attempts item + 1);
        if attempts \<ge> attemptsMax then emit (drop_report (item\<lparr>rh_Attempts := attempts\<rparr>) ''inject_failed_max_attempts'' harness)
        else do {
          now \<leftarrow> nowUTC;
          hold_with again (item\<lparr>rh_Attempts := attempts, rh_HeldSince := now\<rparr>) ''retry''
        }
      })"

definition stopWithoutRetry :: "relayHeld \<Rightarrow> string \<Rightarrow> unit busy_act" where
  "stopWithoutRetry item harness =
     (if rh_EventID item = 0 \<or> rh_Lane item = [] then State_Monad.return ()
      else do {
        on_store (DeleteRelayHeld (rh_EventID item));
        emit (drop_report item ''maybe_in_pane'' harness)
      })"

text \<open>\<open>relayAckReason\<close>: one line, cut before the rune that crosses 240 bytes.\<close>

fun cut_back :: "string \<Rightarrow> nat \<Rightarrow> nat" where
  "cut_back s 0 = 0"
| "cut_back s (Suc n) = (if rune_start (s ! Suc n) then Suc n else cut_back s n)"

definition relayAckReason :: "string \<Rightarrow> string" where
  "relayAckReason reason =
     (let line = join '' '' (Fields reason) in if length line \<le> 240 then line else take (cut_back line 240) line)"

definition no_read :: pane_answer where
  "no_read = \<lparr>an_visible = None, an_unwrapped = None, an_status = None\<rparr>"

text \<open>A call with no answer left is one in which every command failed.\<close>

definition failed_call :: inject_call where
  "failed_call =
     \<lparr>ic_took = False, ic_verdict = maybe_in_pane [] ''presend:unproven:read_failed'', ic_harness = [], ic_after = [],
      ic_io = \<lparr>io_presend = no_read, io_ansi = None, io_sent = False, io_after = no_read, io_rereads = [], io_return = False,
        io_verify = no_read, io_verify_io = \<lparr>vio_return = False, vio_after = no_read\<rparr>, io_observed = []\<rparr>,
      ic_dio = \<lparr>di_before = None, di_sent = False, di_after = None, di_status = None, di_return = False, di_final = None\<rparr>\<rparr>"

text \<open>What one call of \<open>inject\<close> answers, with the keys it sent to the pane.\<close>

definition inject_result :: "busy \<Rightarrow> inject_call \<Rightarrow> string \<Rightarrow> relayInjectResult \<times> key list" where
  "inject_result w call text =
     (case bz_seam w of
        OwnInject \<Rightarrow> (\<lparr>ri_Outcome = (if ic_took call then relayInjectDelivered else relayInjectRetryable), ri_Harness = [],
                         ri_Evidence = [], ri_Proven = None\<rparr>, [SendText text])
      | OwnVerdict \<Rightarrow> (ic_verdict call, [SendText text])
      | PaneProgram \<Rightarrow> defaultHubRelayInjectVerdict (bz_spinner w) (ic_harness call) (ic_after call) text (ic_io call) (ic_dio call))"

definition inject :: "relayHeld list \<Rightarrow> string \<Rightarrow> relayInjectResult busy_act" where
  "inject rows text = do {
     call \<leftarrow> State (\<lambda>w. case bz_injects w of [] \<Rightarrow> (failed_call, w) | c # cs \<Rightarrow> (c, w\<lparr>bz_injects := cs\<rparr>));
     answer \<leftarrow> gets (\<lambda>w. inject_result w call text);
     record_effect (Prompted (rh_Pane (hd rows)) text rows call (snd answer) (fst answer));
     State_Monad.return (fst answer)
   }"

definition relayRetriesOnce :: "relayInjectResult \<Rightarrow> bool" where
  "relayRetriesOnce result =
     (case ri_Outcome result of
        relayInjectRetryable \<Rightarrow> True
      | relayInjectMaybeInPane \<Rightarrow>
          Contains (ri_Evidence result) ''unproven:''
          \<or> ri_Evidence result = ''presend:read_failed'' \<or> ri_Evidence result = ''postsend:read_failed''
          \<or> (has_prefix (ri_Evidence result) ''postsend:'' \<and> has_suffix (ri_Evidence result) '':none'')
      | _ \<Rightarrow> False)"

definition relayPayloadFingerprint :: "string \<Rightarrow> string" where
  "relayPayloadFingerprint text = hex_EncodeToString (Sum256 text)"

text \<open>A row that landed: the delivered record, then the held row, then the reports.\<close>

definition land_row :: "time \<Rightarrow> string \<Rightarrow> relayHeld \<Rightarrow> unit busy_act" where
  "land_row now reason item = do {
     whenS (rh_EventID item \<noteq> 0) (do {
       whenS (rh_Lane item \<noteq> []) (do {
         on_store (RecordRelayDelivered (rh_Lane item) (rh_EventID item) (rh_Pane item) (relayPayloadFingerprint (rh_Text item)) now);
         State_Monad.return () });
       on_store (DeleteRelayHeld (rh_EventID item));
       State_Monad.return () });
     emit (released_report item);
     emit (delivered_report item (relayAckReason reason))
   }"

definition proven_row :: "relayInjectResult \<Rightarrow> relayHeld \<Rightarrow> bool" where
  "proven_row result item = (case ri_Proven result of None \<Rightarrow> True | Some ps \<Rightarrow> relayNonce item \<in> set ps)"

definition land_group :: "time \<Rightarrow> relayHeld list \<Rightarrow> relayInjectResult \<Rightarrow> unit busy_act" where
  "land_group now rows result = do {
     landed \<leftarrow> collect (\<lambda>item.
       if proven_row result item then State_Monad.return (Some item)
       else do {
         emit (unconfirmed_report item (relayAckReason (''maybe_in_pane nonce_missing '' @ ri_Evidence result)));
         stopWithoutRetry item (ri_Harness result);
         State_Monad.return None
       }) rows;
     whenS (length landed > 1) (emit (RelayBatched (rh_Pane (hd landed)) (rh_Lane (hd landed)) (map rh_EventID landed)));
     each (land_row now (if ri_Outcome result = relayInjectQueued then ''queued '' @ ri_Evidence result else ri_Evidence result)) landed
   }"

definition attempts_allowed :: "bool \<Rightarrow> string \<Rightarrow> int" where
  "attempts_allowed immediate harness =
     (if immediate then 1 else case relayAdapterFor harness of None \<Rightarrow> relayMaxInjectAttempts | Some a \<Rightarrow> injectAttempts a)"

definition settle_group ::
  "(relayHeld \<Rightarrow> unit busy_act) \<Rightarrow> time \<Rightarrow> relayHeld list \<Rightarrow> bool \<Rightarrow> relayInjectResult \<Rightarrow> unit busy_act" where
  "settle_group again now rows immediate result =
     (case ri_Outcome result of
        relayInjectRetryable \<Rightarrow> each (\<lambda>item. do {
          emit (unconfirmed_report item (relayAckReason (ri_Evidence result)));
          retryOrDropWithin_with again item (attempts_allowed immediate (ri_Harness result)) (ri_Harness result)
        }) rows
      | relayInjectMaybeInPane \<Rightarrow> each (\<lambda>item. do {
          emit (unconfirmed_report item (relayAckReason (''maybe_in_pane '' @ ri_Evidence result)));
          stopWithoutRetry item (ri_Harness result)
        }) rows
      | _ \<Rightarrow> land_group now rows result)"

definition deliver_group :: "(relayHeld \<Rightarrow> unit busy_act) \<Rightarrow> bool \<Rightarrow> time \<Rightarrow> relayHeld list \<Rightarrow> unit busy_act" where
  "deliver_group again expired now rows = do {
     live \<leftarrow> routed rows;
     if live = [] then State_Monad.return ()
     else do {
       let text = relayBatchText live expired now;
       let immediate = relayGroupImmediate live;
       first \<leftarrow> inject live text;
       result \<leftarrow> (if immediate \<and> relayRetriesOnce first then inject live text else State_Monad.return first);
       settle_group again now live immediate result
     }
   }"

definition deliver_with :: "(relayHeld \<Rightarrow> unit busy_act) \<Rightarrow> relayHeld list \<Rightarrow> bool \<Rightarrow> unit busy_act" where
  "deliver_with again items expired =
     (if items = [] \<or> rh_Pane (hd items) = relayCancelledPane then State_Monad.return ()
      else do {
        now \<leftarrow> nowUTC;
        each (deliver_group again expired now) (relayBatchGroups (sort_key rh_RecvSeq items) expired now)
      })"

text \<open>
  How often a row can come back to \<open>deliver\<close>: each return raises its count of attempts, which ends the
  retries at the largest number any harness has. A row whose count is the largest \<open>int\<close> wraps around
  first. \<open>redeliver\<close> allows a number of returns; \<open>deliver\<close> takes the number its rows need.
\<close>

definition returns_left :: "relayHeld \<Rightarrow> nat" where
  "returns_left item = nat (relayMaxInjectAttempts - wrap64 (rh_Attempts item + 1))"

fun redeliver :: "nat \<Rightarrow> relayHeld \<Rightarrow> unit busy_act" where
  "redeliver 0 item = State_Monad.return ()"
| "redeliver (Suc n) item = deliver_with (redeliver n) [item] False"

definition deliver :: "relayHeld list \<Rightarrow> bool \<Rightarrow> unit busy_act" where
  "deliver items expired = deliver_with (redeliver (fold max (map returns_left items) 0)) items expired"

definition hold :: "relayHeld \<Rightarrow> string \<Rightarrow> unit busy_act" where
  "hold item reason = hold_with (\<lambda>i. deliver [i] False) item reason"

definition retryOrDropWithin :: "relayHeld \<Rightarrow> int \<Rightarrow> string \<Rightarrow> unit busy_act" where
  "retryOrDropWithin item attemptsMax harness = retryOrDropWithin_with (\<lambda>i. deliver [i] False) item attemptsMax harness"

definition retryOrDrop :: "relayHeld \<Rightarrow> string \<Rightarrow> unit busy_act" where
  "retryOrDrop item harness = retryOrDropWithin item relayMaxInjectAttempts harness"


section \<open>Releases\<close>

definition relayCmdHoldMax :: "busy \<Rightarrow> int" where
  "relayCmdHoldMax w = (if bz_cmdHoldMax w > 0 then bz_cmdHoldMax w else 24 * 60 * minute)"

definition relayCmdHoldRecheck :: int where "relayCmdHoldRecheck = defaultRelayMaxWait"

text \<open>A missing deadline is the zero time, which is before every later one.\<close>

definition keepWorkingCmdHold :: "relayHeld \<Rightarrow> bool busy_act" where
  "keepWorkingCmdHold item = do {
     now \<leftarrow> nowUTC;
     ceiling \<leftarrow> gets (\<lambda>w. rh_HeldSince item + relayCmdHoldMax w);
     if \<not> now < ceiling then State_Monad.return False
     else do {
       let next_due = (if now + relayCmdHoldRecheck > ceiling then ceiling else now + relayCmdHoldRecheck);
       modify (\<lambda>w. let until = bz_cmdHoldUntil w;
                        moved = (case map_of until (rh_EventID item) of
                                   Some t \<Rightarrow> if t < next_due then AList.update (rh_EventID item) next_due until else until
                                 | None \<Rightarrow> AList.update (rh_EventID item) next_due until)
                    in w\<lparr>bz_cmdHoldUntil := filter (\<lambda>(i, t). \<not> t < now) moved\<rparr>);
       whenS (next_due > rh_HeldSince item + rh_MaxWait item) (do {
         on_store (ExtendRelayHeldMaxWait (rh_EventID item) (time_sub next_due (rh_HeldSince item)));
         State_Monad.return () });
       State_Monad.return True
     }
   }"

definition job_id_char :: "char \<Rightarrow> bool" where
  "job_id_char c \<longleftrightarrow> c \<in> set ''ABCDEFGHIJKLMNOPQRSTUVWXYZabcdefghijklmnopqrstuvwxyz0123456789''"

text \<open>\<^verbatim>\<open>^[A-Za-z0-9][A-Za-z0-9._-]{0,127}$\<close>\<close>

definition hubJobIDPattern :: "string \<Rightarrow> bool" where
  "hubJobIDPattern s \<longleftrightarrow> s \<noteq> [] \<and> length s \<le> 128 \<and> job_id_char (hd s) \<and> list_all (\<lambda>c. job_id_char c \<or> c \<in> set ''._-'') (tl s)"

definition hubJobEndKind :: "string \<Rightarrow> bool" where
  "hubJobEndKind kind \<longleftrightarrow> kind \<in> {''job.completed'', ''job.completion'', ''job.revoked'', ''quota_pool.release'',
     ''quota_pool.release.force'', ''job.lost'', ''job.reaped''}"

text \<open>The events of a job in the order of their files: a claim opens the job, an end closes a claimed one.\<close>

definition job_event :: "bool \<times> bool \<Rightarrow> job_entry \<Rightarrow> bool \<times> bool" where
  "job_event st e =
     (if je_IsDir e \<or> \<not> has_suffix (je_Name e) ''.json'' \<or> je_Size e > 16 * 1024 then st
      else case je_Kind e of
             None \<Rightarrow> st
           | Some kind \<Rightarrow> if kind = ''job.claimed'' \<or> kind = ''job.claim'' then (True, False)
                          else if hubJobEndKind kind then (fst st, fst st) else st)"

definition relayLaneJobEnded :: "busy \<Rightarrow> string \<Rightarrow> bool" where
  "relayLaneJobEnded w lane =
     (if bz_inboxRoot w = [] \<or> \<not> hubJobIDPattern lane then False
      else case map_of (bz_jobs w) lane of
             None \<Rightarrow> False
           | Some entries \<Rightarrow> snd (foldl job_event (False, False) (sort_key je_Name entries)))"

definition relayDroppedJobEnded :: string where "relayDroppedJobEnded = ''job_ended''"
definition relayDroppedWorkingExpired :: string where "relayDroppedWorkingExpired = ''working_wait_expired''"

text \<open>What the gate of a release reads of the pane.\<close>

record lease_probe =
  lp_occupant :: "relayOccupant option"
  lp_unverifiable :: bool
  lp_harness :: string
  lp_working :: bool

definition probe_reply :: "string \<Rightarrow> agent_reply \<Rightarrow> lease_probe" where
  "probe_reply pane reply =
     (if \<not> ag_failed reply
      then (case parseRelayAgentOccupant reply of
              Some oc \<Rightarrow>
                if oc_Pane oc = [] \<or> oc_Pane oc = pane
                then \<lparr>lp_occupant = Some oc, lp_unverifiable = False, lp_harness = parseRelayAgentHarness (ag_names reply),
                      lp_working = relayPaneWorkingUnprovable (str_of (parseRelayAgentStatus (ag_status reply))) (parseRelayAgentHarness (ag_names reply))\<rparr>
                else \<lparr>lp_occupant = None, lp_unverifiable = True, lp_harness = [], lp_working = False\<rparr>
            | None \<Rightarrow> \<lparr>lp_occupant = None, lp_unverifiable = True, lp_harness = [], lp_working = False\<rparr>)
      else \<lparr>lp_occupant = None, lp_unverifiable = \<not> relayAgentNotFound reply, lp_harness = [], lp_working = False\<rparr>)"

definition probe_lease :: "string \<Rightarrow> lease_probe busy_act" where
  "probe_lease pane = do {
     runner \<leftarrow> gets relayRunner;
     if \<not> runner then State_Monad.return \<lparr>lp_occupant = None, lp_unverifiable = True, lp_harness = [], lp_working = False\<rparr>
     else do { reply \<leftarrow> agent_get pane; State_Monad.return (probe_reply pane reply) }
   }"

definition gate_row :: "lease_probe \<Rightarrow> bool \<Rightarrow> relayHeld \<Rightarrow> relayHeld option busy_act" where
  "gate_row p expired item =
     (if lp_unverifiable p then do { retryOrDrop item (lp_harness p); State_Monad.return None }
      else if fst (relayHeldLeaseStale item (lp_occupant p))
      then do { expireHeldLease item (snd (relayHeldLeaseStale item (lp_occupant p))) (lp_harness p); State_Monad.return None }
      else do {
        ended \<leftarrow> gets (\<lambda>w. relayHarnessWorkingUnprovable (lp_harness p) \<and> relayLaneJobEnded w (rh_Lane item));
        if ended then do { expireHeldLease item relayDroppedJobEnded (lp_harness p); State_Monad.return None }
        else if \<not> lp_working p then State_Monad.return (Some item)
        else if \<not> expired then State_Monad.return None
        else do {
          kept \<leftarrow> keepWorkingCmdHold item;
          whenS (\<not> kept) (do {
            emit (unconfirmed_report item relayDroppedWorkingExpired);
            expireHeldLease item relayDroppedWorkingExpired (lp_harness p) });
          State_Monad.return None
        }
      })"

definition filterDeliverableHeld :: "relayHeld list \<Rightarrow> bool \<Rightarrow> (relayHeld list \<times> string) busy_act" where
  "filterDeliverableHeld items expired = do {
     survivors \<leftarrow> routed items;
     if survivors = [] then State_Monad.return ([], [])
     else do {
       p \<leftarrow> probe_lease (rh_Pane (hd survivors));
       rows \<leftarrow> collect (gate_row p expired) survivors;
       State_Monad.return (rows, lp_harness p)
     }
   }"

definition paneIdleOrDone :: "string \<Rightarrow> bool busy_act" where
  "paneIdleOrDone pane = do {
     runner \<leftarrow> gets relayRunner;
     if \<not> runner then State_Monad.return False
     else do {
       reply \<leftarrow> agent_get pane;
       State_Monad.return (\<not> ag_failed reply \<and> parseRelayAgentStatus (ag_status reply) \<in> {Some ''idle'', Some ''done''})
     }
   }"

text \<open>The rows behind the first of a pane-level harness: each only while the pane is idle or done.\<close>

fun deliver_rest :: "string \<Rightarrow> bool \<Rightarrow> relayHeld list \<Rightarrow> unit busy_act" where
  "deliver_rest pane expired [] = State_Monad.return ()"
| "deliver_rest pane expired (item # rest) = do {
     idle \<leftarrow> paneIdleOrDone pane;
     whenS idle (do { deliver [item] expired; deliver_rest pane expired rest })
   }"

definition deliverReleased :: "string \<Rightarrow> relayHeld list \<Rightarrow> bool \<Rightarrow> unit busy_act" where
  "deliverReleased pane items expired = do {
     gated \<leftarrow> filterDeliverableHeld items expired;
     if \<not> harnessPaneTransport (snd gated) \<or> length (fst gated) < 2 then deliver (fst gated) expired
     else case sort_key rh_RecvSeq (fst gated) of
            [] \<Rightarrow> State_Monad.return ()
          | item # rest \<Rightarrow> do { deliver [item] expired; deliver_rest pane expired rest }
   }"

text \<open>The snapshot of a pane leaves out what a release is delivering; None when the store fails.\<close>

definition heldSnapshot :: "string \<Rightarrow> relayHeld list option busy_act" where
  "heldSnapshot pane = do {
     rows \<leftarrow> on_store (RelayHeldForPane pane);
     busy_ids \<leftarrow> gets bz_inflight;
     State_Monad.return (map_option (filter (\<lambda>item. rh_EventID item \<notin> set busy_ids)) (ok_of rows))
   }"

definition markInflight :: "relayHeld list \<Rightarrow> unit busy_act" where
  "markInflight items = modify (\<lambda>w. w\<lparr>bz_inflight := map rh_EventID items @ bz_inflight w\<rparr>)"

definition finishInflight :: "relayHeld list \<Rightarrow> unit busy_act" where
  "finishInflight items = modify (\<lambda>w. w\<lparr>bz_inflight := filter (\<lambda>i. i \<notin> set (map rh_EventID items)) (bz_inflight w)\<rparr>)"

definition live_timing :: "relayHeld list \<Rightarrow> relayHeld \<Rightarrow> relayHeld" where
  "live_timing current row =
     (case find (\<lambda>item. rh_EventID item = rh_EventID row) (rev current) of
        None \<Rightarrow> row
      | Some live \<Rightarrow> row\<lparr>rh_HeldSince := rh_HeldSince live, rh_fresh := rh_fresh live\<rparr>)"

definition reconcileHeld :: "string \<Rightarrow> unit busy_act" where
  "reconcileHeld pane = do {
     rows \<leftarrow> on_store (RelayHeldForPane pane);
     case ok_of rows of
       None \<Rightarrow> State_Monad.return ()
     | Some found \<Rightarrow> modify (\<lambda>w. if found = [] then w\<lparr>bz_held := AList.delete pane (bz_held w)\<rparr>
         else w\<lparr>bz_held := AList.update pane (map (live_timing (held_of w pane)) found) (bz_held w)\<rparr>)
   }"

text \<open>The critical section of a release: the rows it takes, or None when it takes nothing.\<close>

definition detach :: "string \<Rightarrow> relayHeld list \<Rightarrow> unit busy_act" where
  "detach pane items = do {
     modify (\<lambda>w. w\<lparr>bz_waits := AList.delete pane (bz_waits w), bz_held := AList.delete pane (bz_held w)\<rparr>);
     markInflight items
   }"

definition release_begin :: "string \<Rightarrow> relayHeld list option busy_act" where
  "release_begin pane = do {
     snapshot \<leftarrow> heldSnapshot pane;
     case snapshot of
       None \<Rightarrow> State_Monad.return None
     | Some items \<Rightarrow>
         if items = [] then State_Monad.return None
         else do { detach pane items; State_Monad.return (Some items) }
   }"

definition release_end :: "string \<Rightarrow> relayHeld list \<Rightarrow> unit busy_act" where
  "release_end pane items = do {
     finishInflight items;
     reconcileHeld pane;
     rearm \<leftarrow> gets (\<lambda>w. held_of w pane \<noteq> []);
     whenS rearm (arm pane)
   }"

definition release :: "string \<Rightarrow> bool \<Rightarrow> unit busy_act" where
  "release pane expired = do {
     started \<leftarrow> release_begin pane;
     case started of
       None \<Rightarrow> State_Monad.return ()
     | Some items \<Rightarrow> do { deliverReleased pane items expired; release_end pane items }
   }"

text \<open>A pane that turned working: what the critical section decides, and the release of it.\<close>

datatype working_release = ReleaseNothing | KeepWaiting | ReleaseRows "relayHeld list" bool

definition working_begin :: "string \<Rightarrow> bool \<Rightarrow> working_release busy_act" where
  "working_begin pane expired = do {
     snapshot \<leftarrow> heldSnapshot pane;
     stored \<leftarrow> gets (\<lambda>w. bz_store w \<noteq> None);
     case snapshot of
       None \<Rightarrow> do { whenS stored (record_effect (WaitLater pane)); State_Monad.return ReleaseNothing }
     | Some items \<Rightarrow> do {
         let directives = filter (\<lambda>item. rh_DeliverPolicy item = relayDeliverDirective) items;
         if items = [] then State_Monad.return ReleaseNothing
         else if directives = items \<or> expired then do { detach pane items; State_Monad.return (ReleaseRows items expired) }
         else if directives = [] then State_Monad.return KeepWaiting
         else do {
           modify (\<lambda>w. w\<lparr>bz_held := AList.update pane
               (filter (\<lambda>item. rh_EventID item \<notin> set (map rh_EventID directives)) (held_of w pane)) (bz_held w),
             bz_waits := AList.delete pane (bz_waits w)\<rparr>);
           markInflight directives;
           State_Monad.return (ReleaseRows directives False)
         }
       }
   }"

definition releaseWorking :: "string \<Rightarrow> bool \<Rightarrow> unit busy_act" where
  "releaseWorking pane expired = do {
     started \<leftarrow> working_begin pane expired;
     case started of
       ReleaseNothing \<Rightarrow> State_Monad.return ()
     | KeepWaiting \<Rightarrow> arm pane
     | ReleaseRows items past \<Rightarrow> do {
         deliverReleased pane items past;
         finishInflight items;
         reconcileHeld pane;
         arm pane
       }
   }"

definition paneWorkingUnprovable :: "string \<Rightarrow> bool busy_act" where
  "paneWorkingUnprovable pane = do {
     reply \<leftarrow> agent_get pane;
     State_Monad.return (ag_failed reply \<or> relayHarnessWorkingUnprovable (parseRelayAgentHarness (ag_names reply)))
   }"

text \<open>A wait: the program's answer comes with whether the wait's context ended, as it does when it is cancelled.\<close>

definition waitForPane :: "nat \<Rightarrow> string \<Rightarrow> int \<Rightarrow> bool \<Rightarrow> unit busy_act" where
  "waitForPane wid pane waitFor directiveHeld = do {
     runner \<leftarrow> gets relayRunner;
     if \<not> runner then State_Monad.return ()
     else do {
       unprovable \<leftarrow> (if directiveHeld then paneWorkingUnprovable pane else State_Monad.return True);
       record_effect (WaitCalled pane (directiveHeld \<and> \<not> unprovable) (Milliseconds waitFor));
       answer \<leftarrow> State (\<lambda>w. case bz_waitReplies w of [] \<Rightarrow> ((True, failed_reply), w) | r # rs \<Rightarrow> (r, w\<lparr>bz_waitReplies := rs\<rparr>));
       ended \<leftarrow> gets (\<lambda>w. fst answer \<or> wid \<in> set (bz_cancelled w));
       if ended then State_Monad.return ()
       else do {
         let timedOut = (ag_failed (snd answer) \<and> relayWaitTimedOut (snd answer));
         if parseRelayAgentStatus (ag_status (snd answer)) = Some ''working'' then releaseWorking pane timedOut
         else release pane timedOut
       }
     }
   }"


section \<open>Edits, cancellations and restarts\<close>

definition edit :: "int \<Rightarrow> string \<Rightarrow> bool busy_act" where
  "edit eventID text =
     (if text = [] \<or> eventID < 1 then State_Monad.return False
      else do {
        changed \<leftarrow> on_store (UpdateRelayHeldText eventID text);
        if ok_of changed \<noteq> Some True then State_Monad.return False
        else do {
          modify (\<lambda>w. w\<lparr>bz_held := map (\<lambda>(pane, items). (pane, map (\<lambda>item. if rh_EventID item = eventID
             then item\<lparr>rh_Text := text, rh_Edited := True\<rparr> else item) items)) (bz_held w)\<rparr>);
          State_Monad.return True
        }
      })"

definition cancel :: "int \<Rightarrow> bool busy_act" where
  "cancel eventID =
     (if eventID < 1 then State_Monad.return False
      else do {
        deleted \<leftarrow> on_store (DeleteRelayHeld eventID);
        if ok_of deleted \<noteq> Some True then State_Monad.return False
        else do {
          panes \<leftarrow> gets (\<lambda>w. map fst (filter (\<lambda>(pane, items). list_ex (\<lambda>item. rh_EventID item = eventID) items) (bz_held w)));
          modify (\<lambda>w. w\<lparr>bz_held := map (\<lambda>(pane, items). (pane, filter (\<lambda>item. rh_EventID item \<noteq> eventID) items)) (bz_held w)\<rparr>);
          each arm panes;
          emit (RelayCancelled eventID);
          State_Monad.return True
        }
      })"

definition seedRelayRecvSeq :: "int \<Rightarrow> unit busy_act" where
  "seedRelayRecvSeq v = modify (\<lambda>w. if v > bz_recvSeq w then w\<lparr>bz_recvSeq := v\<rparr> else w)"

definition nextRelayRecvSeq :: "int busy_act" where
  "nextRelayRecvSeq = do {
     modify (\<lambda>w. w\<lparr>bz_recvSeq := wrap64 (bz_recvSeq w + 1)\<rparr>);
     gets bz_recvSeq
   }"

definition by_pane :: "relayHeld list \<Rightarrow> (string \<times> relayHeld list) list" where
  "by_pane items = foldl (\<lambda>m item. AList.update (rh_Pane item)
     ((case map_of m (rh_Pane item) of None \<Rightarrow> [] | Some xs \<Rightarrow> xs) @ [item]) m) [] items"

definition restore :: "unit busy_act" where
  "restore = do {
     rows \<leftarrow> on_store RelayHeldAll;
     case ok_of rows of
       None \<Rightarrow> State_Monad.return ()
     | Some items \<Rightarrow> do {
         each (\<lambda>item. do { on_store (DeleteRelayHeld (rh_EventID item)); State_Monad.return () })
           (filter (\<lambda>item. rh_Pane item = relayCancelledPane) items);
         let kept = filter (\<lambda>item. rh_Pane item \<noteq> relayCancelledPane) items;
         seedRelayRecvSeq (foldl (\<lambda>m item. if rh_RecvSeq item > m then rh_RecvSeq item else m) 0 kept);
         modify (\<lambda>w. w\<lparr>bz_held := by_pane kept, bz_restorePending := True\<rparr>)
       }
   }"


section \<open>Repeats\<close>

record hubOutboundMessage =
  om_Pane :: string
  om_Lane :: string
  om_EventID :: int
  om_JobID :: string
  om_Text :: string
  om_DeliverPolicy :: string
  om_RecvSeq :: int

datatype relayDedupeMode = relayDedupeShadow | relayDedupeApply | relayDedupeOff

definition relayDedupeModeFromEnv :: "busy \<Rightarrow> relayDedupeMode" where
  "relayDedupeModeFromEnv w =
     (if bz_dedupeEnv w = ''apply'' then relayDedupeApply else if bz_dedupeEnv w = ''off'' then relayDedupeOff else relayDedupeShadow)"

definition relayDedupeClaimKey :: "string \<Rightarrow> int \<Rightarrow> string" where
  "relayDedupeClaimKey lane eventID = lane @ [CHR 0x00] @ itoa eventID"

text \<open>A decision is journaled when the client has a store; a failed write is only lost.\<close>

definition journalDedupe :: "string \<Rightarrow> string \<Rightarrow> int \<Rightarrow> string \<Rightarrow> unit busy_act" where
  "journalDedupe action lane eventID pane = do {
     stored \<leftarrow> gets (\<lambda>w. bz_store w \<noteq> None);
     whenS stored (record_effect (Journaled action lane eventID pane))
   }"

definition count_mismatch :: "string \<Rightarrow> int \<Rightarrow> string \<Rightarrow> unit busy_act" where
  "count_mismatch lane eventID pane = do {
     modify (\<lambda>w. w\<lparr>bz_mismatch := bz_mismatch w + 1\<rparr>);
     journalDedupe ''mismatch'' lane eventID pane
   }"

definition suppressed_report :: "string \<Rightarrow> string \<Rightarrow> int \<Rightarrow> hub_report" where
  "suppressed_report job pane eventID =
     RelayDelivered \<lparr>ap_JobID = job, ap_Pane = pane, ap_Reason = ''dedupe_suppressed'', ap_FinalText = [], ap_Edited = False,
       ap_OriginalEventID = eventID\<rparr>"

definition relayDeliveredIdentity :: "hubOutboundMessage \<Rightarrow> relayDedupeMode \<Rightarrow> bool busy_act" where
  "relayDeliveredIdentity m mode = do {
     found \<leftarrow> on_store (RelayDeliveredByKey (om_Lane m) (om_EventID m));
     case ok_of found of
       Some (Some previous) \<Rightarrow>
         if rd_Pane previous \<noteq> om_Pane m \<or> rd_PayloadSHA previous \<noteq> relayPayloadFingerprint (om_Text m)
         then do { count_mismatch (om_Lane m) (om_EventID m) (om_Pane m); State_Monad.return False }
         else if mode \<noteq> relayDedupeApply
         then do {
           modify (\<lambda>w. w\<lparr>bz_wouldSuppress := bz_wouldSuppress w + 1\<rparr>);
           journalDedupe ''would_suppress'' (om_Lane m) (om_EventID m) (om_Pane m);
           State_Monad.return False
         }
         else do {
           modify (\<lambda>w. w\<lparr>bz_suppressed := bz_suppressed w + 1\<rparr>);
           journalDedupe ''suppressed'' (om_Lane m) (om_EventID m) (om_Pane m);
           emit (suppressed_report (om_JobID m) (om_Pane m) (om_EventID m));
           on_store (DeleteRelayHeld (om_EventID m));
           State_Monad.return True
         }
     | _ \<Rightarrow> State_Monad.return False
   }"

definition claimDedupeInFlight :: "string \<Rightarrow> int \<Rightarrow> bool busy_act" where
  "claimDedupeInFlight lane eventID = do {
     taken \<leftarrow> gets (\<lambda>w. relayDedupeClaimKey lane eventID \<in> set (bz_dedupeInFlight w));
     whenS (\<not> taken) (modify (\<lambda>w. w\<lparr>bz_dedupeInFlight := relayDedupeClaimKey lane eventID # bz_dedupeInFlight w\<rparr>));
     State_Monad.return (\<not> taken)
   }"

definition releaseDedupeInFlight :: "string \<Rightarrow> int \<Rightarrow> unit busy_act" where
  "releaseDedupeInFlight lane eventID =
     modify (\<lambda>w. w\<lparr>bz_dedupeInFlight := filter (\<lambda>k. k \<noteq> relayDedupeClaimKey lane eventID) (bz_dedupeInFlight w)\<rparr>)"

definition noteDedupeUnknown :: "hubOutboundMessage \<Rightarrow> unit busy_act" where
  "noteDedupeUnknown m = do {
     modify (\<lambda>w. w\<lparr>bz_unknown := bz_unknown w + 1\<rparr>);
     journalDedupe ''unknown'' (om_Lane m) (om_EventID m) (om_Pane m)
   }"

definition recoverExisting :: "relayHeld \<Rightarrow> unit busy_act" where
  "recoverExisting item =
     (if rh_Pane item = relayCancelledPane then State_Monad.return ()
      else do {
        rows \<leftarrow> on_store (RelayHeldForPane (rh_Pane item));
        case ok_of rows of
          None \<Rightarrow> State_Monad.return ()
        | Some found \<Rightarrow> do {
            put_held (rh_Pane item) found;
            reportHeld item ''restored'';
            arm (rh_Pane item)
          }
      })"

text \<open>One restored row against its delivered record; the result is whether the row is done with.\<close>

definition reconcile_row :: "relayDedupeMode \<Rightarrow> relayHeld \<Rightarrow> int option busy_act" where
  "reconcile_row mode item =
     (if rh_Lane item = [] \<or> rh_EventID item = 0 then State_Monad.return None
      else do {
        found \<leftarrow> on_store (RelayDeliveredByKey (rh_Lane item) (rh_EventID item));
        case ok_of found of
          Some (Some previous) \<Rightarrow>
            if rd_Pane previous \<noteq> rh_Pane item \<or> rd_PayloadSHA previous \<noteq> relayPayloadFingerprint (rh_Text item)
            then do { count_mismatch (rh_Lane item) (rh_EventID item) (rh_Pane item); State_Monad.return None }
            else if mode \<noteq> relayDedupeApply
            then do {
              modify (\<lambda>w. w\<lparr>bz_wouldSuppress := bz_wouldSuppress w + 1\<rparr>);
              journalDedupe ''would_suppress_restore'' (rh_Lane item) (rh_EventID item) (rh_Pane item);
              State_Monad.return None
            }
            else do {
              modify (\<lambda>w. w\<lparr>bz_suppressed := bz_suppressed w + 1\<rparr>);
              journalDedupe ''suppressed_restore'' (rh_Lane item) (rh_EventID item) (rh_Pane item);
              on_store (DeleteRelayHeld (rh_EventID item));
              emit (released_report item);
              emit (suppressed_report (rh_JobID item) (rh_Pane item) (rh_EventID item));
              State_Monad.return (Some (rh_EventID item))
            }
        | _ \<Rightarrow> State_Monad.return None
      })"

definition reconcileDeliveredHeld :: "unit busy_act" where
  "reconcileDeliveredHeld = do {
     pending \<leftarrow> gets (\<lambda>w. bz_store w \<noteq> None \<and> bz_restorePending w);
     whenS pending (do {
       modify (\<lambda>w. w\<lparr>bz_restorePending := False\<rparr>);
       items \<leftarrow> gets (\<lambda>w. concat (map snd (bz_held w)));
       mode \<leftarrow> gets relayDedupeModeFromEnv;
       whenS (mode \<noteq> relayDedupeOff) (do {
         doomed \<leftarrow> collect (reconcile_row mode) items;
         modify (\<lambda>w. w\<lparr>bz_held := map (\<lambda>(pane, xs). (pane, filter (\<lambda>item. rh_EventID item \<notin> set doomed) xs)) (bz_held w)\<rparr>)
       })
     })
   }"

definition resume :: "unit busy_act" where
  "resume = do {
     reconcileDeliveredHeld;
     held \<leftarrow> gets bz_held;
     each (\<lambda>item. reportHeld item ''restored'') (concat (map snd held));
     each arm (map fst held)
   }"


section \<open>Arrivals\<close>

definition offered_row :: "hubOutboundMessage \<Rightarrow> string \<Rightarrow> time \<Rightarrow> relayHeld" where
  "offered_row m policy now =
     \<lparr>rh_Pane = om_Pane m, rh_Lane = om_Lane m, rh_JobID = om_JobID m, rh_Text = om_Text m, rh_DeliverPolicy = policy,
      rh_EventID = om_EventID m, rh_HeldSince = now, rh_MaxWait = 0, rh_RecvSeq = om_RecvSeq m, rh_Edited = False, rh_fresh = False,
      rh_Attempts = 0, rh_Lease = []\<rparr>"

definition deliver_offered :: "hubOutboundMessage \<Rightarrow> string \<Rightarrow> unit busy_act" where
  "deliver_offered m policy = do { now \<leftarrow> nowUTC; deliver [offered_row m policy now] False }"

definition typed_now :: "string \<Rightarrow> agent_reply \<Rightarrow> bool" where
  "typed_now policy reply =
     (ag_failed reply
      \<or> (case parseRelayAgentStatus (ag_status reply) of
           None \<Rightarrow> True
         | Some st \<Rightarrow> st \<in> {''unknown'', ''idle'', ''done''}
             \<or> (policy = relayDeliverDirective \<and> st \<noteq> ''blocked'' \<and> \<not> relayPaneWorkingUnprovable st (parseRelayAgentHarness (ag_names reply)))))"

definition offered_lease :: "string \<Rightarrow> agent_reply \<Rightarrow> string" where
  "offered_lease pane reply =
     (case parseRelayAgentOccupant reply of None \<Rightarrow> [] | Some oc \<Rightarrow> if oc_Pane oc = pane then occupant_key oc else [])"

definition offer_new :: "hubOutboundMessage \<Rightarrow> unit busy_act" where
  "offer_new m =
     (case (case parseRelayDeliveryPolicy (om_DeliverPolicy m) of None \<Rightarrow> (''idle'', defaultRelayMaxWait) | Some p \<Rightarrow> p) of
        (policy, maxWait) \<Rightarrow> do {
          runner \<leftarrow> gets relayRunner;
          if policy = ''now'' \<or> om_EventID m = 0 \<or> om_Lane m = [] \<or> \<not> runner then deliver_offered m policy
          else do {
            reply \<leftarrow> agent_get (om_Pane m);
            if typed_now policy reply then deliver_offered m policy
            else do {
              now \<leftarrow> nowUTC;
              ceiling \<leftarrow> gets relayCmdHoldMax;
              let st = str_of (parseRelayAgentStatus (ag_status reply));
              let capped = (if relayPaneWorkingUnprovable st (parseRelayAgentHarness (ag_names reply)) \<and> ceiling < maxWait then ceiling else maxWait);
              hold ((offered_row m policy now)\<lparr>rh_MaxWait := capped, rh_fresh := True, rh_Lease := offered_lease (om_Pane m) reply\<rparr>) st
            }
          }
        })"

definition offer_queue :: "hubOutboundMessage \<Rightarrow> relayDedupeMode \<Rightarrow> bool \<Rightarrow> unit busy_act" where
  "offer_queue m mode identified = do {
     found \<leftarrow> (if identified then on_store (RelayHeldByKey (om_Lane m) (om_EventID m)) else State_Monad.return None);
     case ok_of found of
       Some (Some existing) \<Rightarrow>
         if mode \<noteq> relayDedupeOff \<and> om_Pane m \<noteq> [] \<and> rh_Pane existing \<noteq> relayCancelledPane \<and> rh_Pane existing \<noteq> om_Pane m
         then do {
           count_mismatch (om_Lane m) (om_EventID m) (om_Pane m);
           expireHeldLease existing ''lane_rerouted'' [];
           modify (\<lambda>w. case map_of (bz_held w) (rh_Pane existing) of
              None \<Rightarrow> w
            | Some waiting \<Rightarrow> w\<lparr>bz_held := AList.update (rh_Pane existing)
                (filter (\<lambda>other. rh_EventID other \<noteq> rh_EventID existing) waiting) (bz_held w)\<rparr>);
           arm (rh_Pane existing);
           offer_new m
         }
         else do {
           whenS (mode \<noteq> relayDedupeOff \<and> rh_Text existing \<noteq> om_Text m) (count_mismatch (om_Lane m) (om_EventID m) (om_Pane m));
           recoverExisting existing
         }
     | _ \<Rightarrow> offer_new m
   }"

text \<open>
  An arrival with an identity runs while it holds the claim on that identity. While another copy holds
  it the arrival waits, and nothing happens: the result False is a copy that still waits.
\<close>

definition offer_claimed :: "hubOutboundMessage \<Rightarrow> relayDedupeMode \<Rightarrow> bool busy_act" where
  "offer_claimed m mode = do {
     owned \<leftarrow> claimDedupeInFlight (om_Lane m) (om_EventID m);
     if \<not> owned then State_Monad.return False
     else do {
       repeated \<leftarrow> relayDeliveredIdentity m mode;
       whenS (\<not> repeated) (offer_queue m mode True);
       releaseDedupeInFlight (om_Lane m) (om_EventID m);
       State_Monad.return True
     }
   }"

definition offer :: "hubOutboundMessage \<Rightarrow> bool busy_act" where
  "offer m =
     (if om_Pane m = relayCancelledPane then State_Monad.return True
      else do {
        whenS (om_Lane m \<noteq> []) (noteLaneRoute (om_Lane m) (om_Pane m));
        mode \<leftarrow> gets relayDedupeModeFromEnv;
        let identified = (om_EventID m > 0 \<and> om_Lane m \<noteq> []);
        if mode \<noteq> relayDedupeOff \<and> identified then offer_claimed m mode
        else do {
          whenS (mode \<noteq> relayDedupeOff) (noteDedupeUnknown m);
          offer_queue m mode identified;
          State_Monad.return True
        }
      })"

end
