(* ===== verification/Relay_Busy_Frame.thy ===== *)
theory Relay_Busy_Frame
  imports Relay_Busy
begin

text \<open>
  What the computations of the busy panes may change, and that the recursion of \<open>deliver\<close> ends. A
  relation between the worlds before and after is checked on the primitive steps only: the locales
  below carry it to every operation of \<open>Relay_Busy\<close>.
\<close>

section \<open>What a computation may change\<close>

definition held_only :: "int set \<Rightarrow> node_store \<Rightarrow> node_store \<Rightarrow> bool" where
  "held_only I s v \<longleftrightarrow> relay_sent v = relay_sent s \<and> relay_delivered v = relay_delivered s \<and> relay_meta v = relay_meta s
     \<and> filter (\<lambda>r. hr_event r \<notin> I) (relay_held v) = filter (\<lambda>r. hr_event r \<notin> I) (relay_held s)"

interpretation ho: store_relation "held_only I" for I
  by unfold_locales (auto simp: held_only_def)

lemma held_only_modify:
  "(\<And>rows. filter (\<lambda>r. hr_event r \<notin> I) (f rows) = filter (\<lambda>r. hr_event r \<notin> I) rows)
     \<Longrightarrow> always (held_only I) (modifyA (\<lambda>s. s\<lparr>relay_held := f (relay_held s)\<rparr>))"
  by (rule always_modifyA) (simp add: held_only_def)

lemma filter_ins_ignore: "\<not> P r \<Longrightarrow> filter P (ins_ignore key r t) = filter P t"
  by (simp add: ins_ignore_def)

lemma filter_upd: "(\<And>r. P r \<Longrightarrow> \<not> Q r) \<Longrightarrow> (\<And>r. \<not> Q (f r) \<longleftrightarrow> \<not> Q r) \<Longrightarrow> filter Q (upd P f t) = filter Q t"
  by (induction t) (auto simp: upd_def)

lemma held_only_stmt:
  "(\<And>rows. filter (\<lambda>r. hr_event r \<notin> I) (f rows) = filter (\<lambda>r. hr_event r \<notin> I) rows) \<Longrightarrow> always (held_only I) (held_stmt P f)"
  unfolding held_stmt_def by (intro ho.store_rules held_only_modify)

lemma held_only_ops:
  "ev \<in> I \<Longrightarrow> always (held_only I) (DeleteRelayHeld ev)"
  "ev \<in> I \<Longrightarrow> always (held_only I) (UpdateRelayHeldText ev txt)"
  "ev \<in> I \<Longrightarrow> always (held_only I) (ExtendRelayHeldMaxWait ev d)"
  "rh_EventID h \<in> I \<Longrightarrow> always (held_only I) (InsertRelayHeld h)"
  "always (held_only I) (RelayHeldForPane pane)" "always (held_only I) RelayHeldAll"
  "always (held_only I) (RelayHeldByKey lane ev)" "always (held_only I) (RelayDeliveredByKey lane ev)"
proof -
  show "ev \<in> I \<Longrightarrow> always (held_only I) (DeleteRelayHeld ev)"
    unfolding DeleteRelayHeld_def by (rule held_only_stmt) (auto simp: intro: filter_cong)
  show "ev \<in> I \<Longrightarrow> always (held_only I) (UpdateRelayHeldText ev txt)" "ev \<in> I \<Longrightarrow> always (held_only I) (ExtendRelayHeldMaxWait ev d)"
    unfolding UpdateRelayHeldText_def ExtendRelayHeldMaxWait_def by (auto intro!: held_only_stmt filter_upd)
  show "rh_EventID h \<in> I \<Longrightarrow> always (held_only I) (InsertRelayHeld h)"
    unfolding InsertRelayHeld_def
    by (intro ho.store_rules held_only_modify filter_ins_ignore) (simp add: held_row_of_def)
  show "always (held_only I) (RelayHeldForPane pane)" "always (held_only I) RelayHeldAll"
    "always (held_only I) (RelayHeldByKey lane ev)" "always (held_only I) (RelayDeliveredByKey lane ev)"
    unfolding RelayHeldForPane_def RelayHeldAll_def RelayHeldByKey_def RelayDeliveredByKey_def by (intro ho.store_rules)+
qed

text \<open>The configuration of the client, which nothing changes.\<close>

definition same_client :: "busy \<Rightarrow> busy \<Rightarrow> bool" where
  "same_client w v \<longleftrightarrow> bz_emitter v = bz_emitter w \<and> bz_command v = bz_command w \<and> bz_seam v = bz_seam w
     \<and> bz_spinner v = bz_spinner w \<and> bz_dedupeEnv v = bz_dedupeEnv w \<and> bz_cmdHoldMax v = bz_cmdHoldMax w
     \<and> bz_inboxRoot v = bz_inboxRoot w \<and> bz_jobs v = bz_jobs w"

text \<open>A change that leaves the store, the effects, the routes and the rows in flight as they are.\<close>

definition quiet :: "busy \<Rightarrow> busy \<Rightarrow> bool" where
  "quiet w v \<longleftrightarrow> same_client w v \<and> bz_store v = bz_store w \<and> bz_log v = bz_log w \<and> bz_lanePane v = bz_lanePane w
     \<and> bz_inflight v = bz_inflight w"

fun ordinary :: "effect \<Rightarrow> bool" where
  "ordinary (Report (RelayDelivered p)) = False"
| "ordinary (Prompted pane text rows call keys result) = False"
| "ordinary e = True"

text \<open>
  A relation between the worlds before and after a computation that quiet changes, ordinary effects and
  changes of held rows with an event of \<open>I\<close> keep. Every computation on rows with such events that
  neither prompts nor reports a delivery keeps it.
\<close>

locale busy_relation = world_relation R for R :: "busy \<Rightarrow> busy \<Rightarrow> bool" +
  fixes I :: "int set"
  assumes rel_quiet: "quiet w v \<Longrightarrow> R w v"
    and rel_effect: "ordinary e \<Longrightarrow> R w (w\<lparr>bz_log := bz_log w @ [e]\<rparr>)"
    and rel_table: "bz_store w = Some s \<Longrightarrow> held_only I s t \<Longrightarrow> R w (w\<lparr>bz_store := Some t\<rparr>)"
begin

lemma rel_modify: "(\<And>w. quiet w (f w)) \<Longrightarrow> state_io_rel R (modify f)"
  by (auto simp: state_io_rel_def intro: rel_quiet)

lemma rel_pop: "(\<And>w. quiet w (snd (f w))) \<Longrightarrow> state_io_rel R (State f)"
  by (auto simp: state_io_rel_def intro: rel_quiet)

lemma rel_record: "ordinary e \<Longrightarrow> state_io_rel R (record_effect e)"
  by (auto simp: state_io_rel_def record_effect_def rel_effect)

lemma rel_emit: "ordinary (Report r) \<Longrightarrow> state_io_rel R (emit r)"
  unfolding emit_def by (intro rel_rules rel_record)

lemma rel_on_store: "always (held_only I) m \<Longrightarrow> state_io_rel R (on_store m)"
proof (rule state_io_relI)
  fix x w v assume m: "always (held_only I) m" and r: "run_state (on_store m) w = (x, v)"
  show "R w v"
  proof (cases "bz_store w")
    case None
    then show ?thesis using r by (simp add: on_store_def related_refl)
  next
    case (Some s)
    obtain q t where q: "m s = (q, t)" by (cases "m s") auto
    then show ?thesis using r Some rel_table [OF Some alwaysD [OF m q]] by (simp add: on_store_def)
  qed
qed

lemma rel_nowUTC: "state_io_rel R nowUTC"
  unfolding nowUTC_def by (rule rel_pop) (auto simp: quiet_def same_client_def split: list.splits)

lemma rel_agent_get: "state_io_rel R (agent_get pane)"
  unfolding agent_get_def by (intro rel_rules rel_pop rel_record) (auto simp: quiet_def same_client_def split: list.splits)

lemma rel_put_held: "state_io_rel R (put_held pane rows)"
  unfolding put_held_def by (rule rel_modify) (simp add: quiet_def same_client_def)

lemma rel_reportHeld: "state_io_rel R (reportHeld item reason)"
  unfolding reportHeld_def by (rule rel_emit) simp

lemma rel_arm: "state_io_rel R (arm pane)"
  unfolding arm_def by (intro rel_rules rel_modify rel_nowUTC rel_put_held rel_record) (auto simp: quiet_def same_client_def split: option.splits)

lemmas rel_steps = rel_rules rel_record rel_emit rel_on_store rel_nowUTC rel_agent_get rel_put_held rel_reportHeld rel_arm held_only_ops

lemma rel_optopt:
  "state_io_rel R d \<Longrightarrow> (\<And>x. state_io_rel R (k x)) \<Longrightarrow> state_io_rel R (case q of Some (Some x) \<Rightarrow> k x | _ \<Rightarrow> d)"
  by (auto split: option.splits)

lemma rel_expire: "rh_EventID item \<in> I \<Longrightarrow> state_io_rel R (expireHeldLease item reason harness)"
  unfolding expireHeldLease_def drop_report_def by (intro rel_steps) simp_all

lemma rel_routed: "(\<And>item. item \<in> set items \<Longrightarrow> rh_EventID item \<in> I) \<Longrightarrow> state_io_rel R (routed items)"
  unfolding routed_def by (intro rel_steps rel_expire) simp_all

lemma rel_hold_with:
  "rh_EventID item \<in> I \<Longrightarrow> state_io_rel R (again item) \<Longrightarrow> state_io_rel R (hold_with again item reason)"
  unfolding hold_with_def by (intro rel_steps) simp_all

lemma rel_retry:
  assumes "rh_EventID item \<in> I" "\<And>t. state_io_rel R (again (item\<lparr>rh_Attempts := wrap64 (rh_Attempts item + 1), rh_HeldSince := t\<rparr>))"
  shows "state_io_rel R (retryOrDropWithin_with again item m h)"
  unfolding retryOrDropWithin_with_def Let_def drop_report_def using assms by (intro rel_steps rel_hold_with) simp_all

lemma rel_stop: "rh_EventID item \<in> I \<Longrightarrow> state_io_rel R (stopWithoutRetry item harness)"
  unfolding stopWithoutRetry_def drop_report_def by (intro rel_steps) simp_all

lemma rel_keepWorking: "rh_EventID item \<in> I \<Longrightarrow> state_io_rel R (keepWorkingCmdHold item)"
  unfolding keepWorkingCmdHold_def Let_def by (intro rel_steps rel_modify) (auto simp: quiet_def same_client_def split: option.splits)

lemma rel_probe: "state_io_rel R (probe_lease pane)"
  unfolding probe_lease_def by (intro rel_steps)

lemma rel_paneIdleOrDone: "state_io_rel R (paneIdleOrDone pane)"
  unfolding paneIdleOrDone_def by (intro rel_steps)

lemma rel_reconcileHeld: "state_io_rel R (reconcileHeld pane)"
  unfolding reconcileHeld_def by (intro rel_steps rel_modify) (simp add: quiet_def same_client_def)

lemma rel_heldSnapshot: "state_io_rel R (heldSnapshot pane)"
  unfolding heldSnapshot_def by (intro rel_steps)

lemma rel_journal: "state_io_rel R (journalDedupe action lane ev pane)"
  unfolding journalDedupe_def by (intro rel_steps) simp

lemma rel_count_mismatch: "state_io_rel R (count_mismatch lane ev pane)"
  unfolding count_mismatch_def by (intro rel_steps rel_modify rel_journal) (simp add: quiet_def same_client_def)

end


section \<open>The recursion of deliver\<close>

lemma injectAttempts_bound: "relayAdapterFor harness = Some a \<Longrightarrow> injectAttempts a \<le> relayMaxInjectAttempts"
  by (auto simp: relayAdapterFor_def relayHarnessAdapters_def injectAttempts_def no_adapter_def relayDevinMaxInjectAttempts_def
      relayMaxInjectAttempts_def find_Some_iff nth_Cons' split: if_splits)

lemma attempts_allowed_bound: "attempts_allowed immediate harness \<le> relayMaxInjectAttempts"
  using injectAttempts_bound by (auto simp: attempts_allowed_def relayMaxInjectAttempts_def split: option.splits)

lemma bind_cong_post:
  assumes "\<And>w. post m (\<lambda>x v. P x) w" "\<And>x. P x \<Longrightarrow> k x = k' x"
  shows "State_Monad.bind m k = State_Monad.bind m k'"
proof (rule state_ext)
  fix w
  obtain x v where "run_state m w = (x, v)" by (cases "run_state m w") auto
  then show "run_state (State_Monad.bind m k) w = run_state (State_Monad.bind m k') w"
    using assms(2) [of x] assms(1) [of w] by (simp add: post_def)
qed

lemma each_cong: "(\<And>x. x \<in> set xs \<Longrightarrow> f x = g x) \<Longrightarrow> each f xs = each g xs"
  by (induction xs) simp_all

lemma routed_subset: "post (routed rows) (\<lambda>live v. set live \<subseteq> set rows) w"
proof -
  have "post (routed rows) (\<lambda>live v. set live \<subseteq> set rows) w"
    unfolding routed_def
    by (rule post_collect [where I = "\<lambda>ys rs v. set rs \<subseteq> set ys"]) (auto simp: post_rules post_def split: prod.splits)
  then show ?thesis .
qed

definition back_again :: "relayHeld \<Rightarrow> time \<Rightarrow> relayHeld" where
  "back_again item t = item\<lparr>rh_Attempts := wrap64 (rh_Attempts item + 1), rh_HeldSince := t\<rparr>"

definition agree :: "(relayHeld \<Rightarrow> unit busy_act) \<Rightarrow> (relayHeld \<Rightarrow> unit busy_act) \<Rightarrow> relayHeld \<Rightarrow> bool" where
  "agree a b item \<longleftrightarrow> (wrap64 (rh_Attempts item + 1) < relayMaxInjectAttempts \<longrightarrow> (\<forall>t. a (back_again item t) = b (back_again item t)))"

lemma hold_with_agree: "a item = b item \<Longrightarrow> hold_with a item reason = hold_with b item reason"
  by (simp add: hold_with_def cong: option.case_cong)

lemma retry_agree:
  assumes "agree a b item" "m \<le> relayMaxInjectAttempts"
  shows "retryOrDropWithin_with a item m h = retryOrDropWithin_with b item m h"
proof (cases "m \<le> wrap64 (rh_Attempts item + 1)")
  case True
  then show ?thesis by (simp add: retryOrDropWithin_with_def Let_def)
next
  case False
  then have "hold_with a (back_again item t) r = hold_with b (back_again item t) r" for t r
    using assms by (intro hold_with_agree) (auto simp: agree_def)
  then show ?thesis by (simp add: retryOrDropWithin_with_def Let_def back_again_def)
qed

lemma settle_agree:
  assumes "\<And>item. item \<in> set rows \<Longrightarrow> agree a b item"
  shows "settle_group a now rows imm r = settle_group b now rows imm r"
proof -
  have "retryOrDropWithin_with a item (attempts_allowed imm h) h = retryOrDropWithin_with b item (attempts_allowed imm h) h"
    if "item \<in> set rows" for item h
    using retry_agree [OF assms [OF that] attempts_allowed_bound] .
  then show ?thesis unfolding settle_group_def by (cases "ri_Outcome r") (auto intro!: each_cong)
qed

lemma deliver_group_agree:
  assumes "\<And>item. item \<in> set rows \<Longrightarrow> agree a b item"
  shows "deliver_group a expired now rows = deliver_group b expired now rows"
  unfolding deliver_group_def
proof (rule bind_cong_post [OF routed_subset])
  fix live assume "set live \<subseteq> set rows"
  then have "settle_group a now live = settle_group b now live"
    using assms by (intro ext settle_agree) blast
  then show "(if live = [] then State_Monad.return ()
     else do { let text = relayBatchText live expired now; let immediate = relayGroupImmediate live;
       first \<leftarrow> inject live text;
       result \<leftarrow> (if immediate \<and> relayRetriesOnce first then inject live text else State_Monad.return first);
       settle_group a now live immediate result }) =
    (if live = [] then State_Monad.return ()
     else do { let text = relayBatchText live expired now; let immediate = relayGroupImmediate live;
       first \<leftarrow> inject live text;
       result \<leftarrow> (if immediate \<and> relayRetriesOnce first then inject live text else State_Monad.return first);
       settle_group b now live immediate result })" by simp
qed

lemma batch_groups_concat: "concat (relayBatchGroups items expired now) = items"
  using batch_groups_ok [of "[]" expired now items] by (simp add: relayBatchGroups_def)

lemma deliver_with_agree:
  assumes "\<And>item. item \<in> set items \<Longrightarrow> agree a b item"
  shows "deliver_with a items expired = deliver_with b items expired"
proof -
  have "each (deliver_group a expired now) (relayBatchGroups (sort_key rh_RecvSeq items) expired now)
      = each (deliver_group b expired now) (relayBatchGroups (sort_key rh_RecvSeq items) expired now)" for now
  proof (intro each_cong deliver_group_agree assms)
    fix g item assume "g \<in> set (relayBatchGroups (sort_key rh_RecvSeq items) expired now)" "item \<in> set g"
    then have "item \<in> set (concat (relayBatchGroups (sort_key rh_RecvSeq items) expired now))" by auto
    then show "item \<in> set items" by (simp only: batch_groups_concat set_sort)
  qed
  then show ?thesis by (simp add: deliver_with_def)
qed

lemma returns_left_back:
  "wrap64 (rh_Attempts item + 1) < relayMaxInjectAttempts \<Longrightarrow> Suc (returns_left (back_again item t)) = returns_left item"
  using wrap64_range [of "rh_Attempts item + 1"]
  by (simp add: returns_left_def back_again_def wrap64_id relayMaxInjectAttempts_def max_int64_def min_int64_def)

lemma redeliver_enough:
  "returns_left item < n \<Longrightarrow> returns_left item < m \<Longrightarrow> redeliver n item = redeliver m item"
proof (induction n arbitrary: item m)
  case (Suc n)
  then obtain k where m: "m = Suc k" by (cases m) auto
  have "agree (redeliver n) (redeliver k) item"
    unfolding agree_def
  proof (intro impI allI)
    fix t assume "wrap64 (rh_Attempts item + 1) < relayMaxInjectAttempts"
    then have "returns_left (back_again item t) < n" "returns_left (back_again item t) < k"
      using returns_left_back [of item t] Suc.prems m by simp_all
    then show "redeliver n (back_again item t) = redeliver k (back_again item t)" by (rule Suc.IH)
  qed
  then have "deliver_with (redeliver n) [item] False = deliver_with (redeliver k) [item] False"
    by (intro deliver_with_agree) simp
  then show ?case by (simp add: m)
qed simp

lemma fold_max_nat: "x \<in> set xs \<Longrightarrow> (x :: nat) \<le> fold max xs y"
proof (induction xs arbitrary: y)
  case (Cons z zs)
  have "y \<le> fold max zs y" for y :: nat and zs by (induction zs arbitrary: y) (auto intro: order_trans [OF max.cobounded2])
  then have "max z y \<le> fold max zs (max z y)" by blast
  with Cons show ?case by auto
qed simp

lemma deliver_one: "deliver [item] False = redeliver (Suc (returns_left item)) item"
  by (simp add: deliver_def)

lemma deliver_unfold: "deliver items expired = deliver_with (\<lambda>item. deliver [item] False) items expired"
  unfolding deliver_def [of items]
proof (rule deliver_with_agree)
  fix item assume item: "item \<in> set items"
  show "agree (redeliver (fold max (map returns_left items) 0)) (\<lambda>item. deliver [item] False) item"
    unfolding agree_def deliver_one
  proof (intro impI allI)
    fix t assume "wrap64 (rh_Attempts item + 1) < relayMaxInjectAttempts"
    from returns_left_back [OF this, of t] have "returns_left (back_again item t) < returns_left item" by simp
    also have "\<dots> \<le> fold max (map returns_left items) 0" using item by (intro fold_max_nat) simp
    finally show "redeliver (fold max (map returns_left items) 0) (back_again item t) = redeliver (Suc (returns_left (back_again item t))) (back_again item t)"
      by (rule redeliver_enough) simp
  qed
qed

text \<open>
  C34: delivering ends. A row that cannot be held is delivered again, and a delivery the program refused
  holds the row again; \<open>deliver\<close> satisfies the recursion of the source, in which such a row comes back
  to \<open>deliver\<close> itself, for every list of rows, whatever their counts of attempts, and whatever the
  store and the program answer. So the number of returns it allows is never used up.
\<close>

theorem deliver_recursion: "deliver items expired = deliver_with (\<lambda>item. deliver [item] False) items expired"
  by (rule deliver_unfold)


definition same_held :: "node_store \<Rightarrow> node_store \<Rightarrow> bool" where
  "same_held s v \<longleftrightarrow> relay_held v = relay_held s"

interpretation sh: store_relation same_held
  by unfold_locales (auto simp: same_held_def)

context world_relation
begin

lemma rel_bind_post:
  assumes "state_io_rel R m" "\<And>w. post m (\<lambda>x v. P x) w" "\<And>x. P x \<Longrightarrow> state_io_rel R (k x)"
  shows "state_io_rel R (State_Monad.bind m k)"
proof (rule state_io_relI)
  fix y w u assume r: "run_state (State_Monad.bind m k) w = (y, u)"
  obtain x v where x: "run_state m w = (x, v)" by (cases "run_state m w") auto
  then have "state_io_rel R (k x)" using assms(2) [of w] assms(3) by (simp add: post_def)
  then show "R w u" using r x assms(1) by (auto dest!: state_io_relD intro: related_trans)
qed

end

lemma batch_groups_members:
  "g \<in> set (relayBatchGroups (sort_key rh_RecvSeq items) expired now) \<Longrightarrow> item \<in> set g \<Longrightarrow> item \<in> set items"
proof -
  assume "g \<in> set (relayBatchGroups (sort_key rh_RecvSeq items) expired now)" "item \<in> set g"
  then have "item \<in> set (concat (relayBatchGroups (sort_key rh_RecvSeq items) expired now))" by auto
  then show ?thesis by (simp only: batch_groups_concat set_sort)
qed

lemma gate_row_same: "post (gate_row p expired item) (\<lambda>r v. r = None \<or> r = Some item) w"
  by (auto simp: gate_row_def post_def split: prod.splits)

lemma filter_subset: "post (filterDeliverableHeld items expired) (\<lambda>g v. set (fst g) \<subseteq> set items) w"
  unfolding filterDeliverableHeld_def post_bind
proof (rule post_mono [OF routed_subset])
  fix survivors v assume s: "set survivors \<subseteq> set items"
  have "post (collect (gate_row p expired) survivors) (\<lambda>rows v. set rows \<subseteq> set survivors) u" for p u
    by (rule post_collect [where I = "\<lambda>ys rs v. set rs \<subseteq> set ys"]) (auto intro: post_mono [OF gate_row_same])
  then have "post (collect (gate_row p expired) survivors) (\<lambda>rows v. set rows \<subseteq> set items) u" for p u
    using s by (blast intro: post_mono)
  then show "post (if survivors = [] then State_Monad.return ([], []) else do {
       p \<leftarrow> probe_lease (rh_Pane (hd survivors)); rows \<leftarrow> collect (gate_row p expired) survivors;
       State_Monad.return (rows, lp_harness p) }) (\<lambda>g v. set (fst g) \<subseteq> set items) v"
    by (simp add: post_rules) (auto simp: post_def split: prod.splits)
qed


text \<open>The same for relations that prompts, reports of a delivery and delivered records keep as well.\<close>

locale busy_delivery = busy_relation R I for R :: "busy \<Rightarrow> busy \<Rightarrow> bool" and I :: "int set" +
  assumes rel_any_effect: "R w (w\<lparr>bz_log := bz_log w @ [e]\<rparr>)"
    and rel_any_record: "bz_store w = Some s \<Longrightarrow> relay_held t = relay_held s \<Longrightarrow> R w (w\<lparr>bz_store := Some t\<rparr>)"
begin

lemma rel_any: "state_io_rel R (record_effect e)" "state_io_rel R (emit r)"
proof -
  show e: "state_io_rel R (record_effect e)" for e by (auto simp: state_io_rel_def record_effect_def rel_any_effect)
  show "state_io_rel R (emit r)" unfolding emit_def by (intro rel_rules e)
qed

lemma rel_RecordRelayDelivered: "state_io_rel R (on_store (RecordRelayDelivered lane ev pane sha t))"
proof (rule state_io_relI)
  fix x w v assume r: "run_state (on_store (RecordRelayDelivered lane ev pane sha t)) w = (x, v)"
  show "R w v"
  proof (cases "bz_store w")
    case None
    then show ?thesis using r by (simp add: on_store_def related_refl)
  next
    case (Some s)
    obtain q u where q: "RecordRelayDelivered lane ev pane sha t s = (q, u)" by (cases "RecordRelayDelivered lane ev pane sha t s") auto
    have "always same_held (RecordRelayDelivered lane ev pane sha t)"
      unfolding RecordRelayDelivered_def by (intro sh.store_rules always_modifyA) (simp_all add: same_held_def)
    from alwaysD [OF this q] show ?thesis using r Some q rel_any_record [OF Some] by (auto simp: on_store_def same_held_def)
  qed
qed

lemma rel_inject: "state_io_rel R (inject rows text)"
  unfolding inject_def by (intro rel_rules rel_any rel_pop) (auto simp: quiet_def same_client_def split: list.splits)

lemma rel_land_row: "rh_EventID item \<in> I \<Longrightarrow> state_io_rel R (land_row now reason item)"
  unfolding land_row_def by (intro rel_rules rel_any rel_RecordRelayDelivered rel_on_store held_only_ops)

lemma rel_land_group:
  assumes "\<And>item. item \<in> set rows \<Longrightarrow> rh_EventID item \<in> I"
  shows "state_io_rel R (land_group now rows result)"
proof -
  let ?pick = "collect (\<lambda>item. if proven_row result item then State_Monad.return (Some item)
       else do {
         emit (unconfirmed_report item (relayAckReason (''maybe_in_pane nonce_missing '' @ ri_Evidence result)));
         stopWithoutRetry item (ri_Harness result);
         State_Monad.return None
       }) rows"
  have pick: "state_io_rel R ?pick" using assms by (intro rel_rules rel_any rel_stop)
  have sub: "post ?pick (\<lambda>landed v. set landed \<subseteq> set rows) w" for w
    by (rule post_collect [where I = "\<lambda>ys rs v. set rs \<subseteq> set ys"]) (auto simp: post_rules post_def split: prod.splits)
  show ?thesis
    unfolding land_group_def
    by (rule rel_bind_post [OF pick sub]) (use assms in \<open>auto intro!: rel_rules rel_any rel_land_row\<close>)
qed

lemma rel_settle_group:
  assumes "\<And>item. item \<in> set rows \<Longrightarrow> rh_EventID item \<in> I" "\<And>item. rh_EventID item \<in> I \<Longrightarrow> state_io_rel R (again item)"
  shows "state_io_rel R (settle_group again now rows imm result)"
  unfolding settle_group_def
  using assms by (cases "ri_Outcome result") (auto intro!: rel_rules rel_any rel_retry rel_stop rel_land_group)

lemma rel_deliver_group:
  assumes "\<And>item. item \<in> set rows \<Longrightarrow> rh_EventID item \<in> I" "\<And>item. rh_EventID item \<in> I \<Longrightarrow> state_io_rel R (again item)"
  shows "state_io_rel R (deliver_group again expired now rows)"
  unfolding deliver_group_def
  by (rule rel_bind_post [OF rel_routed routed_subset])
    (use assms in \<open>auto simp: Let_def intro!: rel_rules rel_inject rel_settle_group\<close>)

lemma rel_deliver_with:
  assumes "\<And>item. item \<in> set items \<Longrightarrow> rh_EventID item \<in> I" "\<And>item. rh_EventID item \<in> I \<Longrightarrow> state_io_rel R (again item)"
  shows "state_io_rel R (deliver_with again items expired)"
  unfolding deliver_with_def
  by (intro rel_rules rel_nowUTC rel_deliver_group) (use assms batch_groups_members in blast)+

lemma rel_redeliver: "rh_EventID item \<in> I \<Longrightarrow> state_io_rel R (redeliver n item)"
  by (induction n arbitrary: item) (auto intro: rel_return rel_deliver_with)

lemma rel_deliver: "(\<And>item. item \<in> set items \<Longrightarrow> rh_EventID item \<in> I) \<Longrightarrow> state_io_rel R (deliver items expired)"
  unfolding deliver_def by (intro rel_deliver_with rel_redeliver)

lemma rel_hold: "rh_EventID item \<in> I \<Longrightarrow> state_io_rel R (hold item reason)"
  unfolding hold_def by (intro rel_hold_with rel_deliver) simp_all

lemma rel_retryOrDrop: "rh_EventID item \<in> I \<Longrightarrow> state_io_rel R (retryOrDrop item harness)"
  unfolding retryOrDrop_def retryOrDropWithin_def by (intro rel_retry rel_deliver) simp_all

lemma rel_gate_row: "rh_EventID item \<in> I \<Longrightarrow> state_io_rel R (gate_row p expired item)"
  unfolding gate_row_def by (intro rel_rules rel_any rel_retryOrDrop rel_expire rel_keepWorking)

lemma rel_filter:
  assumes "\<And>item. item \<in> set items \<Longrightarrow> rh_EventID item \<in> I"
  shows "state_io_rel R (filterDeliverableHeld items expired)"
  unfolding filterDeliverableHeld_def
  by (rule rel_bind_post [OF rel_routed routed_subset]) (use assms in \<open>auto intro!: rel_rules rel_probe rel_gate_row\<close>)

lemma rel_deliver_rest:
  "(\<And>item. item \<in> set items \<Longrightarrow> rh_EventID item \<in> I) \<Longrightarrow> state_io_rel R (deliver_rest pane expired items)"
  by (induction items) (auto intro!: rel_rules rel_paneIdleOrDone rel_deliver)

lemma rel_deliverReleased:
  assumes "\<And>item. item \<in> set items \<Longrightarrow> rh_EventID item \<in> I"
  shows "state_io_rel R (deliverReleased pane items expired)"
proof -
  have rest: "state_io_rel R (case sort_key rh_RecvSeq rows of [] \<Rightarrow> State_Monad.return ()
      | item # rest \<Rightarrow> do { deliver [item] expired; deliver_rest pane expired rest })" if "set rows \<subseteq> set items" for rows
  proof (cases "sort_key rh_RecvSeq rows")
    case (Cons x xs)
    then have "set (x # xs) \<subseteq> set items" using that by (metis set_sort)
    then show ?thesis using Cons assms by (auto intro!: rel_rules rel_deliver rel_deliver_rest)
  qed (simp add: rel_return)
  show ?thesis
    unfolding deliverReleased_def
    by (rule rel_bind_post [OF rel_filter filter_subset]) (use assms rest in \<open>auto intro!: rel_rules rel_deliver\<close>)
qed

end

section \<open>Every operation\<close>

text \<open>
  The manager as its client sees it: a relation that deliveries, the two lookups of a delivered record
  and changes of a route keep, every operation keeps.
\<close>

locale busy_manager = busy_relation R "UNIV :: int set" for R :: "busy \<Rightarrow> busy \<Rightarrow> bool" +
  assumes rel_route: "R w (w\<lparr>bz_lanePane := routes\<rparr>)"
    and rel_delivering: "state_io_rel R (deliver items expired)"
    and rel_identity: "state_io_rel R (relayDeliveredIdentity m mode)"
    and rel_reconcile_row: "state_io_rel R (reconcile_row mode item)"
begin

lemma rel_recoverExisting: "state_io_rel R (recoverExisting item)"
  unfolding recoverExisting_def by (intro rel_steps)

lemma rel_deliver_offered: "state_io_rel R (deliver_offered m policy)"
  unfolding deliver_offered_def by (intro rel_steps rel_delivering)

lemma rel_holding: "state_io_rel R (hold item reason)"
  unfolding hold_def by (intro rel_hold_with rel_delivering) simp

lemma rel_offer_new: "state_io_rel R (offer_new m)"
  unfolding offer_new_def Let_def by (auto split: prod.splits intro!: rel_steps rel_deliver_offered rel_holding)

lemma rel_offer_queue: "state_io_rel R (offer_queue m mode identified)"
  unfolding offer_queue_def
  by (intro rel_steps rel_optopt rel_offer_new rel_count_mismatch rel_expire rel_modify rel_recoverExisting)
    (auto simp: quiet_def same_client_def split: option.splits)

lemma rel_offer: "state_io_rel R (offer m)"
proof -
  have claim: "state_io_rel R (claimDedupeInFlight lane ev)" "state_io_rel R (releaseDedupeInFlight lane ev)" for lane ev
    unfolding claimDedupeInFlight_def releaseDedupeInFlight_def
    by (intro rel_rules rel_modify; simp add: quiet_def same_client_def)+
  have "state_io_rel R (offer_claimed m mode)" for mode
    unfolding offer_claimed_def by (intro rel_rules claim rel_identity rel_offer_queue)
  moreover have "state_io_rel R (noteLaneRoute lane pane)" for lane pane
    unfolding noteLaneRoute_def by (auto simp: state_io_rel_def rel_route)
  moreover have "state_io_rel R (noteDedupeUnknown m)"
    unfolding noteDedupeUnknown_def by (intro rel_rules rel_journal rel_modify) (simp add: quiet_def same_client_def)
  ultimately show ?thesis unfolding offer_def Let_def by (intro rel_rules rel_offer_queue)
qed

lemma rel_edit: "state_io_rel R (edit ev txt)"
  unfolding edit_def by (intro rel_steps rel_modify) (simp_all add: quiet_def same_client_def)

lemma rel_cancel: "state_io_rel R (cancel ev)"
  unfolding cancel_def by (intro rel_steps rel_modify) (simp_all add: quiet_def same_client_def)

lemma rel_restore: "state_io_rel R restore"
  unfolding restore_def seedRelayRecvSeq_def Let_def
  by (intro rel_steps rel_modify) (simp_all add: quiet_def same_client_def)

lemma rel_resume: "state_io_rel R resume"
proof -
  have "state_io_rel R reconcileDeliveredHeld"
    unfolding reconcileDeliveredHeld_def by (intro rel_rules rel_modify rel_reconcile_row) (simp_all add: quiet_def same_client_def)
  then show ?thesis unfolding resume_def by (intro rel_steps)
qed

end

text \<open>A relation that every effect and every record keep is kept by the whole manager.\<close>

locale busy_system = busy_delivery R "UNIV :: int set" for R :: "busy \<Rightarrow> busy \<Rightarrow> bool" +
  assumes rel_any_route: "R w (w\<lparr>bz_lanePane := routes\<rparr>)"

sublocale busy_system \<subseteq> busy_manager R
proof
  show "R w (w\<lparr>bz_lanePane := routes\<rparr>)" for w routes by (rule rel_any_route)
  show "state_io_rel R (deliver items expired)" for items expired by (rule rel_deliver) simp
  show "state_io_rel R (relayDeliveredIdentity m mode)" for m mode
    unfolding relayDeliveredIdentity_def
    by (intro rel_rules rel_any rel_on_store held_only_ops rel_optopt rel_count_mismatch rel_journal rel_modify)
      (auto simp: quiet_def same_client_def)
  show "state_io_rel R (reconcile_row mode item)" for mode item
    unfolding reconcile_row_def
    by (intro rel_rules rel_any rel_on_store held_only_ops rel_optopt rel_count_mismatch rel_journal rel_modify)
      (auto simp: quiet_def same_client_def)
qed

end
