(* ===== verification/Relay_Release.thy ===== *)
theory Relay_Release
  imports Relay_Busy_Frame
begin

text \<open>
  Releases of a busy pane's rows as steps that interleave with everything else a node does: releases
  that run at the same time share no row. Two lemmas say what a release does when the store fails.
\<close>

section \<open>Rows in flight\<close>

definition same_inflight :: "busy \<Rightarrow> busy \<Rightarrow> bool" where
  "same_inflight w v \<longleftrightarrow> bz_inflight v = bz_inflight w"

interpretation fl: busy_system same_inflight
  by unfold_locales (auto simp: same_inflight_def quiet_def)

text \<open>
  The releases of a node and everything else its goroutines do, one critical section or one delivery at
  a time. The second component holds the rows of the releases under way.
\<close>

definition row_ids :: "relayHeld list \<Rightarrow> int set" where
  "row_ids items = rh_EventID ` set items"

inductive release_step :: "busy \<times> relayHeld list list \<Rightarrow> busy \<times> relayHeld list list \<Rightarrow> bool" where
  step_begin: "run_state (release_begin pane) w = (Some items, v) \<Longrightarrow> release_step (w, act) (v, items # act)"
| step_nothing: "run_state (release_begin pane) w = (None, v) \<Longrightarrow> release_step (w, act) (v, act)"
| step_working: "run_state (working_begin pane expired) w = (ReleaseRows items past, v) \<Longrightarrow> release_step (w, act) (v, items # act)"
| step_working_nothing: "run_state (working_begin pane expired) w = (r, v) \<Longrightarrow> r = ReleaseNothing \<or> r = KeepWaiting \<Longrightarrow> release_step (w, act) (v, act)"
| step_deliver: "items \<in> set act \<Longrightarrow> run_state (deliverReleased pane items expired) w = (u, v) \<Longrightarrow> release_step (w, act) (v, act)"
| step_finish: "run_state (finishInflight items) w = (u, v) \<Longrightarrow> release_step (w, xs @ items # ys) (v, xs @ ys)"
| step_reconcile: "run_state (reconcileHeld pane) w = (u, v) \<Longrightarrow> release_step (w, act) (v, act)"
| step_arm: "run_state (arm pane) w = (u, v) \<Longrightarrow> release_step (w, act) (v, act)"
| step_offer: "run_state (offer m) w = (b, v) \<Longrightarrow> release_step (w, act) (v, act)"
| step_edit: "run_state (edit ev txt) w = (b, v) \<Longrightarrow> release_step (w, act) (v, act)"
| step_cancel: "run_state (cancel ev) w = (b, v) \<Longrightarrow> release_step (w, act) (v, act)"
| step_restore: "run_state restore w = (u, v) \<Longrightarrow> release_step (w, act) (v, act)"
| step_resume: "run_state resume w = (u, v) \<Longrightarrow> release_step (w, act) (v, act)"

fun apart :: "relayHeld list list \<Rightarrow> bool" where
  "apart [] = True"
| "apart (x # xs) = ((\<forall>y\<in>set xs. row_ids x \<inter> row_ids y = {}) \<and> apart xs)"

definition no_release :: "busy \<times> relayHeld list list \<Rightarrow> bool" where
  "no_release st \<longleftrightarrow> bz_inflight (fst st) = [] \<and> snd st = []"

definition inflight_ok :: "busy \<times> relayHeld list list \<Rightarrow> bool" where
  "inflight_ok st \<longleftrightarrow> set (bz_inflight (fst st)) = (\<Union>items\<in>set (snd st). row_ids items) \<and> apart (snd st)"

lemma apart_remove:
  "apart (xs @ x # ys) \<Longrightarrow> apart (xs @ ys) \<and> (\<forall>y\<in>set (xs @ ys). row_ids x \<inter> row_ids y = {})"
  by (induction xs) auto

lemma snapshot_free:
  "post (heldSnapshot pane) (\<lambda>r v. bz_inflight v = bz_inflight w
     \<and> (\<forall>items. r = Some items \<longrightarrow> row_ids items \<inter> set (bz_inflight w) = {})) w"
proof -
  have "post (heldSnapshot pane) (\<lambda>r v. \<forall>items. r = Some items \<longrightarrow> row_ids items \<inter> set (bz_inflight v) = {}) w"
    unfolding heldSnapshot_def by (auto simp: post_rules post_def row_ids_def split: prod.splits)
  from post_conj [OF post_rel [OF fl.rel_heldSnapshot, where w = w] this]
  show ?thesis by (rule post_mono) (auto simp: same_inflight_def)
qed

text \<open>What a critical section that starts a release does to the rows in flight.\<close>

definition starts :: "busy \<Rightarrow> relayHeld list \<Rightarrow> busy \<Rightarrow> bool" where
  "starts w items v \<longleftrightarrow> bz_inflight v = map rh_EventID items @ bz_inflight w \<and> row_ids items \<inter> set (bz_inflight w) = {}"

lemma release_begin_starts:
  "post (release_begin pane) (\<lambda>r v. (case r of None \<Rightarrow> bz_inflight v = bz_inflight w | Some items \<Rightarrow> starts w items v)) w"
  unfolding release_begin_def post_bind
  by (rule post_mono [OF snapshot_free])
    (auto simp: post_rules detach_def markInflight_def starts_def split: option.splits)

lemma working_begin_starts:
  "post (working_begin pane expired) (\<lambda>r v. (case r of ReleaseRows items past \<Rightarrow> starts w items v | _ \<Rightarrow> bz_inflight v = bz_inflight w)) w"
  unfolding working_begin_def post_bind
  by (rule post_mono [OF snapshot_free])
    (auto simp: post_rules detach_def markInflight_def starts_def record_effect_def row_ids_def Let_def split: option.splits)

lemma starts_ok: "inflight_ok (w, act) \<Longrightarrow> starts w items v \<Longrightarrow> inflight_ok (v, items # act)"
  by (auto simp: inflight_ok_def starts_def row_ids_def)

lemma same_ok: "inflight_ok (w, act) \<Longrightarrow> bz_inflight v = bz_inflight w \<Longrightarrow> inflight_ok (v, act)"
  by (simp add: inflight_ok_def)

lemma finish_ok:
  assumes "inflight_ok (w, xs @ items # ys)" "run_state (finishInflight items) w = (u, v)"
  shows "inflight_ok (v, xs @ ys)"
proof -
  have v: "set (bz_inflight v) = set (bz_inflight w) - row_ids items"
    using assms(2) by (auto simp: finishInflight_def row_ids_def)
  have "apart (xs @ ys)" "\<forall>y\<in>set (xs @ ys). row_ids items \<inter> row_ids y = {}"
    using apart_remove [of xs items ys] assms(1) by (simp_all add: inflight_ok_def)
  then show ?thesis using assms(1) v by (auto simp: inflight_ok_def)
qed

lemma release_step_ok: "release_step st st' \<Longrightarrow> inflight_ok st \<Longrightarrow> inflight_ok st'"
proof (induction rule: release_step.induct)
  case (step_begin pane w items v act)
  then show ?case using postD [OF release_begin_starts step_begin(1)] starts_ok by fastforce
next
  case (step_nothing pane w v act)
  then show ?case using postD [OF release_begin_starts step_nothing(1)] same_ok by fastforce
next
  case (step_working pane expired w items past v act)
  then show ?case using postD [OF working_begin_starts step_working(1)] starts_ok by fastforce
next
  case (step_working_nothing pane expired w r v act)
  then show ?case using postD [OF working_begin_starts step_working_nothing(1)] same_ok by fastforce
next
  case (step_finish items w u v xs ys)
  then show ?case using finish_ok by blast
qed (auto simp: same_inflight_def intro: same_ok dest!: state_io_relD [OF fl.rel_deliverReleased, rotated] state_io_relD [OF fl.rel_reconcileHeld]
     state_io_relD [OF fl.rel_arm] state_io_relD [OF fl.rel_offer] state_io_relD [OF fl.rel_edit] state_io_relD [OF fl.rel_cancel]
     state_io_relD [OF fl.rel_restore] state_io_relD [OF fl.rel_resume])

interpretation releases: transition_system no_release release_step inflight_ok
proof
  show "inflight_ok st" if "no_release st" for st using that by (simp add: no_release_def inflight_ok_def)
  show "inflight_ok st'" if "inflight_ok st" "release_step st st'" for st st' using release_step_ok that by blast
qed

lemma apart_nth: "apart xs \<Longrightarrow> i < j \<Longrightarrow> j < length xs \<Longrightarrow> row_ids (xs ! i) \<inter> row_ids (xs ! j) = {}"
proof (induction xs arbitrary: i j)
  case (Cons x xs)
  then show ?case by (cases i; cases j) auto
qed simp

text \<open>
  C35: no row is delivered by two releases at once. However the wake-ups of panes, working panes,
  arrivals, edits, cancellations and restarts interleave, the releases under way have no event in
  common, and the events in flight are exactly theirs.
\<close>

theorem releases_never_share_rows:
  assumes "no_release st" "release_step\<^sup>*\<^sup>* st st'"
  shows "set (bz_inflight (fst st')) = (\<Union>items\<in>set (snd st'). row_ids items)
    \<and> (\<forall>i j. i < j \<and> j < length (snd st') \<longrightarrow> row_ids (snd st' ! i) \<inter> row_ids (snd st' ! j) = {})"
  using releases.inv_reachable [OF assms] apart_nth by (auto simp: inflight_ok_def)

definition idle_node :: "held_row list \<Rightarrow> busy" where
  "idle_node rows = \<lparr>bz_store = Some \<lparr>relay_sent = [], relay_held = rows, relay_delivered = [], relay_meta = [], sql_faults = []\<rparr>,
     bz_held = [], bz_waits = [], bz_nextWait = 0, bz_cancelled = [], bz_inflight = [], bz_lanePane = [], bz_dedupeInFlight = [],
     bz_cmdHoldUntil = [], bz_restorePending = False, bz_suppressed = 0, bz_wouldSuppress = 0, bz_mismatch = 0, bz_unknown = 0,
     bz_recvSeq = 0, bz_emitter = True, bz_command = True, bz_seam = PaneProgram, bz_spinner = (\<lambda>s. False), bz_dedupeEnv = ''apply'',
     bz_cmdHoldMax = 0, bz_inboxRoot = [], bz_jobs = [], bz_now = 0, bz_clock = [], bz_gets = [], bz_waitReplies = [], bz_injects = [], bz_log = []\<rparr>"

definition pane_row :: "string \<Rightarrow> int \<Rightarrow> held_row" where
  "pane_row pane i = held_row_of ((sample_row i ''note'')\<lparr>rh_Pane := pane\<rparr>) i"

lemmas run_busy = release_begin_def heldSnapshot_def on_store_def RelayHeldForPane_def ok_of_def detach_def markInflight_def
  act_defs sql_def idle_node_def pane_row_def held_row_of_def sample_row_def scan_held_def

lemma two_releases:
  "\<exists>v w. run_state (release_begin ''w1:p1'') (idle_node [pane_row ''w1:p1'' 7, pane_row ''w2:p2'' 8]) = (Some [scan_held (pane_row ''w1:p1'' 7)], v)
     \<and> run_state (release_begin ''w2:p2'') v = (Some [scan_held (pane_row ''w2:p2'' 8)], w)"
  by (simp add: run_busy)

theorem releases_never_share_rows_witness:
  "\<exists>st. no_release (idle_node [pane_row ''w1:p1'' 7, pane_row ''w2:p2'' 8], [])
     \<and> release_step\<^sup>*\<^sup>* (idle_node [pane_row ''w1:p1'' 7, pane_row ''w2:p2'' 8], []) st
     \<and> length (snd st) = 2 \<and> set (bz_inflight (fst st)) = {7, 8} \<and> row_ids (snd st ! 0) \<inter> row_ids (snd st ! 1) = {}"
proof -
  let ?w = "idle_node [pane_row ''w1:p1'' 7, pane_row ''w2:p2'' 8]"
  obtain v u where v: "run_state (release_begin ''w1:p1'') ?w = (Some [scan_held (pane_row ''w1:p1'' 7)], v)"
    and u: "run_state (release_begin ''w2:p2'') v = (Some [scan_held (pane_row ''w2:p2'' 8)], u)"
    using two_releases by blast
  let ?st = "(u, [[scan_held (pane_row ''w2:p2'' 8)], [scan_held (pane_row ''w1:p1'' 7)]])"
  have none: "no_release (?w, [])" by (simp add: no_release_def idle_node_def)
  have steps: "release_step\<^sup>*\<^sup>* (?w, []) ?st"
    using step_begin [OF v, of "[]"] step_begin [OF u, of "[[scan_held (pane_row ''w1:p1'' 7)]]"]
    by (meson converse_rtranclp_into_rtranclp rtranclp.rtrancl_refl)
  have "row_ids [scan_held (pane_row ''w1:p1'' 7)] = {7}" "row_ids [scan_held (pane_row ''w2:p2'' 8)] = {8}"
    by (simp_all add: row_ids_def scan_held_def pane_row_def held_row_of_def sample_row_def)
  then show ?thesis
    using none steps releases_never_share_rows [OF none steps] by (intro exI [of _ ?st]) auto
qed


section \<open>Failures of the store\<close>

text \<open>
  When the rows of the pane cannot be read, a release of a working pane schedules another wait, and a
  release of an idle pane does not: its rows stay held and no wait is left to release them.
\<close>

lemma release_read_error:
  assumes "bz_store w = Some s" "sql_faults s = True # fs"
  shows "run_state (release pane expired) w = ((), w\<lparr>bz_store := Some (s\<lparr>sql_faults := fs\<rparr>)\<rparr>)
    \<and> bz_log (snd (run_state (releaseWorking pane expired) w)) = bz_log w @ [WaitLater pane]"
  using assms
  by (simp add: release_def release_begin_def releaseWorking_def working_begin_def heldSnapshot_def on_store_def RelayHeldForPane_def
      act_defs sql_def ok_of_def record_effect_def)

text \<open>
  The lease gate holds a row again when the occupant of the pane cannot be read. When the store refuses
  that row, it is delivered to the pane at once, although its lease was not verified.
\<close>

lemma gate_delivers_on_store_error:
  assumes "lp_unverifiable p" "rh_EventID item \<noteq> 0" "rh_Lane item \<noteq> []" "rh_Pane item \<noteq> relayCancelledPane"
    "wrap64 (rh_Attempts item + 1) < relayMaxInjectAttempts" "bz_clock w = []" "bz_store w = Some s" "sql_faults s = True # True # fs"
  shows "run_state (gate_row p expired item) w = (None, snd (run_state
     (deliver [item\<lparr>rh_Attempts := wrap64 (rh_Attempts item + 1), rh_HeldSince := bz_now w\<rparr>] False) (w\<lparr>bz_store := Some (s\<lparr>sql_faults := fs\<rparr>)\<rparr>)))"
  using assms
  by (simp add: gate_row_def retryOrDrop_def retryOrDropWithin_def retryOrDropWithin_with_def hold_with_def nowUTC_def on_store_def
      DeleteRelayHeld_def held_stmt_def InsertRelayHeld_def node_tx_def act_defs sql_def ok_of_def Let_def split: prod.splits)

end
