(* ===== verification/Relay_No_Loss.thy ===== *)
theory Relay_No_Loss
  imports Relay_Release
begin

text \<open>
  No row is lost: a calculus of computations that account for rows, by reporting their end or by
  leaving them in the store, and that leave the rows of other events alone, carried through \<open>hold\<close>,
  \<open>deliver\<close>, the gate of a release and \<open>release\<close>.
\<close>

section \<open>No row is lost\<close>

definition ends :: "int \<Rightarrow> hub_report \<Rightarrow> bool" where
  "ends ev r = (case r of RelayDelivered p \<Rightarrow> ap_OriginalEventID p = ev | RelayDropped p \<Rightarrow> dp_OriginalEventID p = ev | _ \<Rightarrow> False)"

definition stored :: "busy \<Rightarrow> relayHeld \<Rightarrow> bool" where
  "stored w item = (case bz_store w of None \<Rightarrow> False | Some s \<Rightarrow> has_key held_key (rh_Lane item, rh_EventID item) (relay_held s))"

text \<open>A row is accounted for: its end was reported among the effects from a position on, or it is held in the store.\<close>

definition accounted :: "nat \<Rightarrow> relayHeld \<Rightarrow> busy \<Rightarrow> bool" where
  "accounted n item w \<longleftrightarrow> (\<exists>r. Report r \<in> set (drop n (bz_log w)) \<and> ends (rh_EventID item) r) \<or> stored w item"

definition held_rest :: "int set \<Rightarrow> busy \<Rightarrow> held_row list option" where
  "held_rest I w = map_option (\<lambda>s. filter (\<lambda>r. hr_event r \<notin> I) (relay_held s)) (bz_store w)"

definition others :: "int set \<Rightarrow> busy \<Rightarrow> busy \<Rightarrow> bool" where
  "others I w v \<longleftrightarrow> (\<exists>es. bz_log v = bz_log w @ es) \<and> bz_emitter v = bz_emitter w \<and> held_rest I v = held_rest I w"

interpretation oth: busy_delivery "others I" I for I
  by unfold_locales (auto simp: others_def quiet_def same_client_def held_rest_def held_only_def)

lemma others_mono: "others I w v \<Longrightarrow> I \<subseteq> J \<Longrightarrow> others J w v"
proof -
  assume o: "others I w v" and sub: "I \<subseteq> J"
  have "(hr_event r \<notin> I \<and> hr_event r \<notin> J) = (hr_event r \<notin> J)" for r :: held_row using sub by auto
  then have "held_rest J u = map_option (filter (\<lambda>r. hr_event r \<notin> J)) (held_rest I u)" for u
    by (simp add: held_rest_def option.map_comp comp_def)
  then show ?thesis using o by (simp add: others_def)
qed

lemma rel_others_mono: "state_io_rel (others I) m \<Longrightarrow> I \<subseteq> J \<Longrightarrow> state_io_rel (others J) m"
  by (auto simp: state_io_rel_def intro: others_mono)

lemma has_key_rest:
  "ev \<notin> I \<Longrightarrow> has_key held_key (lane, ev) (filter (\<lambda>r. hr_event r \<notin> I) rows) = has_key held_key (lane, ev) rows"
  by (induction rows) (auto simp: has_key_def held_key_def)

lemma stored_rest:
  "rh_EventID item \<notin> I \<Longrightarrow> stored w item = (case held_rest I w of None \<Rightarrow> False | Some rows \<Rightarrow> has_key held_key (rh_Lane item, rh_EventID item) rows)"
  by (simp add: stored_def held_rest_def has_key_rest split: option.splits)

definition listening :: "nat \<Rightarrow> busy \<Rightarrow> bool" where
  "listening n w \<longleftrightarrow> bz_emitter w \<and> n \<le> length (bz_log w)"

lemma listening_others: "listening n w \<Longrightarrow> others I w v \<Longrightarrow> listening n v"
  by (auto simp: listening_def others_def)

lemma accounted_others:
  "accounted n item w \<Longrightarrow> others I w v \<Longrightarrow> rh_EventID item \<notin> I \<Longrightarrow> listening n w \<Longrightarrow> accounted n item v"
  using stored_rest [of item I] by (auto simp: accounted_def others_def listening_def)

text \<open>A computation that accounts for rows and leaves the rows of other events alone.\<close>

definition settles :: "nat \<Rightarrow> 'a busy_act \<Rightarrow> relayHeld list \<Rightarrow> bool" where
  "settles n m items \<longleftrightarrow> state_io_rel (others (row_ids items)) m
     \<and> (\<forall>w. listening n w \<longrightarrow> post m (\<lambda>_ v. \<forall>item\<in>set items. accounted n item v) w)"

lemma settles_post: "settles n m items \<Longrightarrow> listening n w \<Longrightarrow> post m (\<lambda>_ v. listening n v \<and> (\<forall>item\<in>set items. accounted n item v)) w"
proof -
  assume s: "settles n m items" and l: "listening n w"
  have "state_io_rel (others (row_ids items)) m" "post m (\<lambda>_ v. \<forall>item\<in>set items. accounted n item v) w"
    using s l by (auto simp: settles_def)
  from post_conj [OF post_rel [OF this(1)] this(2)]
  have "post m (\<lambda>x v. others (row_ids items) w v \<and> (\<forall>item\<in>set items. accounted n item v)) w" .
  then show ?thesis by (rule post_mono) (auto intro: listening_others [OF l])
qed

lemma settles_then:
  assumes "settles n m xs" "settles n k ys" "row_ids xs \<inter> row_ids ys = {}"
  shows "settles n (do { m; k }) (xs @ ys)"
  unfolding settles_def
proof (intro conjI allI impI)
  show "state_io_rel (others (row_ids (xs @ ys))) (do { m; k })"
    using assms by (intro oth.rel_bind) (auto simp: settles_def row_ids_def intro: rel_others_mono)
  fix w assume "listening n w"
  show "post (do { m; k }) (\<lambda>_ v. \<forall>item\<in>set (xs @ ys). accounted n item v) w"
    unfolding post_bind
  proof (rule post_mono [OF settles_post [OF assms(1) \<open>listening n w\<close>]])
    fix x v assume v: "listening n v \<and> (\<forall>item\<in>set xs. accounted n item v)"
    have "state_io_rel (others (row_ids ys)) k" "post k (\<lambda>_ v. \<forall>item\<in>set ys. accounted n item v) v"
      using assms(2) v by (auto simp: settles_def)
    from post_conj [OF post_rel [OF this(1)] this(2)]
    have "post k (\<lambda>x u. others (row_ids ys) v u \<and> (\<forall>item\<in>set ys. accounted n item u)) v" .
    then show "post k (\<lambda>_ u. \<forall>item\<in>set (xs @ ys). accounted n item u) v"
    proof (rule post_mono)
      fix y u assume u: "others (row_ids ys) v u \<and> (\<forall>item\<in>set ys. accounted n item u)"
      have "accounted n item u" if "item \<in> set xs" for item
      proof (rule accounted_others)
        show "rh_EventID item \<notin> row_ids ys" using that assms(3) by (auto simp: row_ids_def)
      qed (use u v that in auto)
      then show "\<forall>item\<in>set (xs @ ys). accounted n item u" using u by auto
    qed
  qed
qed

lemma settles_nil: "settles n (State_Monad.return x) []"
  by (simp add: settles_def oth.rel_return post_return)

lemma settles_each:
  assumes "\<And>x. x \<in> set xs \<Longrightarrow> settles n (f x) (rows x)" "distinct (map rh_EventID (concat (map rows xs)))"
  shows "settles n (each f xs) (concat (map rows xs))"
  using assms
proof (induction xs)
  case Nil
  then show ?case by (simp add: settles_def oth.rel_return post_return)
next
  case (Cons x xs)
  have "settles n (do { f x; each f xs }) (rows x @ concat (map rows xs))"
    by (rule settles_then) (use Cons in \<open>auto simp: row_ids_def\<close>)
  then show ?case by simp
qed

text \<open>A first step that changes no row, or only rows that are accounted for later.\<close>

lemma settles_after:
  assumes "state_io_rel (others (row_ids items)) m" "\<And>x. settles n (k x) items"
  shows "settles n (State_Monad.bind m k) items"
  unfolding settles_def
proof (intro conjI allI impI)
  show "state_io_rel (others (row_ids items)) (State_Monad.bind m k)"
    using assms by (intro oth.rel_bind) (auto simp: settles_def)
  fix w assume "listening n w"
  then show "post (State_Monad.bind m k) (\<lambda>_ v. \<forall>item\<in>set items. accounted n item v) w"
    unfolding post_bind
    by (intro post_mono [OF post_rel [OF assms(1)]]) (use assms(2) in \<open>auto simp: settles_def intro: listening_others\<close>)
qed

lemma settles_emit:
  "ends (rh_EventID item) r \<Longrightarrow> settles n (emit r) [item]"
  by (auto simp: settles_def listening_def accounted_def emit_def record_effect_def post_rules oth.rel_any [unfolded emit_def record_effect_def]
      intro!: exI [of _ r])


definition proper :: "relayHeld \<Rightarrow> bool" where
  "proper item \<longleftrightarrow> rh_EventID item \<noteq> 0 \<and> rh_Lane item \<noteq> [] \<and> rh_Pane item \<noteq> relayCancelledPane"

lemma row_ids_simps [simp]: "row_ids [item] = {rh_EventID item}" "row_ids [] = {}"
  by (simp_all add: row_ids_def)

lemma ends_reports [simp]:
  "ends ev (drop_report item reason harness) \<longleftrightarrow> rh_EventID item = ev" "ends ev (delivered_report item reason) \<longleftrightarrow> rh_EventID item = ev"
  by (simp_all add: ends_def drop_report_def delivered_report_def)

lemma settles_stop: "proper item \<Longrightarrow> settles n (stopWithoutRetry item harness) [item]"
  by (auto simp: stopWithoutRetry_def proper_def intro!: settles_after settles_emit oth.rel_on_store held_only_ops)

lemma settles_expire: "settles n (expireHeldLease item reason harness) [item]"
  by (auto simp: expireHeldLease_def intro!: settles_after settles_emit oth.rel_on_store held_only_ops)

lemma settles_land_row: "settles n (land_row now reason item) [item]"
  unfolding land_row_def
  by (intro settles_after settles_emit oth.rel_rules oth.rel_any oth.rel_RecordRelayDelivered oth.rel_on_store held_only_ops) simp_all

lemma stored_inserted:
  assumes "run_state (on_store (InsertRelayHeld item)) w = (r, v)" "ok_of r = Some b"
  shows "stored v item"
proof -
  obtain s t where s: "bz_store w = Some s" and t: "InsertRelayHeld item s = (Inr b, t)" and v: "bz_store v = Some t"
    using assms by (auto simp: on_store_def ok_of_def split: option.splits sum.splits prod.splits)
  have "inserted_held item s b t" using wpD [OF InsertRelayHeld_effect t] .
  then show ?thesis using v
    by (auto simp: stored_def inserted_held_def has_key_def ins_ignore_def held_key_def held_row_of_def)
qed

lemma settles_hold:
  assumes "proper item" "settles n (again item) [item]"
  shows "settles n (hold_with again item reason) [item]"
  unfolding settles_def
proof (intro conjI allI impI)
  let ?ins = "on_store (InsertRelayHeld item)"
  have ins: "state_io_rel (others {rh_EventID item}) ?ins" by (intro oth.rel_on_store held_only_ops) simp
  show "state_io_rel (others (row_ids [item])) (hold_with again item reason)"
    using assms(2) by (intro oth.rel_hold_with) (auto simp: settles_def)
  fix w assume l: "listening n w"
  obtain r v where v: "run_state ?ins w = (r, v)" by (cases "run_state ?ins w") auto
  have lv: "listening n v" using listening_others [OF l] state_io_relD [OF ins v] by blast
  show "post (hold_with again item reason) (\<lambda>_ u. \<forall>i\<in>set [item]. accounted n i u) w"
  proof (cases "ok_of r")
    case None
    have "post (again item) (\<lambda>_ u. accounted n item u) v" using assms(2) lv by (simp add: settles_def)
    then show ?thesis using assms(1) v None by (simp add: hold_with_def proper_def post_def split: prod.splits)
  next
    case (Some fresh)
    let ?rest = "do {
        rows \<leftarrow> on_store (RelayHeldForPane (rh_Pane item));
        case ok_of rows of
          None \<Rightarrow> whenS (\<not> fresh) (reportHeld item reason)
        | Some found \<Rightarrow> do {
            put_held (rh_Pane item) (if fresh then map (keep_receipt item) found else found);
            if fresh then do { reportHeld item reason; arm (rh_Pane item) } else do { arm (rh_Pane item); reportHeld item reason }
          } }"
    have rest: "state_io_rel (others {}) ?rest" by (intro oth.rel_steps)
    have "accounted n item v" using stored_inserted [OF v Some] by (simp add: accounted_def)
    then have "post ?rest (\<lambda>_ u. accounted n item u) v"
      using lv by (intro post_mono [OF post_rel [OF rest]]) (auto intro: accounted_others)
    then show ?thesis using assms(1) v Some by (simp add: hold_with_def proper_def post_def split: prod.splits)
  qed
qed

lemma settles_retry:
  assumes "proper item" "m \<le> relayMaxInjectAttempts"
    "\<And>t. wrap64 (rh_Attempts item + 1) < relayMaxInjectAttempts \<Longrightarrow> settles n (again (back_again item t)) [back_again item t]"
  shows "settles n (retryOrDropWithin_with again item m h) [item]"
proof -
  have "accounted n (back_again item t) = accounted n item" "rh_EventID (back_again item t) = rh_EventID item" for t
    by (auto simp: fun_eq_iff accounted_def stored_def back_again_def split: option.splits)
  then have same: "settles n c [back_again item t] = settles n c [item]" for c :: "unit busy_act" and t
    by (simp add: settles_def)
  have p: "proper (back_again item t)" for t using assms(1) by (simp add: proper_def back_again_def)
  have hold: "settles n (hold_with again (back_again item t) reason) [item]" if "wrap64 (rh_Attempts item + 1) < m" for t reason
    using settles_hold [where again = again, OF p, of n t reason] assms(3) [of t] that assms(2) by (simp add: same)
  show ?thesis
    using assms(1) hold
    by (auto simp: retryOrDropWithin_with_def Let_def proper_def simp flip: back_again_def
        intro!: settles_after settles_emit oth.rel_on_store held_only_ops oth.rel_nowUTC)
qed


text \<open>
  A loop that passes rows on and ends the others: what it passes on keeps the order and has distinct
  events, and every other row is accounted for. \<open>ready\<close> is what a round needs of its row at the start.
\<close>

definition round_ok :: "(relayHeld \<Rightarrow> busy \<Rightarrow> bool) \<Rightarrow> nat \<Rightarrow> (relayHeld \<Rightarrow> relayHeld option busy_act) \<Rightarrow> relayHeld \<Rightarrow> bool" where
  "round_ok ready n f x \<longleftrightarrow> state_io_rel (others {rh_EventID x}) (f x) \<and> (\<forall>w. post (f x) (\<lambda>r v. r = None \<or> r = Some x) w)
     \<and> (\<forall>w. listening n w \<and> ready x w \<longrightarrow> post (f x) (\<lambda>r v. (r = Some x \<and> ready x v) \<or> (r = None \<and> accounted n x v)) w)"

definition stable :: "(relayHeld \<Rightarrow> busy \<Rightarrow> bool) \<Rightarrow> bool" where
  "stable ready \<longleftrightarrow> (\<forall>x I w v. ready x w \<and> others I w v \<and> rh_EventID x \<notin> I \<longrightarrow> ready x v)"

lemma rel_rounds: "(\<And>x. x \<in> set xs \<Longrightarrow> round_ok ready n f x) \<Longrightarrow> state_io_rel (others (row_ids xs)) (collect f xs)"
  by (rule oth.rel_collect) (auto simp: round_ok_def row_ids_def intro: rel_others_mono)

lemma distinct_ids:
  assumes "distinct (map rh_EventID (ys @ x # zs))" "y \<in> set ys \<or> y \<in> set zs"
  shows "rh_EventID y \<noteq> rh_EventID x"
proof -
  have "rh_EventID x \<notin> rh_EventID ` set ys" "rh_EventID x \<notin> rh_EventID ` set zs" using assms(1) by simp_all
  then show ?thesis using assms(2) by (metis image_eqI)
qed

lemma rounds_passed:
  assumes "distinct (map rh_EventID xs)" "\<And>x. x \<in> set xs \<Longrightarrow> round_ok ready n f x"
  shows "post (collect f xs) (\<lambda>rs v. set rs \<subseteq> set xs \<and> distinct (map rh_EventID rs)) w"
proof (rule post_collect [where I = "\<lambda>ys rs v. set rs \<subseteq> set ys \<and> distinct (map rh_EventID rs)"])
  fix ys x zs rs v assume xs: "xs = ys @ x # zs" and i: "set rs \<subseteq> set ys \<and> distinct (map rh_EventID rs)"
  have "\<forall>y\<in>set rs. rh_EventID y \<noteq> rh_EventID x" using distinct_ids assms(1) xs i by blast
  moreover have "post (f x) (\<lambda>r v. r = None \<or> r = Some x) v" using assms(2) xs by (simp add: round_ok_def)
  ultimately show "post (f x) (\<lambda>r v. set (rs @ (case r of None \<Rightarrow> [] | Some z \<Rightarrow> [z])) \<subseteq> set (ys @ [x])
      \<and> distinct (map rh_EventID (rs @ (case r of None \<Rightarrow> [] | Some z \<Rightarrow> [z])))) v"
    using i by (auto elim!: post_mono)
qed simp

definition sorted_out :: "(relayHeld \<Rightarrow> busy \<Rightarrow> bool) \<Rightarrow> nat \<Rightarrow> relayHeld list \<Rightarrow> relayHeld list \<Rightarrow> busy \<Rightarrow> bool" where
  "sorted_out ready n xs rs v \<longleftrightarrow> listening n v \<and> set rs \<subseteq> set xs \<and> distinct (map rh_EventID rs)
     \<and> (\<forall>x\<in>set xs. if x \<in> set rs then ready x v else accounted n x v)"

lemma post_rounds:
  assumes "stable ready" "distinct (map rh_EventID xs)" "\<And>x. x \<in> set xs \<Longrightarrow> round_ok ready n f x"
    "listening n w" "\<And>x. x \<in> set xs \<Longrightarrow> ready x w"
  shows "post (collect f xs) (sorted_out ready n xs) w"
proof -
  let ?I = "\<lambda>ys rs v. sorted_out ready n ys rs v \<and> (\<forall>x\<in>set xs. x \<notin> set ys \<longrightarrow> ready x v)"
  have "post (collect f xs) (?I xs) w"
  proof (rule post_collect [where I = ?I])
    show "?I [] [] w" using assms(4,5) by (simp add: sorted_out_def)
    fix ys x zs rs v assume xs: "xs = ys @ x # zs" and i: "?I ys rs v"
    have x: "x \<in> set xs" "x \<notin> set ys" "rh_EventID x \<notin> row_ids ys" using xs assms(2) by (auto simp: row_ids_def)
    have l: "listening n v" and r: "ready x v" using i x by (auto simp: sorted_out_def)
    have rel: "state_io_rel (others {rh_EventID x}) (f x)"
      and p: "post (f x) (\<lambda>r v. (r = Some x \<and> ready x v) \<or> (r = None \<and> accounted n x v)) v"
      using assms(3) [OF x(1)] l r by (auto simp: round_ok_def)
    show "post (f x) (\<lambda>r. ?I (ys @ [x]) (rs @ (case r of None \<Rightarrow> [] | Some z \<Rightarrow> [z]))) v"
    proof (rule post_mono [OF post_conj [OF post_rel [OF rel] p]])
      fix r u assume u: "others {rh_EventID x} v u \<and> ((r = Some x \<and> ready x u) \<or> (r = None \<and> accounted n x u))"
      have other: "rh_EventID y \<noteq> rh_EventID x" if "y \<in> set ys \<or> y \<in> set zs" for y
        using distinct_ids [OF _ that] xs assms(2) by blast
      have keep: "ready y u" if "ready y v" "rh_EventID y \<noteq> rh_EventID x" for y
        using assms(1) that u unfolding stable_def by blast
      have keep2: "accounted n y u" if "accounted n y v" "rh_EventID y \<noteq> rh_EventID x" for y
        using accounted_others [of n y v "{rh_EventID x}" u] that u l by simp
      have lu: "listening n u" using u listening_others [OF l] by blast
      show "?I (ys @ [x]) (rs @ (case r of None \<Rightarrow> [] | Some z \<Rightarrow> [z])) u"
        using i u lu keep keep2 other x xs by (auto simp: sorted_out_def row_ids_def split: if_splits option.splits)
    qed
  qed
  then show ?thesis by (rule post_mono) blast
qed

text \<open>The same for a computation that needs something of each row when it starts.\<close>

definition settles_when :: "(relayHeld \<Rightarrow> busy \<Rightarrow> bool) \<Rightarrow> nat \<Rightarrow> 'a busy_act \<Rightarrow> relayHeld list \<Rightarrow> bool" where
  "settles_when ready n m items \<longleftrightarrow> state_io_rel (others (row_ids items)) m
     \<and> (\<forall>w. listening n w \<and> (\<forall>x\<in>set items. ready x w) \<longrightarrow> post m (\<lambda>_ v. \<forall>item\<in>set items. accounted n item v) w)"

lemma settles_whenI: "settles n m items \<Longrightarrow> settles_when ready n m items"
  by (simp add: settles_when_def settles_def)

lemma settles_rounds:
  assumes "stable ready" "distinct (map rh_EventID xs)" "\<And>x. x \<in> set xs \<Longrightarrow> round_ok ready n f x"
    "\<And>rs. set rs \<subseteq> set xs \<Longrightarrow> distinct (map rh_EventID rs) \<Longrightarrow> settles_when ready n (k rs) rs"
    "listening n w" "\<And>x. x \<in> set xs \<Longrightarrow> ready x w"
  shows "post (State_Monad.bind (collect f xs) k) (\<lambda>_ v. \<forall>x\<in>set xs. accounted n x v) w"
  unfolding post_bind
proof (rule post_mono [OF post_rounds [OF assms(1-3,5,6)]])
  fix rs v assume s: "sorted_out ready n xs rs v"
  then have k: "settles_when ready n (k rs) rs" and l: "listening n v" and r: "\<forall>x\<in>set rs. ready x v"
    using assms(4) by (auto simp: sorted_out_def)
  have "state_io_rel (others (row_ids rs)) (k rs)" "post (k rs) (\<lambda>_ v. \<forall>item\<in>set rs. accounted n item v) v"
    using k l r by (auto simp: settles_when_def)
  from post_conj [OF post_rel [OF this(1)] this(2)]
  show "post (k rs) (\<lambda>_ v. \<forall>x\<in>set xs. accounted n x v) v"
  proof (rule post_mono)
    fix y u assume u: "others (row_ids rs) v u \<and> (\<forall>item\<in>set rs. accounted n item u)"
    have "accounted n x u" if "x \<in> set xs" "x \<notin> set rs" for x
    proof (rule accounted_others)
      show "rh_EventID x \<notin> row_ids rs"
        using that s assms(2) by (auto simp: row_ids_def sorted_out_def distinct_map inj_on_def)
    qed (use that s u in \<open>auto simp: sorted_out_def\<close>)
    then show "\<forall>x\<in>set xs. accounted n x u" using u by blast
  qed
qed

lemma stable_True: "stable (\<lambda>x w. True)"
  by (simp add: stable_def)

lemma settles_when_collect:
  assumes "stable ready" "distinct (map rh_EventID xs)" "\<And>x. x \<in> set xs \<Longrightarrow> round_ok ready n f x"
    "\<And>rs. set rs \<subseteq> set xs \<Longrightarrow> distinct (map rh_EventID rs) \<Longrightarrow> settles_when ready n (k rs) rs"
  shows "settles_when ready n (State_Monad.bind (collect f xs) k) xs"
  unfolding settles_when_def
proof (intro conjI allI impI)
  show "state_io_rel (others (row_ids xs)) (State_Monad.bind (collect f xs) k)"
  proof (rule oth.rel_bind_post [OF rel_rounds [OF assms(3)] rounds_passed [OF assms(2,3)]])
    fix rs assume "set rs \<subseteq> set xs \<and> distinct (map rh_EventID rs)"
    then show "state_io_rel (others (row_ids xs)) (k rs)"
      using assms(4) [of rs] by (auto simp: settles_when_def row_ids_def intro: rel_others_mono)
  qed
  fix w assume "listening n w \<and> (\<forall>x\<in>set xs. ready x w)"
  then show "post (State_Monad.bind (collect f xs) k) (\<lambda>_ v. \<forall>x\<in>set xs. accounted n x v) w"
    using settles_rounds [where ready = ready, OF assms] by simp
qed

lemma settles_collect:
  assumes "distinct (map rh_EventID xs)" "\<And>x. x \<in> set xs \<Longrightarrow> round_ok (\<lambda>x w. True) n f x"
    "\<And>rs. set rs \<subseteq> set xs \<Longrightarrow> distinct (map rh_EventID rs) \<Longrightarrow> settles n (k rs) rs"
  shows "settles n (State_Monad.bind (collect f xs) k) xs"
  using settles_when_collect [OF stable_True assms(1,2) settles_whenI [OF assms(3)]] by (simp add: settles_when_def settles_def)

lemma settles_land_group:
  assumes "distinct (map rh_EventID rows)" "\<And>x. x \<in> set rows \<Longrightarrow> proper x"
  shows "settles n (land_group now rows result) rows"
  unfolding land_group_def
proof (rule settles_collect [OF assms(1)])
  fix x assume x: "x \<in> set rows"
  let ?f = "if proven_row result x then State_Monad.return (Some x)
       else do {
         emit (unconfirmed_report x (relayAckReason (''maybe_in_pane nonce_missing '' @ ri_Evidence result)));
         stopWithoutRetry x (ri_Harness result);
         State_Monad.return None
       }"
  have stop: "settles n (do { emit r; stopWithoutRetry x h }) [x]" for r h
    by (rule settles_after [OF oth.rel_any(2) settles_stop [OF assms(2) [OF x]]])
  have rel: "state_io_rel (others {rh_EventID x}) ?f" by (intro oth.rel_rules oth.rel_any oth.rel_stop) simp
  moreover have "post ?f (\<lambda>r v. r = None \<or> r = Some x) w" for w by (auto simp: post_def split: prod.splits)
  moreover have "post ?f (\<lambda>r v. r = Some x \<and> True \<or> r = None \<and> accounted n x v) w" if "listening n w" for w
    using stop that unfolding settles_def by (auto simp: post_rules post_def split: prod.splits)
  ultimately show "round_ok (\<lambda>x w. True) n (\<lambda>x. if proven_row result x then State_Monad.return (Some x)
       else do {
         emit (unconfirmed_report x (relayAckReason (''maybe_in_pane nonce_missing '' @ ri_Evidence result)));
         stopWithoutRetry x (ri_Harness result);
         State_Monad.return None
       }) x" unfolding round_ok_def by blast
next
  fix rs assume "set rs \<subseteq> set rows" "distinct (map rh_EventID rs)"
  then have "settles n (each (land_row now reason) rs) rs" for reason
    using settles_each [of rs n "land_row now reason" "\<lambda>x. [x]"] settles_land_row by simp
  then show "settles n (do {
      whenS (length rs > 1) (emit (RelayBatched (rh_Pane (hd rs)) (rh_Lane (hd rs)) (map rh_EventID rs)));
      each (land_row now (if ri_Outcome result = relayInjectQueued then ''queued '' @ ri_Evidence result else ri_Evidence result)) rs }) rs"
    by (intro settles_after oth.rel_rules oth.rel_any)
qed

definition returns_settled :: "nat \<Rightarrow> (relayHeld \<Rightarrow> unit busy_act) \<Rightarrow> relayHeld \<Rightarrow> bool" where
  "returns_settled n again x \<longleftrightarrow> (\<forall>t. wrap64 (rh_Attempts x + 1) < relayMaxInjectAttempts \<longrightarrow> settles n (again (back_again x t)) [back_again x t])"

lemma settles_group:
  assumes "distinct (map rh_EventID rows)" "\<And>x. x \<in> set rows \<Longrightarrow> proper x \<and> returns_settled n again x"
  shows "settles n (settle_group again now rows imm result) rows"
proof -
  have retry: "settles n (do { emit r; retryOrDropWithin_with again x (attempts_allowed imm h) h }) [x]" if "x \<in> set rows" for x r h
    using assms(2) [OF that] attempts_allowed_bound
    by (intro settles_after [OF oth.rel_any(2)] settles_retry) (auto simp: returns_settled_def)
  have stop: "settles n (do { emit r; stopWithoutRetry x h }) [x]" if "x \<in> set rows" for x r h
    using assms(2) [OF that] by (intro settles_after [OF oth.rel_any(2)] settles_stop) simp
  have "settles n (land_group now rows result) rows" using assms by (intro settles_land_group) auto
  then show ?thesis
    unfolding settle_group_def
    using settles_each [of rows n _ "\<lambda>x. [x]"] retry stop assms(1) by (cases "ri_Outcome result") simp_all
qed

lemma round_routed:
  "round_ok (\<lambda>x w. True) n (\<lambda>item. do {
     moved \<leftarrow> gets (\<lambda>w. laneRerouted w item);
     if moved then do { expireHeldLease item ''lane_rerouted'' []; State_Monad.return None } else State_Monad.return (Some item) }) x"
proof -
  let ?f = "do {
     moved \<leftarrow> gets (\<lambda>w. laneRerouted w x);
     if moved then do { expireHeldLease x ''lane_rerouted'' []; State_Monad.return None } else State_Monad.return (Some x) }"
  have "state_io_rel (others {rh_EventID x}) ?f" by (intro oth.rel_rules oth.rel_expire) simp
  moreover have "post ?f (\<lambda>r v. r = None \<or> r = Some x) w" for w by (auto simp: post_def split: prod.splits)
  moreover have "post ?f (\<lambda>r v. r = Some x \<and> True \<or> r = None \<and> accounted n x v) w" if "listening n w" for w
    using settles_expire that unfolding settles_def by (auto simp: post_rules)
  ultimately show ?thesis unfolding round_ok_def by blast
qed

lemma settles_deliver_group:
  assumes "distinct (map rh_EventID rows)" "\<And>x. x \<in> set rows \<Longrightarrow> proper x \<and> returns_settled n again x"
  shows "settles n (deliver_group again expired now rows) rows"
  unfolding deliver_group_def routed_def
proof (rule settles_collect [OF assms(1) round_routed])
  fix live assume live: "set live \<subseteq> set rows" "distinct (map rh_EventID live)"
  have "settles n (settle_group again now live imm result) live" for imm result
    using live assms(2) by (intro settles_group) auto
  then show "settles n (if live = [] then State_Monad.return ()
     else do {
       let text = relayBatchText live expired now;
       let immediate = relayGroupImmediate live;
       first \<leftarrow> inject live text;
       result \<leftarrow> (if immediate \<and> relayRetriesOnce first then inject live text else State_Monad.return first);
       settle_group again now live immediate result
     }) live"
    by (auto simp: Let_def settles_nil intro!: settles_after oth.rel_inject oth.rel_return)
qed

lemma settles_deliver_with:
  assumes "distinct (map rh_EventID items)" "\<And>x. x \<in> set items \<Longrightarrow> proper x \<and> returns_settled n again x"
  shows "settles n (deliver_with again items expired) items"
proof (cases "items = []")
  case True
  then show ?thesis by (simp add: deliver_with_def settles_def oth.rel_return post_return)
next
  case False
  then have pane: "rh_Pane (hd items) \<noteq> relayCancelledPane" using assms(2) [of "hd items"] by (simp add: proper_def)
  let ?items = "sort_key rh_RecvSeq items"
  have perm: "settles n c ?items = settles n c items" for c :: "unit busy_act"
    by (simp add: settles_def row_ids_def)
  have "settles n (each (deliver_group again expired now) (relayBatchGroups ?items expired now)) ?items" for now
  proof -
    let ?gs = "relayBatchGroups ?items expired now"
    have c: "concat (map (\<lambda>g. g) ?gs) = ?items" by (simp add: batch_groups_concat)
    have d: "distinct (map rh_EventID (concat (map (\<lambda>g. g) ?gs)))" unfolding c using assms(1) by (simp add: distinct_map)
    have "settles n (each (deliver_group again expired now) ?gs) (concat (map (\<lambda>g. g) ?gs))"
    proof (rule settles_each [OF settles_deliver_group d])
      fix g assume g: "g \<in> set ?gs"
      then show "distinct (map rh_EventID g)" using d by (auto dest!: split_list)
      show "proper x \<and> returns_settled n again x" if "x \<in> set g" for x
        using assms(2) batch_groups_members [OF g that] by blast
    qed
    then show ?thesis by (simp only: c)
  qed
  then show ?thesis
    using False pane unfolding deliver_with_def perm by (auto intro!: settles_after oth.rel_nowUTC)
qed


lemma settles_deliver_one: "proper item \<Longrightarrow> settles n (deliver [item] False) [item]"
proof (induction "returns_left item" arbitrary: item rule: less_induct)
  case less
  have "returns_settled n (\<lambda>i. deliver [i] False) item"
    unfolding returns_settled_def
  proof (intro allI impI)
    fix t assume "wrap64 (rh_Attempts item + 1) < relayMaxInjectAttempts"
    from returns_left_back [OF this, of t] show "settles n (deliver [back_again item t] False) [back_again item t]"
      using less by (auto simp: proper_def back_again_def)
  qed
  then show ?case unfolding deliver_unfold [of "[item]"] using less.prems by (intro settles_deliver_with) auto
qed

lemma returns_settled_deliver: "proper item \<Longrightarrow> returns_settled n (\<lambda>i. deliver [i] False) item"
  unfolding returns_settled_def by (auto simp: proper_def back_again_def intro: settles_deliver_one)

lemma settles_deliver:
  assumes "distinct (map rh_EventID items)" "\<And>x. x \<in> set items \<Longrightarrow> proper x"
  shows "settles n (deliver items expired) items"
  unfolding deliver_unfold [of items] using assms returns_settled_deliver by (intro settles_deliver_with) auto

lemma settles_retryOrDrop: "proper item \<Longrightarrow> settles n (retryOrDrop item harness) [item]"
  unfolding retryOrDrop_def retryOrDropWithin_def
  by (rule settles_retry) (use returns_settled_deliver in \<open>auto simp: returns_settled_def\<close>)

section \<open>The gate of a release loses no row\<close>

definition same_keys :: "node_store \<Rightarrow> node_store \<Rightarrow> bool" where
  "same_keys s t \<longleftrightarrow> (\<forall>k. has_key held_key k (relay_held t) = has_key held_key k (relay_held s))"

interpretation sk: store_relation same_keys
  by unfold_locales (auto simp: same_keys_def)

lemma stored_on_store: "always same_keys m \<Longrightarrow> stored w x \<Longrightarrow> post (on_store m) (\<lambda>_ v. stored v x) w"
proof -
  assume m: "always same_keys m" and x: "stored w x"
  then obtain s where s: "bz_store w = Some s" by (auto simp: stored_def split: option.splits)
  obtain r t where t: "m s = (r, t)" by (cases "m s") auto
  show ?thesis using alwaysD [OF m t] x s t by (simp add: post_def on_store_def stored_def same_keys_def)
qed

lemma same_keys_extend: "always same_keys (ExtendRelayHeldMaxWait ev d)"
proof -
  have "has_key held_key k (upd P (\<lambda>r. r\<lparr>hr_wait := m\<rparr>) rows) = has_key held_key k rows" for k P m rows
    by (induction rows) (auto simp: has_key_def upd_def held_key_def)
  then show ?thesis
    unfolding ExtendRelayHeldMaxWait_def held_stmt_def by (intro sk.store_rules always_modifyA) (simp add: same_keys_def)
qed

lemma stored_quiet: "stored w x \<Longrightarrow> bz_store v = bz_store w \<Longrightarrow> stored v x"
  by (simp add: stored_def)

lemma stored_keepWorking: "stored w x \<Longrightarrow> post (keepWorkingCmdHold x) (\<lambda>_ v. stored v x) w"
  unfolding keepWorkingCmdHold_def nowUTC_def Let_def
  by (auto simp: post_rules post_def [of "State _"] split: list.splits
      intro!: post_mono [OF stored_on_store [OF same_keys_extend]] elim: stored_quiet)

lemma round_gate:
  assumes "proper x"
  shows "round_ok (\<lambda>x w. stored w x) n (gate_row p expired) x"
  unfolding round_ok_def
proof (intro conjI allI impI)
  show "state_io_rel (others {rh_EventID x}) (gate_row p expired x)" by (rule oth.rel_gate_row) simp
  show "post (gate_row p expired x) (\<lambda>r v. r = None \<or> r = Some x) w" for w by (rule gate_row_same)
  fix w assume w: "listening n w \<and> stored w x"
  have s: "post (do { m; State_Monad.return None }) (\<lambda>r v. r = Some x \<and> stored v x \<or> r = None \<and> accounted n x v) w"
    if "settles n m [x]" for m :: "unit busy_act" using that w by (simp add: settles_def post_rules)
  have retry: "settles n (retryOrDrop x h) [x]" for h by (rule settles_retryOrDrop [OF assms])
  have late: "post (keepWorkingCmdHold x) (\<lambda>kept. post (do {
          whenS (\<not> kept) (do {
            emit (unconfirmed_report x relayDroppedWorkingExpired);
            expireHeldLease x relayDroppedWorkingExpired (lp_harness p) });
          State_Monad.return None }) (\<lambda>r v. r = Some x \<and> stored v x \<or> r = None \<and> accounted n x v)) w"
  proof (rule post_mono [OF post_conj [OF post_rel [OF oth.rel_keepWorking] stored_keepWorking]])
    fix kept v assume v: "others {rh_EventID x} w v \<and> stored v x"
    have "settles n (do { emit (unconfirmed_report x relayDroppedWorkingExpired);
            expireHeldLease x relayDroppedWorkingExpired (lp_harness p) }) [x]"
      by (intro settles_after [OF oth.rel_any(2)] settles_expire)
    moreover have "listening n v" using v w listening_others by blast
    ultimately show "post (do {
          whenS (\<not> kept) (do {
            emit (unconfirmed_report x relayDroppedWorkingExpired);
            expireHeldLease x relayDroppedWorkingExpired (lp_harness p) });
          State_Monad.return None }) (\<lambda>r v. r = Some x \<and> stored v x \<or> r = None \<and> accounted n x v) v"
      using v by (simp add: settles_def post_rules accounted_def)
  qed (use w in simp_all)
  show "post (gate_row p expired x) (\<lambda>r v. r = Some x \<and> stored v x \<or> r = None \<and> accounted n x v) w"
    unfolding gate_row_def
    using s [OF retry] s [OF settles_expire] late w by (auto simp: post_rules accounted_def)
qed


abbreviation in_store :: "relayHeld \<Rightarrow> busy \<Rightarrow> bool" where
  "in_store \<equiv> \<lambda>x w. stored w x"

lemma stable_stored: "stable in_store"
  using stored_rest by (auto simp: stable_def others_def)

lemma round_routed_stored:
  "round_ok in_store n (\<lambda>item. do {
     moved \<leftarrow> gets (\<lambda>w. laneRerouted w item);
     if moved then do { expireHeldLease item ''lane_rerouted'' []; State_Monad.return None } else State_Monad.return (Some item) }) x"
proof -
  let ?f = "do {
     moved \<leftarrow> gets (\<lambda>w. laneRerouted w x);
     if moved then do { expireHeldLease x ''lane_rerouted'' []; State_Monad.return None } else State_Monad.return (Some x) }"
  have "post ?f (\<lambda>r v. r = Some x \<and> stored v x \<or> r = None \<and> accounted n x v) w" if "listening n w" "stored w x" for w
    using settles_expire that unfolding settles_def by (auto simp: post_rules)
  then show ?thesis using round_routed [of n x] unfolding round_ok_def by blast
qed

lemma settles_when_after:
  assumes "state_io_rel (others {}) m" "\<And>x. settles_when ready n (k x) items" "stable ready"
  shows "settles_when ready n (State_Monad.bind m k) items"
  unfolding settles_when_def
proof (intro conjI allI impI)
  show "state_io_rel (others (row_ids items)) (State_Monad.bind m k)"
    using assms by (intro oth.rel_bind) (auto simp: settles_when_def intro: rel_others_mono)
  fix w assume w: "listening n w \<and> (\<forall>x\<in>set items. ready x w)"
  show "post (State_Monad.bind m k) (\<lambda>_ v. \<forall>item\<in>set items. accounted n item v) w"
    unfolding post_bind
  proof (rule post_mono [OF post_rel [OF assms(1)]])
    fix x v assume v: "others {} w v"
    then have "listening n v" "\<forall>x\<in>set items. ready x v"
      using w assms(3) unfolding stable_def by (blast intro: listening_others)+
    then show "post (k x) (\<lambda>_ v. \<forall>item\<in>set items. accounted n item v) v"
      using assms(2) by (simp add: settles_when_def)
  qed
qed

lemma settles_when_then:
  assumes "settles n m xs" "settles_when ready n k ys" "row_ids xs \<inter> row_ids ys = {}" "stable ready"
  shows "settles_when ready n (do { m; k }) (xs @ ys)"
  unfolding settles_when_def
proof (intro conjI allI impI)
  show "state_io_rel (others (row_ids (xs @ ys))) (do { m; k })"
    using assms by (intro oth.rel_bind) (auto simp: settles_def settles_when_def row_ids_def intro: rel_others_mono)
  fix w assume w: "listening n w \<and> (\<forall>x\<in>set (xs @ ys). ready x w)"
  have m: "state_io_rel (others (row_ids xs)) m" using assms(1) by (simp add: settles_def)
  show "post (do { m; k }) (\<lambda>_ v. \<forall>item\<in>set (xs @ ys). accounted n item v) w"
    unfolding post_bind
  proof (rule post_mono [OF post_conj [OF post_rel [OF m] settles_post [OF assms(1)]]])
    show "listening n w" using w by simp
    fix x v assume v: "others (row_ids xs) w v \<and> listening n v \<and> (\<forall>item\<in>set xs. accounted n item v)"
    have "ready y v" if "y \<in> set ys" for y
    proof -
      have "rh_EventID y \<notin> row_ids xs" using assms(3) that by (auto simp: row_ids_def)
      moreover have "ready y w" using w that by simp
      ultimately show ?thesis using assms(4) v unfolding stable_def by blast
    qed
    then have "state_io_rel (others (row_ids ys)) k" "post k (\<lambda>_ v. \<forall>item\<in>set ys. accounted n item v) v"
      using assms(2) v by (auto simp: settles_when_def)
    from post_conj [OF post_rel [OF this(1)] this(2)]
    show "post k (\<lambda>_ u. \<forall>item\<in>set (xs @ ys). accounted n item u) v"
    proof (rule post_mono)
      fix y u assume u: "others (row_ids ys) v u \<and> (\<forall>item\<in>set ys. accounted n item u)"
      have "accounted n item u" if "item \<in> set xs" for item
      proof (rule accounted_others)
        show "rh_EventID item \<notin> row_ids ys" using that assms(3) by (auto simp: row_ids_def)
      qed (use u v that in auto)
      then show "\<forall>item\<in>set (xs @ ys). accounted n item u" using u by auto
    qed
  qed
qed

lemma settles_when_set: "set xs = set ys \<Longrightarrow> settles_when ready n m xs = settles_when ready n m ys"
  by (simp add: settles_when_def row_ids_def)

lemma settles_when_idle: "settles_when in_store n (State_Monad.return ()) items"
  by (simp add: settles_when_def oth.rel_return post_return accounted_def)

lemma settles_deliver_rest:
  assumes "distinct (map rh_EventID items)" "\<And>x. x \<in> set items \<Longrightarrow> proper x"
  shows "settles_when in_store n (deliver_rest pane expired items) items"
  using assms
proof (induction items)
  case (Cons item rest)
  have one: "settles n (deliver [item] expired) [item]" by (rule settles_deliver) (use Cons.prems in auto)
  have "settles_when in_store n (do { deliver [item] expired; deliver_rest pane expired rest }) ([item] @ rest)"
    by (rule settles_when_then [OF one _ _ stable_stored]) (use Cons in \<open>auto simp: row_ids_def\<close>)
  then show ?case
    by (auto simp: whenS_def settles_when_idle intro!: settles_when_after [OF _ _ stable_stored] oth.rel_paneIdleOrDone)
qed (simp add: settles_when_idle)

lemma settles_released:
  assumes "distinct (map rh_EventID rows)" "\<And>x. x \<in> set rows \<Longrightarrow> proper x"
  shows "settles_when in_store n
    (if \<not> harnessPaneTransport h \<or> length rows < 2 then deliver rows expired
     else case sort_key rh_RecvSeq rows of
            [] \<Rightarrow> State_Monad.return ()
          | item # rest \<Rightarrow> do { deliver [item] expired; deliver_rest pane expired rest }) rows"
proof -
  have "settles_when in_store n (case sort_key rh_RecvSeq rows of
            [] \<Rightarrow> State_Monad.return ()
          | item # rest \<Rightarrow> do { deliver [item] expired; deliver_rest pane expired rest }) rows"
  proof (cases "sort_key rh_RecvSeq rows")
    case Nil
    then show ?thesis by (simp add: settles_when_idle)
  next
    case (Cons x xs)
    have set: "set (x # xs) = set rows" and d: "distinct (map rh_EventID (x # xs))"
      using assms(1) Cons [symmetric] by (simp_all add: distinct_map)
    have one: "settles n (deliver [x] expired) [x]" by (rule settles_deliver) (use assms(2) set in auto)
    have "settles_when in_store n (do { deliver [x] expired; deliver_rest pane expired xs }) ([x] @ xs)"
    proof (rule settles_when_then [OF one _ _ stable_stored])
      show "settles_when in_store n (deliver_rest pane expired xs) xs"
        using assms(2) set d by (intro settles_deliver_rest) auto
      show "row_ids [x] \<inter> row_ids xs = {}" using d by (auto simp: row_ids_def)
    qed
    moreover have same: "set ([x] @ xs) = set rows" using set by simp
    ultimately have "settles_when in_store n (do { deliver [x] expired; deliver_rest pane expired xs }) rows"
      using settles_when_set [OF same] by blast
    then show ?thesis using Cons by simp
  qed
  then show ?thesis using settles_whenI [OF settles_deliver [OF assms]] by simp
qed

lemma settles_deliverReleased:
  assumes "distinct (map rh_EventID items)" "\<And>x. x \<in> set items \<Longrightarrow> proper x"
  shows "settles_when in_store n (deliverReleased pane items expired) items"
proof -
  let ?k = "\<lambda>gated. if \<not> harnessPaneTransport (snd gated) \<or> length (fst gated) < 2 then deliver (fst gated) expired
     else case sort_key rh_RecvSeq (fst gated) of
            [] \<Rightarrow> State_Monad.return ()
          | item # rest \<Rightarrow> do { deliver [item] expired; deliver_rest pane expired rest }"
  have k: "settles_when in_store n (?k (rows, h)) rows" if "set rows \<subseteq> set items" "distinct (map rh_EventID rows)" for rows h
  proof -
    have "settles_when in_store n (if \<not> harnessPaneTransport h \<or> length rows < 2 then deliver rows expired
     else case sort_key rh_RecvSeq rows of
            [] \<Rightarrow> State_Monad.return ()
          | item # rest \<Rightarrow> do { deliver [item] expired; deliver_rest pane expired rest }) rows"
      by (rule settles_released [OF that(2)]) (use assms(2) that(1) in blast)
    then show ?thesis by (simp only: fst_conv snd_conv)
  qed
  have gate: "settles_when in_store n (do {
      p \<leftarrow> probe_lease (rh_Pane (hd survivors));
      rows \<leftarrow> collect (gate_row p expired) survivors;
      ?k (rows, lp_harness p) }) survivors"
    if s: "set survivors \<subseteq> set items" "distinct (map rh_EventID survivors)" for survivors
  proof (rule settles_when_after [OF oth.rel_probe _ stable_stored], rule settles_when_collect [OF stable_stored s(2)])
    fix p x assume "x \<in> set survivors"
    then show "round_ok in_store n (gate_row p expired) x" using s(1) assms(2) by (intro round_gate) blast
  next
    fix p rs assume "set rs \<subseteq> set survivors" "distinct (map rh_EventID rs)"
    then show "settles_when in_store n (?k (rs, lp_harness p)) rs" using s(1) k by blast
  qed
  have "settles_when in_store n (do {
      survivors \<leftarrow> routed items;
      if survivors = [] then ?k ([], [])
      else do {
        p \<leftarrow> probe_lease (rh_Pane (hd survivors));
        rows \<leftarrow> collect (gate_row p expired) survivors;
        ?k (rows, lp_harness p) } }) items"
    unfolding routed_def
  proof (rule settles_when_collect [OF stable_stored assms(1) round_routed_stored])
    fix survivors assume s: "set survivors \<subseteq> set items" "distinct (map rh_EventID survivors)"
    show "settles_when in_store n (if survivors = [] then ?k ([], [])
      else do {
        p \<leftarrow> probe_lease (rh_Pane (hd survivors));
        rows \<leftarrow> collect (gate_row p expired) survivors;
        ?k (rows, lp_harness p) }) survivors"
      using gate [OF s] k [of "[]" "[]"] by (cases "survivors = []") simp_all
  qed
  moreover have "deliverReleased pane items expired = do {
      survivors \<leftarrow> routed items;
      if survivors = [] then ?k ([], [])
      else do {
        p \<leftarrow> probe_lease (rh_Pane (hd survivors));
        rows \<leftarrow> collect (gate_row p expired) survivors;
        ?k (rows, lp_harness p) } }"
    unfolding deliverReleased_def filterDeliverableHeld_def
    by (simp add: if_distrib [where f = "\<lambda>m. State_Monad.bind m _"] cong: if_cong)
  ultimately show ?thesis by simp
qed


lemma rel_detach: "state_io_rel (others {}) (detach pane items)" "state_io_rel (others {}) (finishInflight items)"
  by (auto simp: state_io_rel_def detach_def markInflight_def finishInflight_def others_def held_rest_def)

lemma rel_release_parts: "state_io_rel (others {}) (release_begin pane)" "state_io_rel (others {}) (release_end pane items)"
  unfolding release_begin_def release_end_def
  by (intro oth.rel_rules oth.rel_heldSnapshot rel_detach oth.rel_reconcileHeld oth.rel_arm)+

lemma begin_rows:
  assumes "bz_store w = Some s"
  shows "post (release_begin pane) (\<lambda>r v. \<forall>items. r = Some items \<longrightarrow>
     items = filter (\<lambda>x. rh_EventID x \<notin> set (bz_inflight w)) (map scan_held (sort_key hr_seq (filter (\<lambda>r. hr_pane r = pane) (relay_held s))))) w"
proof -
  obtain f t where f: "sql s = (f, t)" "t = s\<lparr>sql_faults := sql_faults t\<rparr>" by (cases "sql_faults s") (auto simp: sql_def)
  then have "relay_held t = relay_held s" by (metis node_store.select_convs(2) node_store.surjective node_store.update_convs(5))
  then show ?thesis using assms f(1)
    by (cases f) (auto simp: release_begin_def heldSnapshot_def on_store_def RelayHeldForPane_def act_defs ok_of_def post_def detach_def markInflight_def split: if_splits)
qed

lemma released_items:
  assumes "distinct (map hr_event rows)" "\<forall>x\<in>set rows. hr_event x \<noteq> 0 \<and> hr_lane x \<noteq> []" "pane \<noteq> relayCancelledPane"
    "items = filter P (map scan_held (sort_key hr_seq (filter (\<lambda>r. hr_pane r = pane) rows)))"
  shows "distinct (map rh_EventID items)" "\<And>x. x \<in> set items \<Longrightarrow> proper x \<and> (\<exists>r\<in>set rows. x = scan_held r)"
proof -
  let ?rows = "sort_key hr_seq (filter (\<lambda>r. hr_pane r = pane) rows)"
  have ev: "map rh_EventID (map scan_held ys) = map hr_event ys" for ys by (simp add: scan_held_def)
  have "distinct (map hr_event ?rows)" using assms(1) by (simp add: distinct_map inj_on_def)
  then have "distinct (map rh_EventID (map scan_held ?rows))" by (simp only: ev)
  then show "distinct (map rh_EventID items)" unfolding assms(4) by (rule distinct_map_filter)
  show "proper x \<and> (\<exists>r\<in>set rows. x = scan_held r)" if "x \<in> set items" for x
    using that assms(2,3) by (auto simp: assms(4) proper_def scan_held_def)
qed

text \<open>
  C36: a release loses no row. When a wait on a pane ends, every row held for that pane that no other
  release is delivering is afterwards still held in the store, or the hub was told during the release
  that it was delivered or dropped, whatever the store, the program and the harness answer, on every
  path: rerouted lanes, stale leases, unreadable panes, refused or unproven prompts, retries, rows kept
  for a working pane.
\<close>

theorem release_loses_no_row:
  assumes "bz_store w = Some s" "bz_emitter w" "distinct (map hr_event (relay_held s))"
    "\<forall>x\<in>set (relay_held s). hr_event x \<noteq> 0 \<and> hr_lane x \<noteq> []" "pane \<noteq> relayCancelledPane"
    "r \<in> set (relay_held s)" "hr_pane r = pane" "hr_event r \<notin> set (bz_inflight w)"
    "run_state (release pane expired) w = (u, v)"
  shows "\<exists>es. bz_log v = bz_log w @ es \<and>
    ((\<exists>report. Report report \<in> set es \<and> ends (hr_event r) report)
     \<or> (\<exists>t. bz_store v = Some t \<and> has_key held_key (hr_lane r, hr_event r) (relay_held t)))"
proof -
  let ?n = "length (bz_log w)"
  let ?x = "scan_held r"
  have l: "listening ?n w" using assms(2) by (simp add: listening_def)
  have stored_row: "stored w' (scan_held y)" if "y \<in> set (relay_held s)" "others {} w w'" for y w'
    using that assms(1) by (auto simp: stored_def others_def held_rest_def has_key_def list_ex_iff held_key_def scan_held_def split: option.splits)
  have "post (release pane expired) (\<lambda>_ v. accounted ?n ?x v \<and> (\<exists>es. bz_log v = bz_log w @ es)) w"
    unfolding release_def post_bind
  proof (rule post_mono [OF post_conj [OF post_rel [OF rel_release_parts(1)] begin_rows [OF assms(1)]]])
    fix started w1
    let ?rest = "case started of None \<Rightarrow> State_Monad.return ()
       | Some items \<Rightarrow> do { deliverReleased pane items expired; release_end pane items }"
    assume w1: "others {} w w1 \<and> (\<forall>items. started = Some items \<longrightarrow>
        items = filter (\<lambda>x. rh_EventID x \<notin> set (bz_inflight w)) (map scan_held (sort_key hr_seq (filter (\<lambda>r. hr_pane r = pane) (relay_held s)))))"
    then have l1: "listening ?n w1" using listening_others [OF l] by blast
    show "post ?rest (\<lambda>_ v. accounted ?n ?x v \<and> (\<exists>es. bz_log v = bz_log w @ es)) w1"
    proof (cases started)
      case None
      then show ?thesis using stored_row [OF assms(6)] w1 by (auto simp: post_return accounted_def others_def)
    next
      case (Some items)
      then have items: "items = filter (\<lambda>x. rh_EventID x \<notin> set (bz_inflight w))
          (map scan_held (sort_key hr_seq (filter (\<lambda>r. hr_pane r = pane) (relay_held s))))" using w1 by blast
      note props = released_items [OF assms(3,4,5) items]
      have x: "?x \<in> set items" using assms(6,7,8) by (auto simp: items scan_held_def)
      have "settles_when in_store ?n (deliverReleased pane items expired) items"
        by (rule settles_deliverReleased) (use props in auto)
      moreover have "\<forall>y\<in>set items. stored w1 y" using props(2) stored_row w1 by blast
      ultimately have d: "state_io_rel (others (row_ids items)) (deliverReleased pane items expired)"
        "post (deliverReleased pane items expired) (\<lambda>_ v. \<forall>y\<in>set items. accounted ?n y v) w1"
        using l1 by (auto simp: settles_when_def)
      have "post (do { deliverReleased pane items expired; release_end pane items }) (\<lambda>_ v. accounted ?n ?x v \<and> (\<exists>es. bz_log v = bz_log w @ es)) w1"
        unfolding post_bind
      proof (rule post_mono [OF post_conj [OF post_rel [OF d(1)] d(2)]])
        fix y w2 assume w2: "others (row_ids items) w1 w2 \<and> (\<forall>y\<in>set items. accounted ?n y w2)"
        show "post (release_end pane items) (\<lambda>_ v. accounted ?n ?x v \<and> (\<exists>es. bz_log v = bz_log w @ es)) w2"
        proof (rule post_mono [OF post_rel [OF rel_release_parts(2)]])
          fix z w3 assume w3: "others {} w2 w3"
          have "accounted ?n ?x w3" using accounted_others [of ?n ?x w2 "{}" w3] w2 w3 x listening_others [OF l1] by blast
          then show "accounted ?n ?x w3 \<and> (\<exists>es. bz_log w3 = bz_log w @ es)" using w1 w2 w3 by (auto simp: others_def)
        qed
      qed
      then show ?thesis using Some by simp
    qed
  qed
  from postD [OF this assms(9)] show ?thesis
    by (auto simp: accounted_def stored_def scan_held_def split: option.splits)
qed


theorem release_loses_no_row_witness:
  "\<exists>es. bz_log (snd (run_state (release ''w1:p1'' False) (idle_node [pane_row ''w1:p1'' 7]))) = es \<and>
    ((\<exists>report. Report report \<in> set es \<and> ends 7 report)
     \<or> (\<exists>t. bz_store (snd (run_state (release ''w1:p1'' False) (idle_node [pane_row ''w1:p1'' 7]))) = Some t
          \<and> has_key held_key (''ops'', 7) (relay_held t)))"
proof -
  let ?w = "idle_node [pane_row ''w1:p1'' 7]"
  obtain u v where run: "run_state (release ''w1:p1'' False) ?w = (u, v)" by (cases "run_state (release ''w1:p1'' False) ?w") auto
  obtain s where s: "bz_store ?w = Some s" "relay_held s = [pane_row ''w1:p1'' 7]" "bz_emitter ?w" "bz_inflight ?w = []" "bz_log ?w = []"
    by (simp add: idle_node_def)
  have row: "hr_event (pane_row ''w1:p1'' 7) = 7" "hr_lane (pane_row ''w1:p1'' 7) = ''ops''" "hr_pane (pane_row ''w1:p1'' 7) = ''w1:p1''"
    by (simp_all add: pane_row_def held_row_of_def sample_row_def)
  show ?thesis
    using release_loses_no_row [OF s(1,3) _ _ _ _ _ _ run, of "pane_row ''w1:p1'' 7"] s row run by (simp add: relayCancelledPane_def)
qed

end
