(* ===== verification/Relay_Trust.thy ===== *)
theory Relay_Trust
  imports Relay_No_Loss
begin

text \<open>
  The hub is told that an event was delivered only when a pane showed it. The trust in a node's log and
  in its delivered records is kept by every operation of the manager, from the verdict of one prompt up
  to runs in which releases, arrivals, edits, cancellations and restarts interleave.
\<close>

section \<open>Proof of a delivery\<close>

text \<open>
  An effect proves a row: a prompt whose keys were sent, whose verdict is delivered or queued, and after
  which a screen of the pane showed the row's token as a word of the transcript.
\<close>

definition shows_row :: "inject_call \<Rightarrow> relayHeld \<Rightarrow> bool" where
  "shows_row call item \<longleftrightarrow> (\<exists>screen\<in>set (later_screens (ic_harness call) (ic_io call) (ic_dio call)).
     relayNoncePresent (promptTranscript (rule_harness (ic_harness call)) screen) (relayNonce item))"

fun proves :: "effect \<Rightarrow> string \<Rightarrow> int \<Rightarrow> bool" where
  "proves (Prompted pane text rows call keys result) lane ev \<longleftrightarrow> keys \<noteq> [] \<and> landed result
     \<and> (\<exists>item\<in>set rows. rh_Lane item = lane \<and> rh_EventID item = ev \<and> shows_row call item)"
| "proves e lane ev \<longleftrightarrow> False"

definition proven_in :: "effect list \<Rightarrow> string \<Rightarrow> int \<Rightarrow> bool" where
  "proven_in es lane ev \<longleftrightarrow> (\<exists>e\<in>set es. proves e lane ev)"

definition sound_log :: "effect list \<Rightarrow> bool" where
  "sound_log es \<longleftrightarrow> (\<forall>pre p rest. es = pre @ Report (RelayDelivered p) # rest \<longrightarrow> (\<exists>lane. proven_in pre lane (ap_OriginalEventID p)))"

definition trust :: "busy \<Rightarrow> bool" where
  "trust w \<longleftrightarrow> bz_seam w = PaneProgram \<and> sound_log (bz_log w)
     \<and> (\<forall>s. bz_store w = Some s \<longrightarrow> (\<forall>d\<in>set (relay_delivered s). proven_in (bz_log w) (dr_lane d) (dr_event d)))"

text \<open>A step that keeps the trust, given that some rows are proven before it.\<close>

definition trusts_rows :: "relayHeld list \<Rightarrow> busy \<Rightarrow> busy \<Rightarrow> bool" where
  "trusts_rows rows w v \<longleftrightarrow> (trust w \<and> (\<forall>item\<in>set rows. proven_in (bz_log w) (rh_Lane item) (rh_EventID item)) \<longrightarrow> trust v)
     \<and> (\<exists>es. bz_log v = bz_log w @ es)"

abbreviation trusts :: "busy \<Rightarrow> busy \<Rightarrow> bool" where
  "trusts \<equiv> trusts_rows []"

lemma proven_in_mono: "proven_in es lane ev \<Longrightarrow> proven_in (es @ fs) lane ev"
  by (auto simp: proven_in_def)

lemma sound_snoc:
  "sound_log (es @ [e]) \<longleftrightarrow> sound_log es \<and> (\<forall>p. e = Report (RelayDelivered p) \<longrightarrow> (\<exists>lane. proven_in es lane (ap_OriginalEventID p)))"
proof
  assume s: "sound_log (es @ [e])"
  have "sound_log es" unfolding sound_log_def
  proof (intro allI impI)
    fix pre p rest assume "es = pre @ Report (RelayDelivered p) # rest"
    then have "es @ [e] = pre @ Report (RelayDelivered p) # (rest @ [e])" by simp
    then show "\<exists>lane. proven_in pre lane (ap_OriginalEventID p)" using s unfolding sound_log_def by blast
  qed
  then show "sound_log es \<and> (\<forall>p. e = Report (RelayDelivered p) \<longrightarrow> (\<exists>lane. proven_in es lane (ap_OriginalEventID p)))"
    using s unfolding sound_log_def by blast
next
  assume s: "sound_log es \<and> (\<forall>p. e = Report (RelayDelivered p) \<longrightarrow> (\<exists>lane. proven_in es lane (ap_OriginalEventID p)))"
  show "sound_log (es @ [e])" unfolding sound_log_def
  proof (intro allI impI)
    fix pre p rest assume e: "es @ [e] = pre @ Report (RelayDelivered p) # rest"
    show "\<exists>lane. proven_in pre lane (ap_OriginalEventID p)"
    proof (cases rest rule: rev_cases)
      case Nil
      then show ?thesis using e s by simp
    next
      case (snoc ys y)
      then have "es = pre @ Report (RelayDelivered p) # ys" using e by (metis append_Cons append_assoc butlast_snoc)
      then show ?thesis using s unfolding sound_log_def by blast
    qed
  qed
qed

lemma trust_effect:
  assumes "trust w" "\<And>p. e = Report (RelayDelivered p) \<Longrightarrow> \<exists>lane. proven_in (bz_log w) lane (ap_OriginalEventID p)"
  shows "trust (w\<lparr>bz_log := bz_log w @ [e]\<rparr>)"
  using assms by (auto simp: trust_def sound_snoc intro: proven_in_mono)

lemma trust_quiet: "trust w \<Longrightarrow> bz_seam v = bz_seam w \<Longrightarrow> bz_log v = bz_log w \<Longrightarrow>
    (\<And>s. bz_store v = Some s \<Longrightarrow> \<exists>t. bz_store w = Some t \<and> set (relay_delivered s) \<subseteq> set (relay_delivered t)) \<Longrightarrow> trust v"
  unfolding trust_def by (auto; blast)

interpretation tr: busy_relation "trusts_rows rows" UNIV for rows
proof
  show "trusts_rows rows w w" for w by (simp add: trusts_rows_def)
  show "trusts_rows rows w v \<Longrightarrow> trusts_rows rows v u \<Longrightarrow> trusts_rows rows w u" for w v u
    unfolding trusts_rows_def using proven_in_mono by fastforce
  show "quiet w v \<Longrightarrow> trusts_rows rows w v" for w v
    by (simp add: trusts_rows_def quiet_def same_client_def trust_def)
  show "ordinary e \<Longrightarrow> trusts_rows rows w (w\<lparr>bz_log := bz_log w @ [e]\<rparr>)" for e w
    by (auto simp: trusts_rows_def intro!: trust_effect)
  show "trusts_rows rows w (w\<lparr>bz_store := Some t\<rparr>)" if "bz_store w = Some s" "held_only UNIV s t" for w s t
    using that by (auto simp: trusts_rows_def held_only_def intro: trust_quiet)
qed

lemma trusts_weaken: "trusts w v \<Longrightarrow> trusts_rows rows w v"
  by (auto simp: trusts_rows_def)

lemma verdict_proves:
  assumes "defaultHubRelayInjectVerdict spinner (ic_harness call) after text (ic_io call) (ic_dio call) = (r, ks)" "landed r" "proven_row r item"
  shows "ks \<noteq> [] \<and> shows_row call item"
proof -
  obtain q where q: "relayInjectForHarnessGuarded spinner (ic_harness call) text None (ic_io call) (ic_dio call) = (q, ks)" "q = r"
    using assms(1,2) by (auto simp: defaultHubRelayInjectVerdict_def landed_def maybe_in_pane_def split: prod.splits if_splits)
  from inject_guarded_ok [OF q(1)] q(2) assms(2,3) show ?thesis
    by (auto simp: inject_ok_def seen_on_def proven_row_def shows_row_def)
qed

lemma inject_trusts: "state_io_rel trusts (inject rows text)"
  unfolding inject_def
proof (intro tr.rel_rules tr.rel_pop)
  show "quiet w (snd (case bz_injects w of [] \<Rightarrow> (failed_call, w) | c # cs \<Rightarrow> (c, w\<lparr>bz_injects := cs\<rparr>)))" for w
    by (auto simp: quiet_def same_client_def split: list.splits)
  show "state_io_rel trusts (record_effect (Prompted pane body rs call ks r))" for pane body rs call ks r
    by (auto simp: state_io_rel_def record_effect_def trusts_rows_def intro!: trust_effect)
qed

definition shown_rows :: "relayHeld list \<Rightarrow> relayInjectResult \<Rightarrow> busy \<Rightarrow> bool" where
  "shown_rows rows r v \<longleftrightarrow> (landed r \<longrightarrow> (\<forall>item\<in>set rows. proven_row r item \<longrightarrow> proven_in (bz_log v) (rh_Lane item) (rh_EventID item)))"

lemma inject_shown: "trust w \<Longrightarrow> post (inject rows text) (\<lambda>r v. trust v \<and> shown_rows rows r v) w"
proof -
  assume t: "trust w"
  have "post (inject rows text) (\<lambda>r v. shown_rows rows r v) w"
  proof -
    have "shown_rows rows (fst (inject_result u call text)) v"
      if seam: "bz_seam u = PaneProgram"
        and e: "Prompted pane text rows call (snd (inject_result u call text)) (fst (inject_result u call text)) \<in> set (bz_log v)" for u call v pane
      unfolding shown_rows_def
    proof (intro impI ballI)
      fix item assume i: "landed (fst (inject_result u call text))" "item \<in> set rows" "proven_row (fst (inject_result u call text)) item"
      then have "snd (inject_result u call text) \<noteq> [] \<and> shows_row call item"
        using seam by (intro verdict_proves [of "bz_spinner u" call "ic_after call" "text"]) (auto simp: inject_result_def)
      then have "proves (Prompted pane text rows call (snd (inject_result u call text)) (fst (inject_result u call text))) (rh_Lane item) (rh_EventID item)"
        using i by auto
      then show "proven_in (bz_log v) (rh_Lane item) (rh_EventID item)" using e unfolding proven_in_def by blast
    qed
    from this [where pane = "rh_Pane (hd rows)"] show ?thesis using t
      by (auto simp: inject_def record_effect_def post_rules post_def [of "State _"] trust_def split: list.splits)
  qed
  from post_conj [OF post_rel [OF inject_trusts] this] show ?thesis by (rule post_mono) (use t in \<open>auto simp: trusts_rows_def\<close>)
qed


section \<open>Landing\<close>

definition adds :: "string \<Rightarrow> int \<Rightarrow> node_store \<Rightarrow> node_store \<Rightarrow> bool" where
  "adds lane ev s t \<longleftrightarrow> (\<forall>d\<in>set (relay_delivered t). d \<in> set (relay_delivered s) \<or> (dr_lane d = lane \<and> dr_event d = ev))"

interpretation ad: store_relation "adds lane ev" for lane ev
  by unfold_locales (auto simp: adds_def)

lemma RecordRelayDelivered_adds: "always (adds lane ev) (RecordRelayDelivered lane ev pane sha t)"
  unfolding RecordRelayDelivered_def
  by (intro ad.store_rules always_modifyA) (auto simp: adds_def ins_ignore_def)

lemma record_trusts:
  assumes "item \<in> set rows"
  shows "state_io_rel (trusts_rows rows) (on_store (RecordRelayDelivered (rh_Lane item) (rh_EventID item) pane sha t))"
proof (rule state_io_relI)
  fix x w v assume r: "run_state (on_store (RecordRelayDelivered (rh_Lane item) (rh_EventID item) pane sha t)) w = (x, v)"
  show "trusts_rows rows w v"
  proof (cases "bz_store w")
    case None
    then show ?thesis using r by (simp add: on_store_def tr.related_refl)
  next
    case (Some s)
    obtain q u where q: "RecordRelayDelivered (rh_Lane item) (rh_EventID item) pane sha t s = (q, u)"
      by (cases "RecordRelayDelivered (rh_Lane item) (rh_EventID item) pane sha t s") auto
    from alwaysD [OF RecordRelayDelivered_adds q] show ?thesis
      using r Some q assms by (auto simp: on_store_def trusts_rows_def trust_def adds_def) metis
  qed
qed

lemma report_trusts:
  assumes "item \<in> set rows"
  shows "state_io_rel (trusts_rows rows) (emit (delivered_report item reason))"
proof (rule state_io_relI)
  fix x w v assume "run_state (emit (delivered_report item reason)) w = (x, v)"
  then have v: "v = w \<or> v = w\<lparr>bz_log := bz_log w @ [Report (delivered_report item reason)]\<rparr>"
    by (auto simp: emit_def record_effect_def split: if_splits)
  have "trust (w\<lparr>bz_log := bz_log w @ [Report (delivered_report item reason)]\<rparr>)"
    if "trust w" "proven_in (bz_log w) (rh_Lane item) (rh_EventID item)"
    using that by (intro trust_effect) (auto simp: delivered_report_def)
  then show "trusts_rows rows w v" using v assms by (auto simp: trusts_rows_def)
qed

lemma land_row_trusts: "item \<in> set rows \<Longrightarrow> state_io_rel (trusts_rows rows) (land_row now reason item)"
  unfolding land_row_def
  by (intro tr.rel_rules record_trusts report_trusts tr.rel_emit tr.rel_on_store held_only_ops) (simp_all add: released_report_def)

lemma land_group_trusts: "state_io_rel (trusts_rows (filter (proven_row result) rows)) (land_group now rows result)"
proof -
  let ?P = "filter (proven_row result) rows"
  let ?f = "\<lambda>item. if proven_row result item then State_Monad.return (Some item)
       else do {
         emit (unconfirmed_report item (relayAckReason (''maybe_in_pane nonce_missing '' @ ri_Evidence result)));
         stopWithoutRetry item (ri_Harness result);
         State_Monad.return None
       }"
  have pick: "state_io_rel (trusts_rows ?P) (collect ?f rows)"
    by (intro tr.rel_rules tr.rel_emit tr.rel_stop) (simp_all add: unconfirmed_report_def)
  have sub: "post (collect ?f rows) (\<lambda>landed v. set landed \<subseteq> set ?P) w" for w
  proof -
    have "post (collect ?f rows) (\<lambda>rs v. set rs \<subseteq> set (filter (proven_row result) rows)) w"
      by (rule post_collect [where I = "\<lambda>ys rs v. set rs \<subseteq> set (filter (proven_row result) ys)"])
        (auto simp: post_rules post_def split: prod.splits)
    then show ?thesis .
  qed
  show ?thesis
    unfolding land_group_def
    by (rule tr.rel_bind_post [OF pick sub]) (auto intro!: tr.rel_rules tr.rel_emit land_row_trusts)
qed

lemma settle_group_trusts:
  assumes "\<And>i. state_io_rel trusts (again i)" "trust w" "shown_rows rows result w"
  shows "post (settle_group again now rows imm result) (\<lambda>_ v. trust v \<and> (\<exists>es. bz_log v = bz_log w @ es)) w"
proof (cases "landed result")
  case True
  have "post (land_group now rows result) (\<lambda>_ v. trust v \<and> (\<exists>es. bz_log v = bz_log w @ es)) w"
    by (rule post_mono [OF post_rel [OF land_group_trusts]])
      (use assms(2,3) True in \<open>auto simp: trusts_rows_def shown_rows_def\<close>)
  then show ?thesis using True by (auto simp: settle_group_def landed_def split: relayInjectOutcome.splits)
next
  case False
  then have "state_io_rel trusts (settle_group again now rows imm result)"
    unfolding settle_group_def
    by (cases "ri_Outcome result")
      (auto simp: landed_def unconfirmed_report_def intro!: tr.rel_rules tr.rel_emit tr.rel_retry tr.rel_stop assms(1))
  from post_rel [OF this] show ?thesis by (rule post_mono) (use assms(2) in \<open>auto simp: trusts_rows_def\<close>)
qed

lemma trustsI:
  assumes "state_io_rel (others I) m" "\<And>w. trust w \<Longrightarrow> post m (\<lambda>_. trust) w"
  shows "state_io_rel trusts m"
proof (rule state_io_relI)
  fix x w v assume r: "run_state m w = (x, v)"
  show "trusts w v" using state_io_relD [OF assms(1) r] postD [OF assms(2) r] by (auto simp: others_def trusts_rows_def)
qed

lemma trusts_post: "state_io_rel trusts m \<Longrightarrow> trust w \<Longrightarrow> post m (\<lambda>_. trust) w"
  using post_rel [of trusts m w] by (auto elim!: post_mono simp: trusts_rows_def)

lemma deliver_group_trusts:
  assumes again: "\<And>i. state_io_rel trusts (again i)" "\<And>i. state_io_rel (others UNIV) (again i)"
  shows "state_io_rel trusts (deliver_group again expired now rows)"
proof (rule trustsI)
  show "state_io_rel (others UNIV) (deliver_group again expired now rows)"
    using again(2) by (intro oth.rel_deliver_group) simp_all
  fix w assume "trust w"
  have settle: "post (settle_group again now live imm result) (\<lambda>_. trust) v" if "trust v" "shown_rows live result v" for live imm result v
    using settle_group_trusts [OF again(1) that] by (rule post_mono) simp
  have live: "post (if live = [] then State_Monad.return () else do {
       let text = relayBatchText live expired now;
       let immediate = relayGroupImmediate live;
       first \<leftarrow> inject live text;
       result \<leftarrow> (if immediate \<and> relayRetriesOnce first then inject live text else State_Monad.return first);
       settle_group again now live immediate result }) (\<lambda>_. trust) v" if v: "trust v" for live v
  proof -
    have again_inject: "post (inject live body) (\<lambda>result. post (settle_group again now live imm result) (\<lambda>_. trust)) u" if "trust u" for imm u body
      by (rule post_mono [OF inject_shown [OF that]]) (use settle in auto)
    have "post (inject live body) (\<lambda>first. if imm \<and> relayRetriesOnce first
        then post (inject live body) (\<lambda>result. post (settle_group again now live imm result) (\<lambda>_. trust))
        else post (settle_group again now live imm first) (\<lambda>_. trust)) v" for imm body
      by (rule post_mono [OF inject_shown [OF v]]) (use settle again_inject in auto)
    then show ?thesis using v by (simp add: post_rules Let_def cong: if_cong)
  qed
  show "post (deliver_group again expired now rows) (\<lambda>_. trust) w"
    unfolding deliver_group_def post_bind
    by (rule post_mono [OF trusts_post [OF tr.rel_routed \<open>trust w\<close>]]) (use live in auto)
qed

lemma deliver_with_trusts:
  assumes again: "\<And>i. state_io_rel trusts (again i)" "\<And>i. state_io_rel (others UNIV) (again i)"
  shows "state_io_rel trusts (deliver_with again items expired)"
  unfolding deliver_with_def using assms by (intro tr.rel_rules tr.rel_nowUTC deliver_group_trusts)

lemma redeliver_trusts: "state_io_rel trusts (redeliver n item)"
  by (induction n arbitrary: item) (auto intro!: deliver_with_trusts tr.rel_return oth.rel_redeliver)

lemma deliver_trusts: "state_io_rel trusts (deliver items expired)"
  unfolding deliver_def by (intro deliver_with_trusts redeliver_trusts oth.rel_redeliver) simp

lemma hold_trusts: "state_io_rel trusts (hold item reason)"
  unfolding hold_def by (intro tr.rel_hold_with deliver_trusts) simp

lemma gate_trusts: "state_io_rel trusts (gate_row p expired item)"
  unfolding gate_row_def retryOrDrop_def retryOrDropWithin_def
  by (intro tr.rel_rules tr.rel_retry deliver_trusts tr.rel_expire tr.rel_keepWorking tr.rel_emit) (simp_all add: unconfirmed_report_def)

lemma deliver_rest_trusts: "state_io_rel trusts (deliver_rest pane expired items)"
  by (induction items) (auto intro!: tr.rel_rules tr.rel_paneIdleOrDone deliver_trusts)

lemma deliverReleased_trusts: "state_io_rel trusts (deliverReleased pane items expired)"
proof -
  have "state_io_rel trusts (case rows of [] \<Rightarrow> State_Monad.return ()
      | item # rest \<Rightarrow> do { deliver [item] expired; deliver_rest pane expired rest })" for rows
    by (cases rows) (auto intro!: tr.rel_rules deliver_trusts deliver_rest_trusts)
  then show ?thesis
    unfolding deliverReleased_def filterDeliverableHeld_def
    by (intro tr.rel_rules tr.rel_routed tr.rel_probe gate_trusts deliver_trusts) simp_all
qed

lemma release_parts_trust:
  "state_io_rel trusts (release_begin pane)" "state_io_rel trusts (working_begin pane expired)" "state_io_rel trusts (finishInflight items)"
proof -
  have flight: "state_io_rel trusts (markInflight items)" "state_io_rel trusts (finishInflight items)" for items
    by (auto simp: state_io_rel_def markInflight_def finishInflight_def trusts_rows_def trust_def)
  have mod: "state_io_rel trusts (modify (\<lambda>w. w\<lparr>bz_waits := f w, bz_held := g w\<rparr>))"
    "state_io_rel trusts (modify (\<lambda>w. w\<lparr>bz_held := g w, bz_waits := f w\<rparr>))" for f g
    by (auto simp: state_io_rel_def trusts_rows_def trust_def)
  show "state_io_rel trusts (finishInflight items)" by (rule flight)
  show "state_io_rel trusts (release_begin pane)"
    unfolding release_begin_def detach_def by (intro tr.rel_rules tr.rel_heldSnapshot flight mod)
  show "state_io_rel trusts (working_begin pane expired)"
    unfolding working_begin_def detach_def Let_def
    by (intro tr.rel_rules tr.rel_heldSnapshot flight mod tr.rel_record) simp
qed

section \<open>Repeats and everything else\<close>

lemma delivered_found:
  assumes "run_state (on_store (RelayDeliveredByKey lane ev)) w = (r, v)" "ok_of r = Some (Some previous)" "trust w"
  shows "proven_in (bz_log v) lane ev"
proof -
  obtain s where s: "bz_store w = Some s" and p: "\<exists>d\<in>set (relay_delivered s). delivered_key d = (lane, ev)" and log: "bz_log v = bz_log w"
    using assms(1,2) by (auto simp: on_store_def RelayDeliveredByKey_def act_defs sql_def ok_of_def sel_def find_Some_iff
        split: option.splits sum.splits prod.splits list.splits if_splits) (metis nth_mem)+
  then show ?thesis using assms(3) by (auto simp: trust_def delivered_key_def)
qed

lemma suppressed_trusts: "state_io_rel (trusts_rows [row]) (emit (suppressed_report job pane (rh_EventID row)))"
proof (rule state_io_relI)
  fix x w v assume "run_state (emit (suppressed_report job pane (rh_EventID row))) w = (x, v)"
  then have v: "v = w \<or> v = w\<lparr>bz_log := bz_log w @ [Report (suppressed_report job pane (rh_EventID row))]\<rparr>"
    by (auto simp: emit_def record_effect_def split: if_splits)
  have "trust (w\<lparr>bz_log := bz_log w @ [Report (suppressed_report job pane (rh_EventID row))]\<rparr>)"
    if "trust w" "proven_in (bz_log w) (rh_Lane row) (rh_EventID row)"
    using that by (intro trust_effect) (auto simp: suppressed_report_def)
  then show "trusts_rows [row] w v" using v by (auto simp: trusts_rows_def)
qed

lemma lookup_trusts:
  assumes "\<And>r. state_io_rel (trusts_rows [row]) (k r)" "\<And>r. \<nexists>p. ok_of r = Some (Some p) \<Longrightarrow> state_io_rel trusts (k r)"
    "state_io_rel (others UNIV) (State_Monad.bind (on_store (RelayDeliveredByKey (rh_Lane row) (rh_EventID row))) k)"
  shows "state_io_rel trusts (State_Monad.bind (on_store (RelayDeliveredByKey (rh_Lane row) (rh_EventID row))) k)"
proof (rule trustsI [OF assms(3)])
  let ?look = "on_store (RelayDeliveredByKey (rh_Lane row) (rh_EventID row))"
  fix w assume t: "trust w"
  obtain r v where v: "run_state ?look w = (r, v)" by (cases "run_state ?look w") auto
  have look: "state_io_rel trusts ?look" by (intro tr.rel_on_store held_only_ops)
  have tv: "trust v" using state_io_relD [OF look v] t by (auto simp: trusts_rows_def)
  have "post (k r) (\<lambda>_. trust) v"
  proof (cases "\<exists>p. ok_of r = Some (Some p)")
    case True
    then have "proven_in (bz_log v) (rh_Lane row) (rh_EventID row)" using delivered_found [OF v _ t] by blast
    then show ?thesis using post_rel [OF assms(1) [of r], of v] tv by (auto elim!: post_mono simp: trusts_rows_def)
  next
    case False
    then show ?thesis using trusts_post [OF assms(2) tv] by blast
  qed
  then show "post (State_Monad.bind ?look k) (\<lambda>_. trust) w" using v by (simp add: post_def)
qed

interpretation os: busy_system "others UNIV"
  by unfold_locales (auto simp: others_def held_rest_def)

lemma quiet_counts:
  "state_io_rel (trusts_rows rows) (modify (\<lambda>w. w\<lparr>bz_wouldSuppress := f w\<rparr>))"
  "state_io_rel (trusts_rows rows) (modify (\<lambda>w. w\<lparr>bz_suppressed := f w\<rparr>))"
  by (intro tr.rel_modify; simp add: quiet_def same_client_def)+

lemma identity_trusts: "state_io_rel trusts (relayDeliveredIdentity m mode)"
proof -
  let ?row = "offered_row m [] 0"
  have row: "rh_Lane ?row = om_Lane m" "rh_EventID ?row = om_EventID m" by (simp_all add: offered_row_def)
  show ?thesis
    using os.rel_identity [of m mode]
    unfolding relayDeliveredIdentity_def row [symmetric]
    by (rule lookup_trusts [rotated 2])
      (auto intro!: tr.rel_optopt tr.rel_rules tr.rel_count_mismatch tr.rel_journal quiet_counts suppressed_trusts tr.rel_on_store held_only_ops
        split: option.splits)
qed

lemma reconcile_trusts: "state_io_rel trusts (reconcile_row mode item)"
proof (cases "rh_Lane item = [] \<or> rh_EventID item = 0")
  case True
  then show ?thesis by (simp add: reconcile_row_def tr.rel_return)
next
  case False
  show ?thesis
    using os.rel_reconcile_row [of mode item] False
    unfolding reconcile_row_def if_not_P [OF False]
    by (intro lookup_trusts)
      (auto simp: released_report_def intro!: tr.rel_optopt tr.rel_rules tr.rel_count_mismatch tr.rel_journal quiet_counts suppressed_trusts tr.rel_emit tr.rel_on_store held_only_ops
        split: option.splits)
qed


interpretation tm: busy_manager trusts
proof
  show "trusts w (w\<lparr>bz_lanePane := routes\<rparr>)" for w routes by (auto simp: trusts_rows_def trust_def)
qed (rule deliver_trusts identity_trusts reconcile_trusts)+

lemma step_trusts: "release_step st st' \<Longrightarrow> trusts (fst st) (fst st')"
  by (induction rule: release_step.induct)
    (auto dest: state_io_relD [OF release_parts_trust(1)] state_io_relD [OF release_parts_trust(2)] state_io_relD [OF release_parts_trust(3)]
      state_io_relD [OF deliverReleased_trusts] state_io_relD [OF tr.rel_reconcileHeld] state_io_relD [OF tr.rel_arm]
      state_io_relD [OF tm.rel_offer] state_io_relD [OF tm.rel_edit] state_io_relD [OF tm.rel_cancel]
      state_io_relD [OF tm.rel_restore] state_io_relD [OF tm.rel_resume])

text \<open>A node that has typed nothing yet and remembers no delivery, over the terminal program of the source.\<close>

definition fresh_node :: "busy \<times> relayHeld list list \<Rightarrow> bool" where
  "fresh_node st \<longleftrightarrow> bz_seam (fst st) = PaneProgram \<and> bz_log (fst st) = []
     \<and> (\<forall>s. bz_store (fst st) = Some s \<longrightarrow> relay_delivered s = [])"

interpretation trusted: transition_system fresh_node release_step "\<lambda>st. trust (fst st)"
proof
  show "trust (fst st)" if "fresh_node st" for st using that by (auto simp: fresh_node_def trust_def sound_log_def)
  show "trust (fst st')" if "trust (fst st)" "release_step st st'" for st st'
    using step_trusts [OF that(2)] that(1) by (auto simp: trusts_rows_def)
qed

text \<open>
  C37: the hub is told of a delivery only when the pane showed it. In every run of a node that starts
  with no delivery recorded, whatever interleaving of releases, arrivals, edits, cancellations and
  restarts, and whatever the store, the program and the screens answer: before each report that an
  event was delivered, first or repeated, keys were sent to a pane for a batch holding a row of that
  event, the verdict was delivered or queued, and a screen read after the return showed the row's
  token in the transcript outside the composer.
\<close>

theorem delivered_only_with_proof:
  assumes "fresh_node st" "release_step\<^sup>*\<^sup>* st st'" "bz_log (fst st') = before @ Report (RelayDelivered p) # after"
  shows "\<exists>pane body rows call keys result item screen.
     Prompted pane body rows call keys result \<in> set before \<and> keys \<noteq> []
     \<and> ri_Outcome result \<in> {relayInjectDelivered, relayInjectQueued}
     \<and> item \<in> set rows \<and> rh_EventID item = ap_OriginalEventID p
     \<and> screen \<in> set (later_screens (ic_harness call) (ic_io call) (ic_dio call))
     \<and> relayNoncePresent (promptTranscript (rule_harness (ic_harness call)) screen) (relayNonce item)"
proof -
  have "sound_log (bz_log (fst st'))" using trusted.inv_reachable [OF assms(1,2)] by (simp add: trust_def)
  then obtain lane e where e: "e \<in> set before" "proves e lane (ap_OriginalEventID p)"
    using assms(3) unfolding sound_log_def proven_in_def by blast
  from e(2) obtain pane body rows call keys result item screen where
    "e = Prompted pane body rows call keys result" "keys \<noteq> []" "landed result" "item \<in> set rows" "rh_EventID item = ap_OriginalEventID p"
    "screen \<in> set (later_screens (ic_harness call) (ic_io call) (ic_dio call))"
    "relayNoncePresent (promptTranscript (rule_harness (ic_harness call)) screen) (relayNonce item)"
    by (cases e) (auto simp: shows_row_def)
  then show ?thesis using e(1) unfolding landed_def by blast
qed

definition sample_offer :: hubOutboundMessage where
  "sample_offer = \<lparr>om_Pane = ''w1:p1'', om_Lane = ''ops'', om_EventID = 7, om_JobID = ''job-a'', om_Text = ''hi'', om_DeliverPolicy = ''now'', om_RecvSeq = 1\<rparr>"

definition sample_call :: inject_call where
  "sample_call = \<lparr>ic_took = False, ic_verdict = sample_verdict, ic_harness = ''codex'', ic_after = ''codex'', ic_io = sample_io, ic_dio = no_devin\<rparr>"

definition ready_node :: busy where
  "ready_node = (idle_node [])\<lparr>bz_injects := [sample_call]\<rparr>"

abbreviation offered :: relayHeld where
  "offered \<equiv> offered_row sample_offer ''now'' 0"

lemma offered_nonce: "relayNonce offered = ''[r7t7dl]''"
proof -
  have h: "fnv32a (little_endian 7 @ CHR 0x00 # ''hi'') = 3110331801" by code_simp
  have u: "unat (fnv32a (little_endian 7 @ [CHR 0x00] @ ''hi'')) = 3110331801" by (simp add: h)
  have four: "relayNonceBase36 n 4 = relayNonceBase36 n (Suc (Suc (Suc (Suc 0))))" for n by (rule arg_cong [where f = "relayNonceBase36 n"]) simp
  have "relayNonceCheck 7 ''hi'' = ''t7dl''" unfolding relayNonceCheck_def u four by (simp add: relayNonceAlphabet_def)
  moreover have "itoa 7 = ''7''" by code_simp
  ultimately show ?thesis by (simp add: relayNonce_def offered_row_def sample_offer_def)
qed

lemma offered_text: "relayBatchText [offered] False 0 = ''[r7t7dl] hi''"
  by (simp add: relayBatchText_def offered_nonce) (simp add: offered_row_def sample_offer_def)

lemma offered_groups: "relayBatchGroups [offered] False 0 = [[offered]]"
  by (simp add: relayBatchGroups_def batch_add_def)

lemma sample_typed: "inject_result w sample_call ''[r7t7dl] hi'' = (sample_verdict, [SendText ''[r7t7dl] hi''])"
  if "bz_seam w = PaneProgram" "bz_spinner w = (\<lambda>_. False)"
  using that sample_injection
  by (simp add: inject_result_def defaultHubRelayInjectVerdict_def sample_call_def codex_names sample_verdict_def)

lemma offered_fields: "rh_Pane offered = ''w1:p1''" "rh_Lane offered = ''ops''" "rh_EventID offered = 7" "rh_DeliverPolicy offered = ''now''" "rh_RecvSeq offered = 1"
  by (simp_all add: offered_row_def sample_offer_def)

lemma on_store_log: "run_state (on_store m) w = (r, v) \<Longrightarrow> bz_log v = bz_log w \<and> bz_emitter v = bz_emitter w"
  by (auto simp: on_store_def split: option.splits prod.splits)

lemma deliver_offered_runs:
  assumes "bz_injects w = [sample_call]" "bz_seam w = PaneProgram" "bz_spinner w = (\<lambda>_. False)" "bz_clock w = []" "bz_now w = 0" "bz_emitter w"
    "map_of (bz_lanePane w) ''ops'' = Some ''w1:p1''"
  shows "\<exists>v. run_state (deliver [offered] False) w = ((), v)
     \<and> bz_log v = bz_log w @ [Prompted ''w1:p1'' ''[r7t7dl] hi'' [offered] sample_call [SendText ''[r7t7dl] hi''] sample_verdict,
          Report (released_report offered), Report (delivered_report offered (relayAckReason ''visible:nonce_echo''))]"
proof -
  have now: "run_state nowUTC w = (0, w)" using assms by (simp add: nowUTC_def)
  have route: "run_state (routed [offered]) w = ([offered], w)"
    using assms by (simp add: routed_def laneRerouted_def offered_fields)
  have imm: "\<not> relayGroupImmediate [offered]" by (simp add: relayGroupImmediate_def immediate_row_def offered_fields relayDeliverDirective_def)
  have inj: "run_state (inject [offered] ''[r7t7dl] hi'') w = (sample_verdict,
     w\<lparr>bz_injects := [], bz_log := bz_log w @ [Prompted ''w1:p1'' ''[r7t7dl] hi'' [offered] sample_call [SendText ''[r7t7dl] hi''] sample_verdict]\<rparr>)"
    using assms by (simp add: inject_def sample_typed record_effect_def offered_fields)
  show ?thesis
    using now inj route
    by (simp add: deliver_def deliver_with_def offered_fields relayCancelledPane_def offered_groups deliver_group_def Let_def offered_text imm)
      (use assms(6) in \<open>auto simp: settle_group_def sample_verdict_def land_group_def proven_row_def offered_nonce land_row_def offered_fields emit_def
        record_effect_def split: prod.splits dest!: on_store_log\<close>)
qed

lemma offer_runs:
  "\<exists>v. run_state (offer sample_offer) ready_node = (True, v)
     \<and> bz_log v = [Prompted ''w1:p1'' ''[r7t7dl] hi'' [offered] sample_call [SendText ''[r7t7dl] hi''] sample_verdict,
          Report (released_report offered), Report (delivered_report offered (relayAckReason ''visible:nonce_echo''))]"
proof -
  let ?w = "ready_node\<lparr>bz_lanePane := [(''ops'', ''w1:p1'')], bz_dedupeInFlight := [relayDedupeClaimKey ''ops'' 7]\<rparr>"
  have m: "om_Pane sample_offer = ''w1:p1''" "om_Lane sample_offer = ''ops''" "om_EventID sample_offer = 7" "om_DeliverPolicy sample_offer = ''now''"
    by (simp_all add: sample_offer_def)
  have fields: "bz_injects ?w = [sample_call]" "bz_seam ?w = PaneProgram" "bz_spinner ?w = (\<lambda>_. False)" "bz_clock ?w = []" "bz_now ?w = 0"
    "bz_emitter ?w" "map_of (bz_lanePane ?w) ''ops'' = Some ''w1:p1''" "bz_log ?w = []"
    by (simp_all add: ready_node_def idle_node_def)
  from deliver_offered_runs [OF fields(1-7)] obtain v where v: "run_state (deliver [offered] False) ?w = ((), v)"
    "bz_log v = [Prompted ''w1:p1'' ''[r7t7dl] hi'' [offered] sample_call [SendText ''[r7t7dl] hi''] sample_verdict,
          Report (released_report offered), Report (delivered_report offered (relayAckReason ''visible:nonce_echo''))]"
    unfolding fields(8) by auto
  have lookup: "run_state (on_store (RelayDeliveredByKey ''ops'' 7)) ?w = (Some (Inr None), ?w)"
    "run_state (on_store (RelayHeldByKey ''ops'' 7)) ?w = (Some (Inr None), ?w)"
    by (simp_all add: ready_node_def idle_node_def on_store_def RelayDeliveredByKey_def RelayHeldByKey_def act_defs sql_def)
  have now: "run_state nowUTC ?w = (0, ?w)" using fields by (simp add: nowUTC_def)
  have pol: "parseRelayDeliveryPolicy ''now'' = Some (''now'', 0)" by code_simp
  have new: "run_state (offer_new sample_offer) ?w = ((), v)"
    using v(1) now by (simp add: offer_new_def m pol deliver_offered_def)
  have "run_state (offer_queue sample_offer relayDedupeApply True) ?w = ((), v)"
    using lookup(2) new by (simp add: offer_queue_def m ok_of_def)
  moreover have "run_state (relayDeliveredIdentity sample_offer relayDedupeApply) ?w = (False, ?w)"
    using lookup(1) by (simp add: relayDeliveredIdentity_def m ok_of_def)
  moreover have "run_state (claimDedupeInFlight ''ops'' 7) (ready_node\<lparr>bz_lanePane := [(''ops'', ''w1:p1'')]\<rparr>) = (True, ?w)"
    by (simp add: claimDedupeInFlight_def ready_node_def idle_node_def)
  ultimately have "run_state (offer_claimed sample_offer relayDedupeApply) (ready_node\<lparr>bz_lanePane := [(''ops'', ''w1:p1'')]\<rparr>)
      = (True, snd (run_state (releaseDedupeInFlight ''ops'' 7) v))"
    by (simp add: offer_claimed_def m split: prod.splits)
  moreover have "bz_log (snd (run_state (releaseDedupeInFlight ''ops'' 7) v)) = bz_log v" by (simp add: releaseDedupeInFlight_def)
  moreover have "bz_lanePane ready_node = []" "bz_dedupeEnv ready_node = ''apply''" by (simp_all add: ready_node_def idle_node_def)
  ultimately show ?thesis
    using v(2) by (simp add: offer_def m relayCancelledPane_def noteLaneRoute_def relayDedupeModeFromEnv_def)
qed

theorem delivered_only_with_proof_witness:
  "\<exists>v before. fresh_node (ready_node, []) \<and> release_step\<^sup>*\<^sup>* (ready_node, []) (v, [])
     \<and> bz_log v = before @ [Report (delivered_report offered (relayAckReason ''visible:nonce_echo''))]
     \<and> (\<exists>pane body rows call keys result item screen. Prompted pane body rows call keys result \<in> set before \<and> keys \<noteq> []
         \<and> item \<in> set rows \<and> rh_EventID item = 7
         \<and> relayNoncePresent (promptTranscript (rule_harness (ic_harness call)) screen) (relayNonce item))"
proof -
  obtain v where v: "run_state (offer sample_offer) ready_node = (True, v)"
    and log: "bz_log v = [Prompted ''w1:p1'' ''[r7t7dl] hi'' [offered] sample_call [SendText ''[r7t7dl] hi''] sample_verdict,
          Report (released_report offered)] @ [Report (delivered_report offered (relayAckReason ''visible:nonce_echo''))]"
    using offer_runs by auto
  obtain p where p: "delivered_report offered (relayAckReason ''visible:nonce_echo'') = RelayDelivered p" "ap_OriginalEventID p = 7"
    by (auto simp: delivered_report_def offered_fields)
  have fresh: "fresh_node (ready_node, [])" by (simp add: fresh_node_def ready_node_def idle_node_def)
  have run: "release_step\<^sup>*\<^sup>* (ready_node, []) (v, [])" using step_offer [OF v] by blast
  let ?before = "[Prompted ''w1:p1'' ''[r7t7dl] hi'' [offered] sample_call [SendText ''[r7t7dl] hi''] sample_verdict, Report (released_report offered)]"
  have "bz_log (fst (v, [] :: relayHeld list list)) = ?before @ Report (RelayDelivered p) # []" using log p(1) by simp
  from delivered_only_with_proof [OF fresh run this] have
    "\<exists>pane body rows call keys result item screen. Prompted pane body rows call keys result \<in> set ?before \<and> keys \<noteq> []
       \<and> item \<in> set rows \<and> rh_EventID item = 7
       \<and> relayNoncePresent (promptTranscript (rule_harness (ic_harness call)) screen) (relayNonce item)"
    unfolding p(2) by blast
  then show ?thesis using fresh run log by blast
qed

section \<open>A repeated event\<close>

text \<open>
  C38: a repeated event is not typed again. While the store answers and repeats are suppressed, an
  arrival whose lane and event have a delivered record with the same pane and the same fingerprint of
  the text sends no key to the pane: it is journaled and answered with one report of the delivery, a
  row still held for the event is removed, and the claim on the identity is given back.
\<close>

theorem replay_types_nothing:
  assumes "bz_store w = Some s" "sql_faults s = []" "relayDedupeModeFromEnv w = relayDedupeApply"
    "sel delivered_key (om_Lane m, om_EventID m) (relay_delivered s) = Some d"
    "dr_pane d = om_Pane m" "dr_sha d = relayPayloadFingerprint (om_Text m)"
    "om_EventID m > 0" "om_Lane m \<noteq> []" "om_Pane m \<noteq> relayCancelledPane"
    "relayDedupeClaimKey (om_Lane m) (om_EventID m) \<notin> set (bz_dedupeInFlight w)" "bz_emitter w"
  shows "\<exists>v. run_state (offer m) w = (True, v)
    \<and> bz_log v = bz_log w @ [Journaled ''suppressed'' (om_Lane m) (om_EventID m) (om_Pane m),
         Report (suppressed_report (om_JobID m) (om_Pane m) (om_EventID m))]
    \<and> bz_store v = Some (s\<lparr>relay_held := filter (\<lambda>r. hr_event r \<noteq> om_EventID m) (relay_held s)\<rparr>)
    \<and> bz_dedupeInFlight v = bz_dedupeInFlight w \<and> bz_injects v = bz_injects w"
proof -
  have env: "bz_dedupeEnv w = ''apply''" using assms(3) by (auto simp: relayDedupeModeFromEnv_def split: if_splits)
  have claims: "filter (\<lambda>k. k \<noteq> relayDedupeClaimKey (om_Lane m) (om_EventID m)) (bz_dedupeInFlight w) = bz_dedupeInFlight w"
    using assms(10) by (auto simp: filter_id_conv)
  show ?thesis
    using assms env claims
    by (simp add: offer_def offer_claimed_def noteLaneRoute_def relayDedupeModeFromEnv_def claimDedupeInFlight_def relayDeliveredIdentity_def
        on_store_def RelayDeliveredByKey_def act_defs sql_def ok_of_def delivered_of_def journalDedupe_def record_effect_def emit_def)
      (simp add: DeleteRelayHeld_def held_stmt_def act_defs sql_def releaseDedupeInFlight_def)
qed

definition remembering_node :: busy where
  "remembering_node = (idle_node [pane_row ''w1:p1'' 7])\<lparr>bz_store := Some \<lparr>relay_sent = [], relay_held = [pane_row ''w1:p1'' 7],
     relay_delivered = [\<lparr>dr_lane = ''ops'', dr_event = 7, dr_pane = ''w1:p1'', dr_sha = relayPayloadFingerprint ''hi'', dr_at = 0\<rparr>],
     relay_meta = [], sql_faults = []\<rparr>\<rparr>"

theorem replay_types_nothing_witness:
  "\<exists>v. run_state (offer sample_offer) remembering_node = (True, v)
    \<and> bz_log v = [Journaled ''suppressed'' ''ops'' 7 ''w1:p1'', Report (suppressed_report ''job-a'' ''w1:p1'' 7)]
    \<and> map_option relay_held (bz_store v) = Some []"
proof -
  let ?d = "\<lparr>dr_lane = ''ops'', dr_event = 7, dr_pane = ''w1:p1'', dr_sha = relayPayloadFingerprint ''hi'', dr_at = 0\<rparr>"
  let ?s = "\<lparr>relay_sent = [], relay_held = [pane_row ''w1:p1'' 7], relay_delivered = [?d], relay_meta = [], sql_faults = []\<rparr>"
  have "bz_store remembering_node = Some ?s" "relayDedupeModeFromEnv remembering_node = relayDedupeApply"
    "bz_dedupeInFlight remembering_node = []" "bz_emitter remembering_node" "bz_log remembering_node = []"
    by (simp_all add: remembering_node_def idle_node_def relayDedupeModeFromEnv_def)
  moreover have "om_Pane sample_offer = ''w1:p1''" "om_Lane sample_offer = ''ops''" "om_EventID sample_offer = 7" "om_Text sample_offer = ''hi''"
    "om_JobID sample_offer = ''job-a''" by (simp_all add: sample_offer_def)
  moreover have "sel delivered_key (''ops'', 7) [?d] = Some ?d" by (simp add: sel_def delivered_key_def)
  moreover have "hr_event (pane_row ''w1:p1'' 7) = 7" by (simp add: pane_row_def held_row_of_def sample_row_def)
  ultimately show ?thesis
    using replay_types_nothing [of remembering_node ?s sample_offer ?d] by (auto simp: relayCancelledPane_def)
qed

end
