(* ===== verification/Spec2Isabelle.thy ===== *)
theory Spec2Isabelle
  imports Text_Bounds Arb_Refine Relay_Lru Relay_Records Idle_Shutdown Burst Delivery_Policy Relay_Trust
begin

text \<open>
  A verification library for panewire, a hub and its node daemons that run coding agents in terminal
  panes and relay events between them.

  \<^bold>\<open>The program.\<close> A hub keeps the lanes, sessions and jobs of a fleet and sends events to nodes over a
  websocket. A node types an event into the pane of the agent it is for, or holds it while that agent is
  busy, and reports what happened. On each machine an arbiter keeps a ledger of jobs, exclusive leases
  and quota-pool records in one SQLite file, with an event artifact on disk per entry. Policies decide
  which events interrupt an agent, when a machine is woken and when an idle one is powered off.

  \<^bold>\<open>The ledger\<close> (\<open>src/internal/arbiter\<close>). \<open>Arb_Store\<close> has the world (database, artifacts, clock, random
  bytes, the outcomes of the external calls to come), opening, transactions, tokens and events;
  \<open>Arb_Lease\<close> leases, quota records and the quota gate; \<open>Arb_Jobs\<close> claims and the readers; \<open>Arb_Gc\<close>
  garbage collection and the forced release of an orphan. Every operation is an action of the prelude
  that returns a value or an exit code, and every external call may fail. \<open>Arb_Ledger\<close> has the
  invariant, the effect of each transaction, and the contract \<open>ledger_op\<close>, a locale every operation
  interprets; \<open>Arb_Retire\<close> carries it through the loops of garbage collection; \<open>Arb_System\<close> makes the
  operations, and any change around them, a transition system. \<open>Arb_Props\<close> and \<open>Arb_Evidence\<close> state the
  promises: the invariant in every reachable state, exclusive grants under growing tokens, refusals that
  change nothing, stale tokens refused, nothing retired without evidence, availability while no call
  fails. \<open>Arb_Refine\<close> shows that the ledger implements an abstract lock service.

  \<^bold>\<open>The relay store\<close> (\<open>src/relay_outbox.go\<close>, \<open>src/relay_held_store.go\<close>, \<open>src/relay_delivered_store.go\<close>,
  parts of \<open>src/store.go\<close>). \<open>Relay_Store\<close> has the tables and every operation on them, statement by
  statement; \<open>Relay_Records\<close> shows that the unique indexes hold after any failure, that marks are final,
  that rows read back, and that a pane's queue is first in, first out.

  \<^bold>\<open>Delivery into a pane\<close> (\<open>src/hub_client.go\<close>, \<open>src/prompt.go\<close>, \<open>src/relay_harness_adapter.go\<close>).
  \<open>Relay_Nonce\<close> has the proof tokens, \<open>Relay_Batch\<close> the batches, \<open>Relay_Screen\<close> the composer and the
  transcript of each harness, and \<open>Relay_Inject\<close> one whole injection: its reads, its keys, its verdict. The
  screens are inputs of the model. An injection types once, presses return at most once and only on its
  own text, and names a token only when a later screen showed it.

  \<^bold>\<open>The queue of busy panes\<close> (\<open>src/busy_relay.go\<close>, \<open>src/relay_dedupe.go\<close>, \<open>src/relay_cmd_hold.go\<close>).
  \<open>Relay_Busy\<close> is the whole manager in the state monad of the library (\<open>Pw_State\<close> adds its rules): its
  maps, the store of the node, the answers of the terminal program and of the clock still to come, and a
  log of effects (prompts, reports to the hub, waits, journal entries). A critical section of the source is
  one computation. \<open>Relay_Busy_Frame\<close> has three locales for relations that the manager keeps, and the
  proof that the recursion of \<open>deliver\<close> through \<open>hold\<close> and the retry ends. \<open>Relay_Release\<close> interleaves
  releases with everything else; \<open>Relay_No_Loss\<close> shows that a release loses no row; \<open>Relay_Trust\<close> that the
  hub is told of a delivery only after a screen showed it, and that a repeated event is not typed again.

  \<^bold>\<open>Policies and bounds.\<close> \<open>Delivery_Policy\<close> (\<open>src/delivery_policy.go\<close>) decides what interrupts whom;
  \<open>Idle_Shutdown\<close> (\<open>src/idle_shutdown.go\<close>) powers a machine off only after uninterrupted idleness; \<open>Burst\<close>
  (\<open>src/burst.go\<close>, \<open>src/hub_burst_ondemand.go\<close>) wakes one under pressure and respects holds; \<open>Relay_Lru\<close>
  (\<open>src/relay_lru.go\<close>, parts of \<open>src/hub_relay_control.go\<close>) is the linked list with its index, equal to the
  list of the most recent keys; \<open>Text_Bounds\<close> (\<open>src/internal/textbound\<close>, \<open>src/text_bounds.go\<close>) cuts texts
  without cutting a rune.

  \<^bold>\<open>What they share.\<close> \<open>Pw_Prelude\<close> has numerals, tables with keys, actions with their weakest
  preconditions, relations kept by an action and transition systems. \<open>Utf8\<close>, \<open>Go_Text\<close>, \<open>Go_Time\<close> and
  \<open>Go_Sha256\<close> are what the source uses of Go's library, on byte strings, 64-bit integers and words.

  \<^bold>\<open>Bounds and fuel.\<close> No function of the model runs out of fuel. \<open>deliver\<close> counts the returns of a row by
  \<open>returns_left\<close>, and \<open>deliver_recursion\<close> shows that it satisfies the recursion of the source for every row
  and every answer, so the count is enough. The lists of answers to come are arbitrary; an empty list of
  failures is a run in which no call fails, an empty list of replies one in which the program fails.

  \<^bold>\<open>Not modelled.\<close> Opening and migrating databases, HTTP and websocket transport, JSON encoding, running
  external programs, log lines and printing: their outcomes are inputs. The hub server with its inbox, the
  spawning of agents, placement, stall detection, the quota readers and the command lines are not covered.
  Two goroutines of one node interleave between the critical sections and deliveries of \<open>release_step\<close>,
  not inside a delivery.
\<close>

end
